theory Spec2Isabelle
  imports Complex_Main "HOL-Library.Word"
begin

section \<open>Feature extraction from SCONE heatmap records\<close>

text \<open>
  A shallow embedding of \<^verbatim>\<open>extract_tfrecord_info.py\<close>: the record decoder
  \<^verbatim>\<open>parse_tfrecord\<close>, the axis arrays, the per-event reducer
  \<^verbatim>\<open>extract_summary_statistics\<close>, the projections \<^verbatim>\<open>extract_lightcurve\<close> and
  \<^verbatim>\<open>extract_spectrum\<close>, and the driver \<^verbatim>\<open>process_tfrecord\<close>.

  Numbers. The entries of a decoded grid are taken to be finite and are modelled as
  \<^typ>\<open>real\<close>. Arithmetic on them is exact, with one exception: the two partial sums
  of the light curve, \<open>flux_before_peak\<close> and \<open>flux_after_peak\<close>, are added with the
  rounding of 64-bit floats, since whether they add up to the whole sum depends on it.
  Wherever the source can produce a non-finite value from finite entries (the
  \<^verbatim>\<open>np.nan\<close> sentinel, the mean of an empty slice, a quotient with a zero
  denominator) the value has the type \<open>fl\<close> below, which adds NaN and the two infinities.

  Configuration. The module constants \<^verbatim>\<open>NUM_WAVELENGTH_BINS\<close>, \<^verbatim>\<open>NUM_MJD_BINS\<close>
  and the axis ranges are the fields of a record \<open>config\<close>, so that the functions can be
  evaluated on small grids; \<open>scone_config\<close> holds the values of the source.
\<close>

subsection \<open>Floating-point values that need not be finite\<close>

datatype fl = NaN | PInf | NInf | Fin real

text \<open>IEEE comparison: every comparison with NaN is false.\<close>

fun fl_le :: "fl \<Rightarrow> fl \<Rightarrow> bool" where
  "fl_le NaN _ = False"
| "fl_le _ NaN = False"
| "fl_le NInf _ = True"
| "fl_le _ PInf = True"
| "fl_le (Fin x) (Fin y) = (x \<le> y)"
| "fl_le PInf _ = False"
| "fl_le _ NInf = False"

fun fl_less :: "fl \<Rightarrow> fl \<Rightarrow> bool" where
  "fl_less NaN _ = False"
| "fl_less _ NaN = False"
| "fl_less (Fin x) (Fin y) = (x < y)"
| "fl_less PInf _ = False"
| "fl_less _ NInf = False"
| "fl_less NInf _ = True"
| "fl_less _ PInf = True"

fun fl_add :: "fl \<Rightarrow> fl \<Rightarrow> fl" where
  "fl_add (Fin x) (Fin y) = Fin (x + y)"
| "fl_add NaN _ = NaN"
| "fl_add _ NaN = NaN"
| "fl_add PInf NInf = NaN"
| "fl_add NInf PInf = NaN"
| "fl_add PInf _ = PInf"
| "fl_add _ PInf = PInf"
| "fl_add NInf _ = NInf"
| "fl_add _ NInf = NInf"

text \<open>Division of a float by a count \<open>n\<close> (as in a mean); \<open>0 / 0\<close> is NaN.\<close>

fun fl_div_count :: "fl \<Rightarrow> nat \<Rightarrow> fl" where
  "fl_div_count (Fin x) n =
     (if n = 0 then (if x = 0 then NaN else if 0 < x then PInf else NInf)
      else Fin (x / real n))"
| "fl_div_count a n = a"

text \<open>
  \<^verbatim>\<open>x / y\<close> on two finite floats, as numpy computes it element by element: a zero
  denominator does not raise, it gives an infinity or NaN (and a RuntimeWarning).
\<close>

definition true_divide :: "real \<Rightarrow> real \<Rightarrow> fl" where
  "true_divide x y =
     (if y = 0 then (if x = 0 then NaN else if 0 < x then PInf else NInf)
      else Fin (x / y))"

subsection \<open>The numpy reductions used by the source\<close>

text \<open>
  \<open>np_sum\<close> is the exact sum; \<open>np_sum_f64\<close> below is \<^verbatim>\<open>np.sum\<close> with every addition
  rounded.
\<close>

definition np_sum :: "real list \<Rightarrow> real" where
  "np_sum xs = sum_list xs"

text \<open>
  \<^verbatim>\<open>np.max\<close>, \<^verbatim>\<open>np.argmax\<close> and \<^verbatim>\<open>np.argmin\<close> raise ValueError on an empty
  array; they are defined on non-empty lists only, and every caller checks for the
  empty array at the place where the source would raise.
\<close>

fun np_max :: "real list \<Rightarrow> real" where
  "np_max (x # xs) = fold max xs x"

text \<open>
  The scan of \<^verbatim>\<open>np.argmax\<close>: the candidate is replaced only by a strictly larger
  entry. \<open>i\<close> is the index of the head of the remaining list.
\<close>

fun argmax_scan :: "real list \<Rightarrow> nat \<Rightarrow> nat \<Rightarrow> real \<Rightarrow> nat" where
  "argmax_scan [] i best m = best"
| "argmax_scan (x # xs) i best m =
     (if m < x then argmax_scan xs (Suc i) i x else argmax_scan xs (Suc i) best m)"

fun np_argmax :: "real list \<Rightarrow> nat" where
  "np_argmax (x # xs) = argmax_scan xs 1 0 x"

fun argmin_scan :: "real list \<Rightarrow> nat \<Rightarrow> nat \<Rightarrow> real \<Rightarrow> nat" where
  "argmin_scan [] i best m = best"
| "argmin_scan (x # xs) i best m =
     (if x < m then argmin_scan xs (Suc i) i x else argmin_scan xs (Suc i) best m)"

fun np_argmin :: "real list \<Rightarrow> nat" where
  "np_argmin (x # xs) = argmin_scan xs 1 0 x"

text \<open>\<^verbatim>\<open>np.mean\<close>, \<^verbatim>\<open>np.median\<close> and \<^verbatim>\<open>np.std\<close> of an empty array are NaN.\<close>

definition np_mean :: "real list \<Rightarrow> fl" where
  "np_mean xs = (if xs = [] then NaN else Fin (sum_list xs / real (length xs)))"

definition np_median :: "real list \<Rightarrow> fl" where
  "np_median xs =
     (if xs = [] then NaN
      else let s = sort xs; n = length xs
           in if odd n then Fin (s ! (n div 2))
              else Fin ((s ! (n div 2 - 1) + s ! (n div 2)) / 2))"

definition np_std :: "real list \<Rightarrow> fl" where
  "np_std xs =
     (if xs = [] then NaN
      else let mu = sum_list xs / real (length xs)
           in Fin (sqrt (sum_list (map (\<lambda>x. \<bar>x - mu\<bar>\<^sup>2) xs) / real (length xs))))"

text \<open>\<^verbatim>\<open>np.sqrt\<close> of a float that need not be finite.\<close>

fun np_sqrt :: "fl \<Rightarrow> fl" where
  "np_sqrt (Fin x) = (if x < 0 then NaN else Fin (sqrt x))"
| "np_sqrt PInf = PInf"
| "np_sqrt a = NaN"

text \<open>The same reductions on arrays whose entries need not be finite.\<close>

definition np_sum_fl :: "fl list \<Rightarrow> fl" where
  "np_sum_fl xs = fold (\<lambda>x acc. fl_add acc x) xs (Fin 0)"

definition np_mean_fl :: "fl list \<Rightarrow> fl" where
  "np_mean_fl xs = fl_div_count (np_sum_fl xs) (length xs)"

text \<open>\<^verbatim>\<open>np.max\<close> propagates NaN.\<close>

definition fl_maximum :: "fl \<Rightarrow> fl \<Rightarrow> fl" where
  "fl_maximum a b = (if a = NaN \<or> b = NaN then NaN else if fl_less a b then b else a)"

fun np_max_fl :: "fl list \<Rightarrow> fl" where
  "np_max_fl (x # xs) = fold (\<lambda>y acc. fl_maximum acc y) xs x"

text \<open>
  \<^verbatim>\<open>np.argmax\<close> on floats: the candidate is replaced when \<^verbatim>\<open>!(x <= m)\<close>, and the
  scan stops at the first NaN, which counts as maximal.
\<close>

fun argmax_scan_fl :: "fl list \<Rightarrow> nat \<Rightarrow> nat \<Rightarrow> fl \<Rightarrow> nat" where
  "argmax_scan_fl [] i best m = best"
| "argmax_scan_fl (x # xs) i best m =
     (if m = NaN then best
      else if \<not> fl_le x m then argmax_scan_fl xs (Suc i) i x
      else argmax_scan_fl xs (Suc i) best m)"

fun np_argmax_fl :: "fl list \<Rightarrow> nat" where
  "np_argmax_fl (x # xs) = argmax_scan_fl xs 1 0 x"

text \<open>
  \<^verbatim>\<open>np.median\<close> on floats: NaN if the array is empty or holds a NaN, otherwise the
  middle of the sorted array.
\<close>

fun fl_insort :: "fl \<Rightarrow> fl list \<Rightarrow> fl list" where
  "fl_insort x [] = [x]"
| "fl_insort x (y # ys) = (if fl_le x y then x # y # ys else y # fl_insort x ys)"

definition fl_sort :: "fl list \<Rightarrow> fl list" where
  "fl_sort xs = foldr fl_insort xs []"

definition np_median_fl :: "fl list \<Rightarrow> fl" where
  "np_median_fl xs =
     (if xs = [] \<or> NaN \<in> set xs then NaN
      else let s = fl_sort xs; n = length xs
           in if odd n then s ! (n div 2)
              else fl_div_count (fl_add (s ! (n div 2 - 1)) (s ! (n div 2))) 2)"

text \<open>
  \<^verbatim>\<open>np.linspace(start, stop, num)\<close>: \<open>num\<close> evenly spaced values, the last one set
  to \<open>stop\<close>; a single value is \<open>start\<close>.
\<close>

definition np_linspace :: "real \<Rightarrow> real \<Rightarrow> nat \<Rightarrow> real list" where
  "np_linspace start stop num =
     (if num = 1 then [start]
      else map (\<lambda>i. if i = num - 1 then stop
                     else real i * ((stop - start) / real (num - 1)) + start) [0..<num])"

subsection \<open>Arrays and grids\<close>

text \<open>
  A grid of shape \<open>(W, T)\<close> is a list of \<open>W\<close> rows (one per wavelength bin) of \<open>T\<close>
  entries (one per time bin). \<open>concat\<close> is the row-major flattening numpy uses for
  reductions without an axis and for flat indices.
\<close>

type_synonym grid = "real list list"

definition np_size :: "'a list list \<Rightarrow> nat" where
  "np_size g = length (concat g)"

definition np_unravel_index :: "nat \<Rightarrow> nat \<times> nat \<Rightarrow> nat \<times> nat" where
  "np_unravel_index k shape = (k div snd shape, k mod snd shape)"

text \<open>\<^verbatim>\<open>np.sum(g, axis=0)\<close> for a grid with \<open>ncols\<close> columns.\<close>

definition sum_axis0 :: "nat \<Rightarrow> grid \<Rightarrow> real list" where
  "sum_axis0 ncols g = map (\<lambda>t. np_sum (map (\<lambda>row. row ! t) g)) [0..<ncols]"

text \<open>\<^verbatim>\<open>xs[a:b]\<close> for \<open>0 \<le> a\<close>, \<open>0 \<le> b\<close>.\<close>

definition py_slice :: "nat \<Rightarrow> nat \<Rightarrow> 'a list \<Rightarrow> 'a list" where
  "py_slice a b xs = drop a (take b xs)"

definition np_any :: "bool list \<Rightarrow> bool" where
  "np_any msk = (True \<in> set msk)"

text \<open>\<^verbatim>\<open>np.where(mask)[0]\<close>: the indices at which the mask holds, ascending.\<close>

definition np_where_true :: "bool list \<Rightarrow> nat list" where
  "np_where_true msk = filter (\<lambda>i. msk ! i) [0..<length msk]"

text \<open>\<^verbatim>\<open>g[mask, :]\<close>: the rows of \<open>g\<close> selected by a boolean mask.\<close>

definition select_rows :: "bool list \<Rightarrow> 'a list \<Rightarrow> 'a list" where
  "select_rows msk g = map snd (filter fst (zip msk g))"

subsection \<open>Configuration and axis arrays\<close>

record config =
  NUM_WAVELENGTH_BINS :: nat
  NUM_MJD_BINS :: nat
  WAVELENGTH_MIN :: real
  WAVELENGTH_MAX :: real
  MJD_RANGE_START :: real
  MJD_RANGE_END :: real

definition scone_config :: config where
  "scone_config = \<lparr> NUM_WAVELENGTH_BINS = 32, NUM_MJD_BINS = 180,
     WAVELENGTH_MIN = 3000, WAVELENGTH_MAX = 10100,
     MJD_RANGE_START = - 50, MJD_RANGE_END = 130 \<rparr>"

definition get_wavelength_array :: "config \<Rightarrow> real list" where
  "get_wavelength_array cfg =
     np_linspace (WAVELENGTH_MIN cfg) (WAVELENGTH_MAX cfg) (NUM_WAVELENGTH_BINS cfg)"

definition get_mjd_array :: "config \<Rightarrow> real list" where
  "get_mjd_array cfg =
     np_linspace (MJD_RANGE_START cfg) (MJD_RANGE_END cfg) (NUM_MJD_BINS cfg)"

subsection \<open>Records and the decoder\<close>

datatype error = InvalidArgumentError | ValueError

text \<open>
  A serialized example, as far as \<^verbatim>\<open>parse_tfrecord\<close> looks at it: each of the five
  required features is present or not. \<open>image_raw\<close> is a byte string.
\<close>

record raw_record =
  raw_label :: "int option"
  raw_image_raw :: "8 word list option"
  raw_id :: "int option"
  raw_z :: "real option"
  raw_z_err :: "real option"

record event =
  ev_id :: int
  ev_label :: int
  ev_z :: real
  ev_z_err :: real
  flux :: grid
  flux_err :: grid

text \<open>
  \<^verbatim>\<open>tf.io.decode_raw(bytes, tf.float64)\<close>: the byte string is cut into groups of
  eight bytes, each read as one float; a length that is not a multiple of 8 is an
  error. How eight bytes give a number is the parameter \<open>f64\<close>.
\<close>

definition decode_raw :: "(8 word list \<Rightarrow> real) \<Rightarrow> 8 word list \<Rightarrow> error + real list" where
  "decode_raw f64 bs =
     (if length bs mod 8 \<noteq> 0 then Inl InvalidArgumentError
      else Inr (map (\<lambda>i. f64 (take 8 (drop (8 * i) bs))) [0..<length bs div 8]))"

text \<open>
  \<^verbatim>\<open>tf.reshape(v, (W, T, 2))\<close>: an error unless \<open>v\<close> has exactly \<open>W * T * 2\<close>
  elements; element \<open>(w, t, c)\<close> is \<open>v[(w * T + t) * 2 + c]\<close>.
\<close>

definition tf_reshape :: "real list \<Rightarrow> nat \<times> nat \<times> nat \<Rightarrow> error + real list list list" where
  "tf_reshape v shape =
     (case shape of (W, T, C) \<Rightarrow>
        if length v \<noteq> W * T * C then Inl InvalidArgumentError
        else Inr (map (\<lambda>w. map (\<lambda>t. map (\<lambda>c. v ! ((w * T + t) * C + c)) [0..<C]) [0..<T])
                   [0..<W]))"

definition INPUT_SHAPE :: "config \<Rightarrow> nat \<times> nat \<times> nat" where
  "INPUT_SHAPE cfg = (NUM_WAVELENGTH_BINS cfg, NUM_MJD_BINS cfg, 2)"

text \<open>\<^verbatim>\<open>image[:, :, c]\<close>.\<close>

definition channel :: "nat \<Rightarrow> real list list list \<Rightarrow> grid" where
  "channel c img = map (map (\<lambda>px. px ! c)) img"

text \<open>
  \<^verbatim>\<open>tf.io.parse_single_example\<close> with five \<^verbatim>\<open>FixedLenFeature\<close>s without default
  raises when one of them is missing.
\<close>

definition parse_tfrecord :: "(8 word list \<Rightarrow> real) \<Rightarrow> config \<Rightarrow> raw_record \<Rightarrow> error + event" where
  "parse_tfrecord f64 cfg raw =
     (case (raw_label raw, raw_image_raw raw, raw_id raw, raw_z raw, raw_z_err raw) of
        (Some lbl, Some bytes, Some i, Some z, Some z_err) \<Rightarrow>
          (case decode_raw f64 bytes of
             Inl e \<Rightarrow> Inl e
           | Inr v \<Rightarrow>
              (case tf_reshape v (INPUT_SHAPE cfg) of
                 Inl e \<Rightarrow> Inl e
               | Inr img \<Rightarrow>
                   Inr \<lparr> ev_id = i, ev_label = lbl, ev_z = z, ev_z_err = z_err,
                         flux = channel 0 img, flux_err = channel 1 img \<rparr>))
      | _ \<Rightarrow> Inl InvalidArgumentError)"

text \<open>
  A decoded record: both grids have the configured shape. This is what
  \<^verbatim>\<open>parse_tfrecord\<close> returns, and the reducer and the projections are modelled on such
  records (they read the grid's column count from the configuration).
\<close>

definition has_shape :: "config \<Rightarrow> grid \<Rightarrow> bool" where
  "has_shape cfg g \<longleftrightarrow>
     length g = NUM_WAVELENGTH_BINS cfg \<and> list_all (\<lambda>row. length row = NUM_MJD_BINS cfg) g"

definition decoded :: "config \<Rightarrow> event \<Rightarrow> bool" where
  "decoded cfg d \<longleftrightarrow> has_shape cfg (flux d) \<and> has_shape cfg (flux_err d)"

subsection \<open>Float64 rounding of a sum\<close>

text \<open>
  The reductions above add exactly. Where the rounding of the additions decides a
  property (the two partial sums of the light curve and their comparison with the
  whole sum), the sum is modelled as numpy computes it on 64-bit floats: every
  addition is rounded to the nearest float, ties to the even mantissa. A float has
  a 53-bit mantissa, so between \<open>2^e\<close> and \<open>2^(e+1)\<close> the floats are the multiples of
  \<open>2^(e-52)\<close>; below \<open>2^(-1022)\<close> they are the multiples of \<open>2^(-1074)\<close>. Overflow to
  infinity is not modelled, and the numbers that are added are taken to be floats
  already.
\<close>

definition round_half_even :: "real \<Rightarrow> int" where
  "round_half_even x =
     (let f = \<lfloor>x\<rfloor>; r = x - of_int f
      in if r < 1 / 2 then f else if 1 / 2 < r then f + 1 else if even f then f else f + 1)"

text \<open>The number of binary digits of a non-negative integer.\<close>

function bit_length :: "int \<Rightarrow> int" where
  "bit_length n = (if n \<le> 0 then 0 else 1 + bit_length (n div 2))"
  by pat_completeness auto
termination
  by (relation "measure nat") auto

declare bit_length.simps [simp del]

text \<open>The \<open>e\<close> with \<open>2^e \<le> \<bar>x\<bar> < 2^(e+1)\<close>, for \<open>x \<noteq> 0\<close>.\<close>

definition f64_exponent :: "real \<Rightarrow> int" where
  "f64_exponent x =
     (if 1 \<le> \<bar>x\<bar> then bit_length \<lfloor>\<bar>x\<bar>\<rfloor> - 1
      else - bit_length (\<lceil>1 / \<bar>x\<bar>\<rceil> - 1))"

definition pow2 :: "int \<Rightarrow> real" where
  "pow2 e = (if 0 \<le> e then 2 ^ nat e else 1 / 2 ^ nat (- e))"

definition f64_round :: "real \<Rightarrow> real" where
  "f64_round x =
     (if x = 0 then 0
      else let ulp = pow2 (max (f64_exponent x) (- 1022) - 52)
           in of_int (round_half_even (x / ulp)) * ulp)"

definition f64_add :: "real \<Rightarrow> real \<Rightarrow> real" where
  "f64_add x y = f64_round (x + y)"

text \<open>
  \<^verbatim>\<open>np.sum\<close> of a contiguous one-dimensional array is numpy's pairwise summation:
  fewer than 8 elements are added in order; up to 128 elements are added into eight
  accumulators, element \<open>i\<close> into accumulator \<open>i mod 8\<close>, the accumulators are added as
  \<open>((r0 + r1) + (r2 + r3)) + ((r4 + r5) + (r6 + r7))\<close> and the last \<open>n mod 8\<close> elements are
  added in order; a longer array is split at half its length, rounded down to a
  multiple of 8, and the sums of the halves are added.
\<close>

definition add_in_order :: "real \<Rightarrow> real list \<Rightarrow> real" where
  "add_in_order res xs = fold (\<lambda>x acc. f64_add acc x) xs res"

definition sum_block :: "real list \<Rightarrow> real" where
  "sum_block xs =
     (let n = length xs;
          blocks = map (\<lambda>b. take 8 (drop (8 * b) xs)) [1..<n div 8];
          r = fold (\<lambda>blk acc. map2 f64_add acc blk) blocks (take 8 xs);
          res = f64_add (f64_add (f64_add (r ! 0) (r ! 1)) (f64_add (r ! 2) (r ! 3)))
                        (f64_add (f64_add (r ! 4) (r ! 5)) (f64_add (r ! 6) (r ! 7)))
      in add_in_order res (drop (8 * (n div 8)) xs))"

function pairwise_sum :: "real list \<Rightarrow> real" where
  "pairwise_sum xs =
     (if length xs < 8 then add_in_order 0 xs
      else if length xs \<le> 128 then sum_block xs
      else f64_add
             (pairwise_sum (take (length xs div 2 - length xs div 2 mod 8) xs))
             (pairwise_sum (drop (length xs div 2 - length xs div 2 mod 8) xs)))"
  by pat_completeness auto
termination
  by (relation "measure length") auto

declare pairwise_sum.simps [simp del]

definition np_sum_f64 :: "real list \<Rightarrow> real" where
  "np_sum_f64 xs = pairwise_sum xs"

subsection \<open>The local quantities of \<^verbatim>\<open>extract_summary_statistics\<close>\<close>

text \<open>\<^verbatim>\<open>peak_flux_idx = np.unravel_index(np.argmax(flux), flux.shape)\<close>\<close>

definition peak_flux_idx :: "config \<Rightarrow> grid \<Rightarrow> nat \<times> nat" where
  "peak_flux_idx cfg fx =
     np_unravel_index (np_argmax (concat fx)) (NUM_WAVELENGTH_BINS cfg, NUM_MJD_BINS cfg)"

text \<open>\<^verbatim>\<open>light_curve = np.sum(flux, axis=0)\<close>\<close>

definition light_curve :: "config \<Rightarrow> grid \<Rightarrow> real list" where
  "light_curve cfg fx = sum_axis0 (NUM_MJD_BINS cfg) fx"

text \<open>\<^verbatim>\<open>peak_idx = np.argmax(light_curve)\<close>\<close>

definition peak_idx :: "config \<Rightarrow> grid \<Rightarrow> nat" where
  "peak_idx cfg fx = np_argmax (light_curve cfg fx)"

text \<open>
  \<^verbatim>\<open>np.sum(light_curve[:peak_idx]) if peak_idx > 0 else 0\<close> and
  \<^verbatim>\<open>np.sum(light_curve[peak_idx:]) if peak_idx < len(light_curve) else 0\<close>, each sum
  with the rounding of \<^verbatim>\<open>np.sum\<close>.
\<close>

definition flux_before_peak_of :: "config \<Rightarrow> grid \<Rightarrow> real" where
  "flux_before_peak_of cfg fx =
     (let lc = light_curve cfg fx; k = peak_idx cfg fx
      in if 0 < k then np_sum_f64 (take k lc) else 0)"

definition flux_after_peak_of :: "config \<Rightarrow> grid \<Rightarrow> real" where
  "flux_after_peak_of cfg fx =
     (let lc = light_curve cfg fx; k = peak_idx cfg fx
      in if k < length lc then np_sum_f64 (drop k lc) else 0)"

text \<open>
  \<^verbatim>\<open>half_max = info['lc_max'] / 2.0\<close> and \<^verbatim>\<open>above_half = light_curve > half_max\<close>
\<close>

definition half_max :: "config \<Rightarrow> grid \<Rightarrow> real" where
  "half_max cfg fx = np_max (light_curve cfg fx) / 2"

definition above_half :: "config \<Rightarrow> grid \<Rightarrow> bool list" where
  "above_half cfg fx = map (\<lambda>x. half_max cfg fx < x) (light_curve cfg fx)"

text \<open>
  The three half-maximum times, in the order rise, decline, duration: differences of
  axis values when some bin is above the half maximum, \<^verbatim>\<open>np.nan\<close> otherwise.
\<close>

definition half_max_times :: "config \<Rightarrow> grid \<Rightarrow> fl \<times> fl \<times> fl" where
  "half_max_times cfg fx =
     (let mjds = get_mjd_array cfg; k = peak_idx cfg fx; ab = above_half cfg fx
      in if np_any ab then
           (let first_half_idx = hd (np_where_true ab);
                last_half_idx = last (np_where_true ab)
            in (Fin (mjds ! k - mjds ! first_half_idx),
                Fin (mjds ! last_half_idx - mjds ! k),
                Fin (mjds ! last_half_idx - mjds ! first_half_idx)))
         else (NaN, NaN, NaN))"

text \<open>
  \<^verbatim>\<open>peak_start_idx = np.argmin(np.abs(mjd_array - (-10)))\<close>,
  \<^verbatim>\<open>peak_end_idx = np.argmin(np.abs(mjd_array - 20))\<close>
\<close>

definition peak_start_idx :: "config \<Rightarrow> nat" where
  "peak_start_idx cfg = np_argmin (map (\<lambda>m. \<bar>m - (- 10)\<bar>) (get_mjd_array cfg))"

definition peak_end_idx :: "config \<Rightarrow> nat" where
  "peak_end_idx cfg = np_argmin (map (\<lambda>m. \<bar>m - 20\<bar>) (get_mjd_array cfg))"

text \<open>\<^verbatim>\<open>peak_spectrum = np.mean(flux[:, peak_start_idx:peak_end_idx], axis=1)\<close>\<close>

definition peak_spectrum :: "config \<Rightarrow> grid \<Rightarrow> fl list" where
  "peak_spectrum cfg fx =
     map (\<lambda>row. np_mean (py_slice (peak_start_idx cfg) (peak_end_idx cfg) row)) fx"

text \<open>The two colour bands, as masks over the wavelength axis.\<close>

definition blue_idx :: "config \<Rightarrow> bool list" where
  "blue_idx cfg = map (\<lambda>w. 3000 \<le> w \<and> w \<le> 5000) (get_wavelength_array cfg)"

definition red_idx :: "config \<Rightarrow> bool list" where
  "red_idx cfg = map (\<lambda>w. 6000 \<le> w \<and> w \<le> 10000) (get_wavelength_array cfg)"

text \<open>\<^verbatim>\<open>np.sum(light_curve * np.sum(flux[band, :], axis=0))\<close>\<close>

definition band_flux :: "config \<Rightarrow> bool list \<Rightarrow> grid \<Rightarrow> real" where
  "band_flux cfg band fx =
     np_sum (map2 (*) (light_curve cfg fx) (sum_axis0 (NUM_MJD_BINS cfg) (select_rows band fx)))"

text \<open>The colour fields, in the order blue flux, red flux, colour ratio.\<close>

definition colour_fields :: "config \<Rightarrow> grid \<Rightarrow> fl \<times> fl \<times> fl" where
  "colour_fields cfg fx =
     (if np_any (blue_idx cfg) \<and> np_any (red_idx cfg) then
        (let blue_flux = band_flux cfg (blue_idx cfg) fx;
             red_flux = band_flux cfg (red_idx cfg) fx
         in (Fin blue_flux, Fin red_flux,
             if 0 < red_flux then Fin (blue_flux / red_flux) else NaN))
      else (NaN, NaN, NaN))"

text \<open>
  \<^verbatim>\<open>snr = np.where(flux_err > 0, flux / flux_err, 0)\<close>. Both arguments of
  \<^verbatim>\<open>np.where\<close> are evaluated before it is called: \<open>quotient\<close> is the array
  \<^verbatim>\<open>flux / flux_err\<close>, computed at every entry, and \<^verbatim>\<open>np.where\<close> then picks, entry
  by entry, the quotient or 0.
\<close>

definition quotient :: "grid \<Rightarrow> grid \<Rightarrow> fl list list" where
  "quotient fx fe = map2 (map2 true_divide) fx fe"

definition np_where :: "bool \<Rightarrow> fl \<Rightarrow> fl \<Rightarrow> fl" where
  "np_where c a b = (if c then a else b)"

definition snr :: "grid \<Rightarrow> grid \<Rightarrow> fl list list" where
  "snr fx fe =
     map2 (\<lambda>erow qrow. map2 (\<lambda>e q. np_where (0 < e) q (Fin 0)) erow qrow) fe (quotient fx fe)"

text \<open>\<^verbatim>\<open>snr[snr > 0]\<close>: the positive entries, in row-major order.\<close>

definition snr_positive :: "grid \<Rightarrow> grid \<Rightarrow> fl list" where
  "snr_positive fx fe = filter (\<lambda>s. fl_less (Fin 0) s) (concat (snr fx fe))"

definition snr_mean_of :: "grid \<Rightarrow> grid \<Rightarrow> fl" where
  "snr_mean_of fx fe =
     (if np_any (map (\<lambda>s. fl_less (Fin 0) s) (concat (snr fx fe)))
      then np_mean_fl (snr_positive fx fe) else Fin 0)"

definition snr_median_of :: "grid \<Rightarrow> grid \<Rightarrow> fl" where
  "snr_median_of fx fe =
     (if np_any (map (\<lambda>s. fl_less (Fin 0) s) (concat (snr fx fe)))
      then np_median_fl (snr_positive fx fe) else Fin 0)"

definition snr_max_of :: "grid \<Rightarrow> grid \<Rightarrow> fl" where
  "snr_max_of fx fe = np_max_fl (concat (snr fx fe))"

definition snr_peak_of :: "config \<Rightarrow> grid \<Rightarrow> grid \<Rightarrow> fl" where
  "snr_peak_of cfg fx fe =
     (case peak_flux_idx cfg fx of (i, j) \<Rightarrow> snr fx fe ! i ! j)"

text \<open>Coverage masks: \<^verbatim>\<open>flux > 0\<close>, and \<^verbatim>\<open>np.any(flux > 0, axis=...)\<close>.\<close>

definition num_nonzero :: "grid \<Rightarrow> nat" where
  "num_nonzero fx = length (filter (\<lambda>x. 0 < x) (concat fx))"

definition has_data_per_time :: "config \<Rightarrow> grid \<Rightarrow> bool list" where
  "has_data_per_time cfg fx =
     map (\<lambda>t. list_ex (\<lambda>row. 0 < row ! t) fx) [0..<NUM_MJD_BINS cfg]"

definition has_data_per_wavelength :: "grid \<Rightarrow> bool list" where
  "has_data_per_wavelength fx = map (\<lambda>row. list_ex (\<lambda>x. 0 < x) row) fx"

definition count_true :: "bool list \<Rightarrow> nat" where
  "count_true msk = length (filter (\<lambda>b. b) msk)"

subsection \<open>The Feature Reducer: \<^verbatim>\<open>extract_summary_statistics\<close>\<close>

record info =
  snid :: int
  label :: int
  label_name :: string
  redshift :: real
  redshift_err :: real
  total_flux :: real
  max_flux :: real
  mean_flux :: fl
  median_flux :: fl
  std_flux :: fl
  peak_flux_wavelength_idx :: nat
  peak_flux_mjd_idx :: nat
  peak_flux_wavelength :: real
  peak_flux_mjd :: real
  lc_max :: real
  lc_mean :: fl
  lc_peak_mjd_idx :: nat
  lc_peak_mjd :: real
  flux_before_peak :: real
  flux_after_peak :: real
  rise_time_days :: fl
  decline_time_days :: fl
  duration_days :: fl
  spectrum_max :: fl
  spectrum_mean :: fl
  spectrum_peak_wavelength_idx :: nat
  spectrum_peak_wavelength :: real
  blue_flux :: fl
  red_flux :: fl
  color_ratio :: fl
  snr_mean :: fl
  snr_median :: fl
  snr_max :: fl
  snr_peak :: fl
  num_nonzero_bins :: nat
  coverage_fraction :: real
  num_epochs_with_data :: nat
  temporal_coverage_fraction :: real
  num_wavelengths_with_data :: nat
  spectral_coverage_fraction :: real

text \<open>
  The first reduction that raises on an empty array is \<^verbatim>\<open>np.max(flux)\<close>; a grid
  without entries makes the reducer raise ValueError there. On every other decoded
  record all index reads are in range and no later line raises.
\<close>

definition extract_summary_statistics :: "config \<Rightarrow> event \<Rightarrow> error + info" where
  "extract_summary_statistics cfg d =
     (let fx = flux d; fe = flux_err d in
      if np_size fx = 0 then Inl ValueError
      else
        let wavelengths = get_wavelength_array cfg;
            mjds = get_mjd_array cfg;
            lc = light_curve cfg fx;
            hm = half_max_times cfg fx;
            ps = peak_spectrum cfg fx;
            col = colour_fields cfg fx
        in Inr \<lparr>
          snid = ev_id d,
          label = ev_label d,
          label_name = (if ev_label d = 1 then ''SNIa'' else ''Non-Ia''),
          redshift = ev_z d,
          redshift_err = ev_z_err d,
          total_flux = np_sum (concat fx),
          max_flux = np_max (concat fx),
          mean_flux = np_mean (concat fx),
          median_flux = np_median (concat fx),
          std_flux = np_std (concat fx),
          peak_flux_wavelength_idx = fst (peak_flux_idx cfg fx),
          peak_flux_mjd_idx = snd (peak_flux_idx cfg fx),
          peak_flux_wavelength = wavelengths ! fst (peak_flux_idx cfg fx),
          peak_flux_mjd = mjds ! snd (peak_flux_idx cfg fx),
          lc_max = np_max lc,
          lc_mean = np_mean lc,
          lc_peak_mjd_idx = np_argmax lc,
          lc_peak_mjd = mjds ! np_argmax lc,
          flux_before_peak = flux_before_peak_of cfg fx,
          flux_after_peak = flux_after_peak_of cfg fx,
          rise_time_days = fst hm,
          decline_time_days = fst (snd hm),
          duration_days = snd (snd hm),
          spectrum_max = np_max_fl ps,
          spectrum_mean = np_mean_fl ps,
          spectrum_peak_wavelength_idx = np_argmax_fl ps,
          spectrum_peak_wavelength = wavelengths ! np_argmax_fl ps,
          blue_flux = fst col,
          red_flux = fst (snd col),
          color_ratio = snd (snd col),
          snr_mean = snr_mean_of fx fe,
          snr_median = snr_median_of fx fe,
          snr_max = snr_max_of fx fe,
          snr_peak = snr_peak_of cfg fx fe,
          num_nonzero_bins = num_nonzero fx,
          coverage_fraction = real (num_nonzero fx) / real (np_size fx),
          num_epochs_with_data = count_true (has_data_per_time cfg fx),
          temporal_coverage_fraction =
            real (count_true (has_data_per_time cfg fx)) / real (length (has_data_per_time cfg fx)),
          num_wavelengths_with_data = count_true (has_data_per_wavelength fx),
          spectral_coverage_fraction =
            real (count_true (has_data_per_wavelength fx)) / real (length (has_data_per_wavelength fx))
        \<rparr>)"

subsection \<open>The projections\<close>

text \<open>
  A projection row is the dictionary the source builds: the record id and, for each
  index \<open>i\<close> in order, the three values stored under the keys with suffix \<open>i\<close>.
\<close>

record lightcurve_row =
  lc_snid :: int
  lc_columns :: "(real \<times> real \<times> real) list"

record spectrum_row =
  spec_snid :: int
  spec_columns :: "(real \<times> fl \<times> fl) list"

text \<open>Python's \<^verbatim>\<open>zip\<close> of three sequences stops at the shortest.\<close>

definition zip3 :: "'a list \<Rightarrow> 'b list \<Rightarrow> 'c list \<Rightarrow> ('a \<times> 'b \<times> 'c) list" where
  "zip3 xs ys zs = zip xs (zip ys zs)"

definition extract_lightcurve :: "config \<Rightarrow> event \<Rightarrow> lightcurve_row" where
  "extract_lightcurve cfg d =
     (let lc = sum_axis0 (NUM_MJD_BINS cfg) (flux d);
          light_curve_err =
            map sqrt (sum_axis0 (NUM_MJD_BINS cfg) (map (map (\<lambda>e. e\<^sup>2)) (flux_err d)));
          mjds = get_mjd_array cfg
      in \<lparr> lc_snid = ev_id d, lc_columns = zip3 mjds lc light_curve_err \<rparr>)"

text \<open>\<^verbatim>\<open>np.argmin\<close> raises ValueError when the time axis is empty.\<close>

definition extract_spectrum :: "config \<Rightarrow> event \<Rightarrow> error + spectrum_row" where
  "extract_spectrum cfg d =
     (if get_mjd_array cfg = [] then Inl ValueError
      else
        let a = peak_start_idx cfg; b = peak_end_idx cfg;
            spectrum = map (\<lambda>row. np_mean (py_slice a b row)) (flux d);
            spectrum_err =
              map (\<lambda>row. np_sqrt (np_mean (map (\<lambda>e. e\<^sup>2) (py_slice a b row)))) (flux_err d);
            wavelengths = get_wavelength_array cfg
        in Inr \<lparr> spec_snid = ev_id d, spec_columns = zip3 wavelengths spectrum spectrum_err \<rparr>)"

subsection \<open>The Batch Driver: \<^verbatim>\<open>process_tfrecord\<close>\<close>

text \<open>
  \<^verbatim>\<open>if limit:\<close> is Python truthiness: \<^verbatim>\<open>None\<close> and \<open>0\<close> are false.
  \<^verbatim>\<open>dataset.take(n)\<close> keeps the first \<open>n\<close> elements, and all of them for a negative
  \<open>n\<close>.
\<close>

definition truthy :: "int option \<Rightarrow> bool" where
  "truthy limit = (case limit of None \<Rightarrow> False | Some n \<Rightarrow> n \<noteq> 0)"

definition tf_take :: "int \<Rightarrow> 'a list \<Rightarrow> 'a list" where
  "tf_take n ds = (if n < 0 then ds else take (nat n) ds)"

definition limited :: "int option \<Rightarrow> 'a list \<Rightarrow> 'a list" where
  "limited limit ds = (if truthy limit then tf_take (the limit) ds else ds)"

text \<open>
  The three accumulators of the loop; the two optional ones are \<^verbatim>\<open>None\<close> when their
  table was not requested.
\<close>

record tables =
  summary_data :: "info list"
  lightcurve_data :: "lightcurve_row list option"
  spectrum_data :: "spectrum_row list option"

text \<open>
  One iteration of \<^verbatim>\<open>for raw_record in dataset\<close>. An exception raised by the decoder,
  the reducer or a projection leaves the function: nothing catches it.
\<close>

definition process_record ::
  "(8 word list \<Rightarrow> real) \<Rightarrow> config \<Rightarrow> bool \<Rightarrow> bool \<Rightarrow> raw_record \<Rightarrow> tables \<Rightarrow> error + tables" where
  "process_record f64 cfg full_lightcurves full_spectra raw acc =
     (case parse_tfrecord f64 cfg raw of
        Inl e \<Rightarrow> Inl e
      | Inr d \<Rightarrow>
         (case extract_summary_statistics cfg d of
            Inl e \<Rightarrow> Inl e
          | Inr row \<Rightarrow>
             let acc1 = acc\<lparr> summary_data := summary_data acc @ [row] \<rparr>;
                 acc2 = (if full_lightcurves
                         then acc1\<lparr> lightcurve_data :=
                                 Some (the (lightcurve_data acc1) @ [extract_lightcurve cfg d]) \<rparr>
                         else acc1)
             in if full_spectra then
                  (case extract_spectrum cfg d of
                     Inl e \<Rightarrow> Inl e
                   | Inr sp \<Rightarrow>
                       Inr (acc2\<lparr> spectrum_data := Some (the (spectrum_data acc2) @ [sp]) \<rparr>))
                else Inr acc2))"

fun process_loop ::
  "(8 word list \<Rightarrow> real) \<Rightarrow> config \<Rightarrow> bool \<Rightarrow> bool \<Rightarrow> raw_record list \<Rightarrow> tables \<Rightarrow> error + tables" where
  "process_loop f64 cfg full_lightcurves full_spectra [] acc = Inr acc"
| "process_loop f64 cfg full_lightcurves full_spectra (raw # rest) acc =
     (case process_record f64 cfg full_lightcurves full_spectra raw acc of
        Inl e \<Rightarrow> Inl e
      | Inr acc' \<Rightarrow> process_loop f64 cfg full_lightcurves full_spectra rest acc')"

text \<open>
  What a run leaves behind: the summary table (written and returned), and the two
  optional tables, each written only if requested and non-empty.
\<close>

record run_output =
  summary_csv :: "info list"
  lightcurves_csv :: "lightcurve_row list option"
  spectra_csv :: "spectrum_row list option"

definition process_tfrecord ::
  "(8 word list \<Rightarrow> real) \<Rightarrow> config \<Rightarrow> raw_record list \<Rightarrow> bool \<Rightarrow> bool \<Rightarrow> int option
     \<Rightarrow> error + run_output" where
  "process_tfrecord f64 cfg tfrecord full_lightcurves full_spectra limit =
     (let dataset = limited limit tfrecord;
          init = \<lparr> summary_data = [],
                   lightcurve_data = (if full_lightcurves then Some [] else None),
                   spectrum_data = (if full_spectra then Some [] else None) \<rparr>
      in case process_loop f64 cfg full_lightcurves full_spectra dataset init of
           Inl e \<Rightarrow> Inl e
         | Inr acc \<Rightarrow>
             Inr \<lparr> summary_csv = summary_data acc,
                   lightcurves_csv =
                     (if full_lightcurves \<and> the (lightcurve_data acc) \<noteq> []
                      then lightcurve_data acc else None),
                   spectra_csv =
                     (if full_spectra \<and> the (spectrum_data acc) \<noteq> []
                      then spectrum_data acc else None) \<rparr>)"

subsection \<open>What the driver does with one raw record\<close>

text \<open>
  The decoder followed by the reducer or by a projection, with the decoder's error
  passed on. The properties of the driver are stated with these compositions.
\<close>

definition reduce_record :: "(8 word list \<Rightarrow> real) \<Rightarrow> config \<Rightarrow> raw_record \<Rightarrow> error + info" where
  "reduce_record f64 cfg raw =
     (case parse_tfrecord f64 cfg raw of
        Inl e \<Rightarrow> Inl e | Inr d \<Rightarrow> extract_summary_statistics cfg d)"

definition lightcurve_of ::
  "(8 word list \<Rightarrow> real) \<Rightarrow> config \<Rightarrow> raw_record \<Rightarrow> error + lightcurve_row" where
  "lightcurve_of f64 cfg raw =
     (case parse_tfrecord f64 cfg raw of
        Inl e \<Rightarrow> Inl e | Inr d \<Rightarrow> Inr (extract_lightcurve cfg d))"

definition spectrum_of ::
  "(8 word list \<Rightarrow> real) \<Rightarrow> config \<Rightarrow> raw_record \<Rightarrow> error + spectrum_row" where
  "spectrum_of f64 cfg raw =
     (case parse_tfrecord f64 cfg raw of
        Inl e \<Rightarrow> Inl e | Inr d \<Rightarrow> extract_spectrum cfg d)"

text \<open>
  A malformed record: one of the five required features is missing, or the payload
  does not have exactly \<open>W * T * 2 * 8\<close> bytes.
\<close>

definition malformed :: "config \<Rightarrow> raw_record \<Rightarrow> bool" where
  "malformed cfg raw \<longleftrightarrow>
     raw_label raw = None \<or> raw_id raw = None \<or> raw_z raw = None \<or> raw_z_err raw = None \<or>
     (case raw_image_raw raw of
        None \<Rightarrow> True
      | Some bs \<Rightarrow> length bs \<noteq> NUM_WAVELENGTH_BINS cfg * NUM_MJD_BINS cfg * 2 * 8)"

subsection \<open>Concrete inputs\<close>

text \<open>
  The scenario of the specification: \<open>W = 4\<close>, \<open>T = 5\<close>, the axis ranges of the source,
  a flux grid whose only non-zero entry is \<open>flux[2,3] = 10\<close>, and no error estimate.
\<close>

definition scenario_config :: config where
  "scenario_config = \<lparr> NUM_WAVELENGTH_BINS = 4, NUM_MJD_BINS = 5,
     WAVELENGTH_MIN = 3000, WAVELENGTH_MAX = 10100,
     MJD_RANGE_START = - 50, MJD_RANGE_END = 130 \<rparr>"

definition scenario_event :: event where
  "scenario_event = \<lparr> ev_id = 1, ev_label = 1, ev_z = 0, ev_z_err = 0,
     flux = [[0, 0, 0, 0, 0], [0, 0, 0, 0, 0], [0, 0, 0, 10, 0], [0, 0, 0, 0, 0]],
     flux_err = [[0, 0, 0, 0, 0], [0, 0, 0, 0, 0], [0, 0, 0, 0, 0], [0, 0, 0, 0, 0]] \<rparr>"

text \<open>
  A record on the same axes in which every maximum is attained more than once: the
  largest flux at the flat indices 1, 3, 6 and 8, the largest light-curve value at the
  time bins 1 and 3, the largest peak-phase mean at the wavelength bins 0 and 1.
\<close>

definition tie_event :: event where
  "tie_event = \<lparr> ev_id = 2, ev_label = 0, ev_z = 0, ev_z_err = 0,
     flux = [[0, 1, 0, 1, 0], [0, 1, 0, 1, 0], [0, 0, 0, 0, 0], [0, 0, 0, 0, 0]],
     flux_err = [[1, 1, 1, 1, 1], [1, 1, 1, 1, 1], [1, 1, 1, 1, 1], [1, 1, 1, 1, 1]] \<rparr>"

text \<open>
  A record on the same axes whose light curve is \<open>[1, 1, 3, 9007199254740994, 3]\<close>: the
  large entry lies between \<open>2^53\<close> and \<open>2^54\<close>, where the floats are the even integers.
\<close>

definition rounding_event :: event where
  "rounding_event = \<lparr> ev_id = 4, ev_label = 0, ev_z = 0, ev_z_err = 0,
     flux = [[1, 1, 3, 9007199254740994, 3], [0, 0, 0, 0, 0], [0, 0, 0, 0, 0],
             [0, 0, 0, 0, 0]],
     flux_err = [[1, 1, 1, 1, 1], [1, 1, 1, 1, 1], [1, 1, 1, 1, 1], [1, 1, 1, 1, 1]] \<rparr>"

text \<open>
  Raw records for a grid of a single bin (\<open>W = 1\<close>, \<open>T = 1\<close>, sixteen payload bytes).
  \<open>first_byte_f64\<close> stands in for the decoding of eight bytes in these examples: it
  reads a group as the value of its first byte.
\<close>

definition single_bin_config :: config where
  "single_bin_config = \<lparr> NUM_WAVELENGTH_BINS = 1, NUM_MJD_BINS = 1,
     WAVELENGTH_MIN = 3000, WAVELENGTH_MAX = 10100,
     MJD_RANGE_START = - 50, MJD_RANGE_END = 130 \<rparr>"

definition first_byte_f64 :: "8 word list \<Rightarrow> real" where
  "first_byte_f64 bs = real (unat (hd bs))"

definition good_raw :: "int \<Rightarrow> raw_record" where
  "good_raw n = \<lparr> raw_label = Some 1,
     raw_image_raw = Some [7, 0, 0, 0, 0, 0, 0, 0, 2, 0, 0, 0, 0, 0, 0, 0],
     raw_id = Some n, raw_z = Some 0, raw_z_err = Some 0 \<rparr>"

text \<open>One byte short.\<close>

definition short_raw :: raw_record where
  "short_raw = \<lparr> raw_label = Some 1,
     raw_image_raw = Some [7, 0, 0, 0, 0, 0, 0, 0, 2, 0, 0, 0, 0, 0, 0],
     raw_id = Some 9, raw_z = Some 0, raw_z_err = Some 0 \<rparr>"

text \<open>No \<^verbatim>\<open>z_err\<close> feature.\<close>

definition incomplete_raw :: raw_record where
  "incomplete_raw = \<lparr> raw_label = Some 1,
     raw_image_raw = Some [7, 0, 0, 0, 0, 0, 0, 0, 2, 0, 0, 0, 0, 0, 0, 0],
     raw_id = Some 9, raw_z = Some 0, raw_z_err = None \<rparr>"

text \<open>
  A single wavelength bin and nineteen time bins on the time range of the source: the
  time axis is \<open>-50, -40, \<dots>, 130\<close>, so the peak-phase window is the three bins 4, 5, 6.
  Every flux entry is 2 and every error entry is 1.
\<close>

definition window_config :: config where
  "window_config = \<lparr> NUM_WAVELENGTH_BINS = 1, NUM_MJD_BINS = 19,
     WAVELENGTH_MIN = 3000, WAVELENGTH_MAX = 10100,
     MJD_RANGE_START = - 50, MJD_RANGE_END = 130 \<rparr>"

definition window_event :: event where
  "window_event = \<lparr> ev_id = 3, ev_label = 1, ev_z = 0, ev_z_err = 0,
     flux = [[2, 2, 2, 2, 2, 2, 2, 2, 2, 2, 2, 2, 2, 2, 2, 2, 2, 2, 2]],
     flux_err = [[1, 1, 1, 1, 1, 1, 1, 1, 1, 1, 1, 1, 1, 1, 1, 1, 1, 1, 1]] \<rparr>"

text \<open>Axes that miss both colour bands.\<close>

definition offband_config :: config where
  "offband_config = \<lparr> NUM_WAVELENGTH_BINS = 4, NUM_MJD_BINS = 5,
     WAVELENGTH_MIN = 11000, WAVELENGTH_MAX = 12000,
     MJD_RANGE_START = - 50, MJD_RANGE_END = 130 \<rparr>"

section \<open>Properties\<close>

subsection \<open>Facts about the reductions and the shapes\<close>

lemma np_max_eq_Max: "xs \<noteq> [] \<Longrightarrow> np_max xs = Max (set xs)"
  using Max.set_eq_fold[of "hd xs" "tl xs"] by (cases xs) simp_all

lemma argmax_scan_inv:
  assumes "pre \<noteq> []" "length pre = i" "best < i" "pre ! best = m"
    and "\<forall>j<i. pre ! j \<le> m" "\<forall>j<best. pre ! j < m"
  shows "argmax_scan xs i best m < length (pre @ xs) \<and>
         (\<forall>j<length (pre @ xs). (pre @ xs) ! j \<le> (pre @ xs) ! argmax_scan xs i best m) \<and>
         (\<forall>j<argmax_scan xs i best m. (pre @ xs) ! j < (pre @ xs) ! argmax_scan xs i best m)"
  using assms
proof (induction xs arbitrary: pre i best m)
  case Nil
  then show ?case by simp
next
  case (Cons x xs)
  show ?case
  proof (cases "m < x")
    case True
    have "argmax_scan xs (Suc i) i x < length ((pre @ [x]) @ xs) \<and>
         (\<forall>j<length ((pre @ [x]) @ xs). ((pre @ [x]) @ xs) ! j \<le> ((pre @ [x]) @ xs) ! argmax_scan xs (Suc i) i x) \<and>
         (\<forall>j<argmax_scan xs (Suc i) i x. ((pre @ [x]) @ xs) ! j < ((pre @ [x]) @ xs) ! argmax_scan xs (Suc i) i x)"
    proof (rule Cons.IH)
      show "pre @ [x] \<noteq> []" by simp
      show "length (pre @ [x]) = Suc i" using Cons.prems by simp
      show "i < Suc i" by simp
      show "(pre @ [x]) ! i = x" using Cons.prems(2) by auto
      show "\<forall>j<Suc i. (pre @ [x]) ! j \<le> x"
        using Cons.prems True by (auto simp: nth_append less_Suc_eq intro: order_trans less_imp_le)
      show "\<forall>j<i. (pre @ [x]) ! j < x"
        using Cons.prems True by (auto simp: nth_append intro: le_less_trans)
    qed
    with True show ?thesis by simp
  next
    case False
    have "argmax_scan xs (Suc i) best m < length ((pre @ [x]) @ xs) \<and>
         (\<forall>j<length ((pre @ [x]) @ xs). ((pre @ [x]) @ xs) ! j \<le> ((pre @ [x]) @ xs) ! argmax_scan xs (Suc i) best m) \<and>
         (\<forall>j<argmax_scan xs (Suc i) best m. ((pre @ [x]) @ xs) ! j < ((pre @ [x]) @ xs) ! argmax_scan xs (Suc i) best m)"
    proof (rule Cons.IH)
      show "pre @ [x] \<noteq> []" by simp
      show "length (pre @ [x]) = Suc i" using Cons.prems by simp
      show "best < Suc i" using Cons.prems by simp
      show "(pre @ [x]) ! best = m" using Cons.prems by (simp add: nth_append)
      show "\<forall>j<Suc i. (pre @ [x]) ! j \<le> m"
        using Cons.prems False by (auto simp: nth_append less_Suc_eq)
      show "\<forall>j<best. (pre @ [x]) ! j < m"
        using Cons.prems by (auto simp: nth_append)
    qed
    with False show ?thesis by simp
  qed
qed

lemma np_argmax_props:
  assumes "xs \<noteq> []"
  shows "np_argmax xs < length xs"
    and "\<forall>j<length xs. xs ! j \<le> xs ! np_argmax xs"
    and "\<forall>j<np_argmax xs. xs ! j < xs ! np_argmax xs"
proof -
  obtain x rest where xs: "xs = x # rest" using assms by (cases xs) auto
  have "argmax_scan rest 1 0 x < length ([x] @ rest) \<and>
         (\<forall>j<length ([x] @ rest). ([x] @ rest) ! j \<le> ([x] @ rest) ! argmax_scan rest 1 0 x) \<and>
         (\<forall>j<argmax_scan rest 1 0 x. ([x] @ rest) ! j < ([x] @ rest) ! argmax_scan rest 1 0 x)"
    by (rule argmax_scan_inv) simp_all
  then show "np_argmax xs < length xs"
    and "\<forall>j<length xs. xs ! j \<le> xs ! np_argmax xs"
    and "\<forall>j<np_argmax xs. xs ! j < xs ! np_argmax xs"
    by (simp_all add: xs)
qed

lemma np_argmax_Max:
  assumes "xs \<noteq> []"
  shows "xs ! np_argmax xs = Max (set xs)"
proof (rule sym, rule Max_eqI)
  show "finite (set xs)" by simp
  show "xs ! np_argmax xs \<in> set xs" using np_argmax_props(1)[OF assms] by simp
  fix y assume "y \<in> set xs"
  then obtain j where "j < length xs" "xs ! j = y" by (auto simp: in_set_conv_nth)
  then show "y \<le> xs ! np_argmax xs" using np_argmax_props(2)[OF assms] by auto
qed

lemma np_argmax_Least:
  assumes "xs \<noteq> []"
  shows "np_argmax xs = (LEAST j. j < length xs \<and> xs ! j = Max (set xs))"
proof (rule sym, rule Least_equality)
  show "np_argmax xs < length xs \<and> xs ! np_argmax xs = Max (set xs)"
    using np_argmax_props(1)[OF assms] np_argmax_Max[OF assms] by simp
  fix j assume j: "j < length xs \<and> xs ! j = Max (set xs)"
  show "np_argmax xs \<le> j"
  proof (rule ccontr)
    assume "\<not> np_argmax xs \<le> j"
    then have "j < np_argmax xs" by simp
    then have "xs ! j < xs ! np_argmax xs" using np_argmax_props(3)[OF assms] by simp
    then show False using j np_argmax_Max[OF assms] by simp
  qed
qed


lemma length_np_linspace: "length (np_linspace a b n) = n"
  by (simp add: np_linspace_def)

lemma length_get_mjd_array: "length (get_mjd_array cfg) = NUM_MJD_BINS cfg"
  by (simp add: get_mjd_array_def length_np_linspace)

lemma length_get_wavelength_array: "length (get_wavelength_array cfg) = NUM_WAVELENGTH_BINS cfg"
  by (simp add: get_wavelength_array_def length_np_linspace)

lemma length_light_curve: "length (light_curve cfg fx) = NUM_MJD_BINS cfg"
  by (simp add: light_curve_def sum_axis0_def)

lemma length_concat_uniform:
  "list_all (\<lambda>row. length row = n) g \<Longrightarrow> length (concat g) = length g * n"
  by (induction g) simp_all

lemma concat_nth_uniform:
  "list_all (\<lambda>row. length row = n) g \<Longrightarrow> w < length g \<Longrightarrow> t < n \<Longrightarrow>
   concat g ! (w * n + t) = g ! w ! t"
proof (induction g arbitrary: w)
  case Nil
  then show ?case by simp
next
  case (Cons r g)
  show ?case
  proof (cases w)
    case 0
    with Cons.prems show ?thesis by (simp add: nth_append)
  next
    case (Suc v)
    with Cons.prems have "concat g ! (v * n + t) = g ! v ! t"
      by (intro Cons.IH) simp_all
    with Suc Cons.prems show ?thesis by (simp add: nth_append)
  qed
qed

lemma size_decoded:
  assumes "has_shape cfg g"
  shows "np_size g = NUM_WAVELENGTH_BINS cfg * NUM_MJD_BINS cfg"
  using assms length_concat_uniform[of "NUM_MJD_BINS cfg" g]
  by (simp add: has_shape_def np_size_def)

lemma extract_Inr:
  assumes "extract_summary_statistics cfg d = Inr i"
  shows "np_size (flux d) \<noteq> 0"
    and "peak_flux_wavelength_idx i = fst (peak_flux_idx cfg (flux d))"
    and "peak_flux_mjd_idx i = snd (peak_flux_idx cfg (flux d))"
    and "lc_peak_mjd_idx i = np_argmax (light_curve cfg (flux d))"
    and "lc_max i = np_max (light_curve cfg (flux d))"
    and "flux_before_peak i = flux_before_peak_of cfg (flux d)"
    and "flux_after_peak i = flux_after_peak_of cfg (flux d)"
    and "rise_time_days i = fst (half_max_times cfg (flux d))"
    and "decline_time_days i = fst (snd (half_max_times cfg (flux d)))"
    and "duration_days i = snd (snd (half_max_times cfg (flux d)))"
    and "spectrum_peak_wavelength_idx i = np_argmax_fl (peak_spectrum cfg (flux d))"
    and "spectrum_max i = np_max_fl (peak_spectrum cfg (flux d))"
    and "blue_flux i = fst (colour_fields cfg (flux d))"
    and "red_flux i = fst (snd (colour_fields cfg (flux d)))"
    and "color_ratio i = snd (snd (colour_fields cfg (flux d)))"
    and "snr_mean i = snr_mean_of (flux d) (flux_err d)"
    and "snr_median i = snr_median_of (flux d) (flux_err d)"
    and "snr_max i = snr_max_of (flux d) (flux_err d)"
    and "snr_peak i = snr_peak_of cfg (flux d) (flux_err d)"
    and "coverage_fraction i = real (num_nonzero (flux d)) / real (np_size (flux d))"
proof -
  show nz: "np_size (flux d) \<noteq> 0"
    using assms by (auto simp: extract_summary_statistics_def Let_def split: if_splits)
  have i: "Inr i = extract_summary_statistics cfg d" using assms by simp
  show "peak_flux_wavelength_idx i = fst (peak_flux_idx cfg (flux d))"
    and "peak_flux_mjd_idx i = snd (peak_flux_idx cfg (flux d))"
    and "lc_peak_mjd_idx i = np_argmax (light_curve cfg (flux d))"
    and "lc_max i = np_max (light_curve cfg (flux d))"
    and "flux_before_peak i = flux_before_peak_of cfg (flux d)"
    and "flux_after_peak i = flux_after_peak_of cfg (flux d)"
    and "rise_time_days i = fst (half_max_times cfg (flux d))"
    and "decline_time_days i = fst (snd (half_max_times cfg (flux d)))"
    and "duration_days i = snd (snd (half_max_times cfg (flux d)))"
    and "spectrum_peak_wavelength_idx i = np_argmax_fl (peak_spectrum cfg (flux d))"
    and "spectrum_max i = np_max_fl (peak_spectrum cfg (flux d))"
    and "blue_flux i = fst (colour_fields cfg (flux d))"
    and "red_flux i = fst (snd (colour_fields cfg (flux d)))"
    and "color_ratio i = snd (snd (colour_fields cfg (flux d)))"
    and "snr_mean i = snr_mean_of (flux d) (flux_err d)"
    and "snr_median i = snr_median_of (flux d) (flux_err d)"
    and "snr_max i = snr_max_of (flux d) (flux_err d)"
    and "snr_peak i = snr_peak_of cfg (flux d) (flux_err d)"
    and "coverage_fraction i = real (num_nonzero (flux d)) / real (np_size (flux d))"
    using i nz by (simp_all add: extract_summary_statistics_def Let_def)
qed

lemma extract_total:
  "np_size (flux d) \<noteq> 0 \<Longrightarrow> \<exists>i. extract_summary_statistics cfg d = Inr i"
  by (simp add: extract_summary_statistics_def Let_def)

lemma decoded_dims:
  assumes "decoded cfg d" "np_size (flux d) \<noteq> 0"
  shows "0 < NUM_WAVELENGTH_BINS cfg" "0 < NUM_MJD_BINS cfg"
  using assms size_decoded[of cfg "flux d"] by (auto simp: decoded_def)

lemma argmax_scan_fl_Fin:
  "argmax_scan_fl (map Fin xs) i best (Fin m) = argmax_scan xs i best m"
  by (induction xs arbitrary: i best m) (simp_all add: not_le)

lemma np_argmax_fl_Fin: "xs \<noteq> [] \<Longrightarrow> np_argmax_fl (map Fin xs) = np_argmax xs"
  by (cases xs) (simp_all add: argmax_scan_fl_Fin)

lemma argmin_scan_bound:
  "best < i \<Longrightarrow> argmin_scan xs i best m < i + length xs"
proof (induction xs arbitrary: i best m)
  case Nil
  then show ?case by simp
next
  case (Cons x xs)
  have a: "argmin_scan xs (Suc i) i x < Suc i + length xs"
    by (rule Cons.IH) simp
  have b: "argmin_scan xs (Suc i) best m < Suc i + length xs"
    by (rule Cons.IH) (use Cons.prems in simp)
  from a b show ?case by simp
qed

lemma np_argmin_bound: "xs \<noteq> [] \<Longrightarrow> np_argmin xs < length xs"
  using argmin_scan_bound[of 0 1 "tl xs" "hd xs"] by (cases xs) simp_all

lemma peak_end_idx_bound: "0 < NUM_MJD_BINS cfg \<Longrightarrow> peak_end_idx cfg < NUM_MJD_BINS cfg"
  using np_argmin_bound[of "map (\<lambda>m. \<bar>m - 20\<bar>) (get_mjd_array cfg)"]
  by (simp add: peak_end_idx_def length_get_mjd_array flip: length_0_conv)

lemma peak_start_idx_bound: "0 < NUM_MJD_BINS cfg \<Longrightarrow> peak_start_idx cfg < NUM_MJD_BINS cfg"
  using np_argmin_bound[of "map (\<lambda>m. \<bar>m - (- 10)\<bar>) (get_mjd_array cfg)"]
  by (simp add: peak_start_idx_def length_get_mjd_array flip: length_0_conv)

text \<open>A non-empty window: the mean of every row's slice is finite.\<close>

lemma length_py_slice: "length (py_slice a b xs) = min b (length xs) - a"
  by (simp add: py_slice_def)

lemma peak_spectrum_Fin:
  assumes "has_shape cfg fx" "peak_start_idx cfg < peak_end_idx cfg" "0 < NUM_MJD_BINS cfg"
  shows "peak_spectrum cfg fx =
    map Fin (map (\<lambda>row. sum_list (py_slice (peak_start_idx cfg) (peak_end_idx cfg) row)
                          / real (peak_end_idx cfg - peak_start_idx cfg)) fx)"
proof -
  have "np_mean (py_slice (peak_start_idx cfg) (peak_end_idx cfg) row) =
        Fin (sum_list (py_slice (peak_start_idx cfg) (peak_end_idx cfg) row)
              / real (peak_end_idx cfg - peak_start_idx cfg))" if "row \<in> set fx" for row
  proof -
    have len: "length row = NUM_MJD_BINS cfg"
      using assms(1) that by (auto simp: has_shape_def list_all_iff)
    have "length (py_slice (peak_start_idx cfg) (peak_end_idx cfg) row)
            = peak_end_idx cfg - peak_start_idx cfg"
      using peak_end_idx_bound[OF assms(3)] len by (simp add: length_py_slice)
    moreover from this assms(2)
    have "py_slice (peak_start_idx cfg) (peak_end_idx cfg) row \<noteq> []" by auto
    ultimately show ?thesis by (simp add: np_mean_def)
  qed
  then show ?thesis by (simp add: peak_spectrum_def)
qed

lemma extract_decoded_total:
  assumes "decoded cfg d" "0 < NUM_WAVELENGTH_BINS cfg" "0 < NUM_MJD_BINS cfg"
  shows "\<exists>i. extract_summary_statistics cfg d = Inr i"
proof -
  have "np_size (flux d) \<noteq> 0"
    using assms size_decoded[of cfg "flux d"] by (simp add: decoded_def)
  then show ?thesis by (rule extract_total)
qed

lemma light_curve_nonempty: "0 < NUM_MJD_BINS cfg \<Longrightarrow> light_curve cfg fx \<noteq> []"
  using length_light_curve[of cfg fx] by auto

subsection \<open>The peak-phase window of the source's axes\<close>

lemma argmin_scan_as_argmax:
  "argmin_scan xs i best m = argmax_scan (map uminus xs) i best (- m)"
  by (induction xs arbitrary: i best m) simp_all

lemma np_argmin_as_argmax: "xs \<noteq> [] \<Longrightarrow> np_argmin xs = np_argmax (map uminus xs)"
  by (cases xs) (simp_all add: argmin_scan_as_argmax)

lemma np_argmin_unique:
  assumes "k < length xs" "\<forall>j<length xs. j \<noteq> k \<longrightarrow> xs ! k < xs ! j"
  shows "np_argmin xs = k"
proof (rule ccontr)
  assume ne: "np_argmin xs \<noteq> k"
  have xs: "xs \<noteq> []" using assms(1) by auto
  then have m: "map uminus xs \<noteq> []" by simp
  define r where "r = np_argmin xs"
  have r: "r = np_argmax (map uminus xs)" unfolding r_def by (rule np_argmin_as_argmax[OF xs])
  have rl: "r < length xs" using np_argmax_props(1)[OF m] r by simp
  have "map uminus xs ! k \<le> map uminus xs ! r"
    using np_argmax_props(2)[OF m] assms(1) r by simp
  then have "xs ! r \<le> xs ! k" using rl assms(1) by simp
  moreover have "xs ! k < xs ! r" using assms(2) rl ne by (simp add: r_def)
  ultimately show False by simp
qed

lemma scone_mjd_nth:
  assumes "j < 180"
  shows "get_mjd_array scone_config ! j = real j * (180 / 179) - 50"
proof (cases "j = 179")
  case True
  then show ?thesis by (simp add: get_mjd_array_def np_linspace_def scone_config_def)
next
  case False
  then show ?thesis using assms by (simp add: get_mjd_array_def np_linspace_def scone_config_def)
qed

lemma scone_window: "peak_start_idx scone_config = 40 \<and> peak_end_idx scone_config = 70"
proof
  have len: "length (get_mjd_array scone_config) = 180"
    by (simp add: length_get_mjd_array scone_config_def)
  show "peak_start_idx scone_config = 40"
    unfolding peak_start_idx_def
  proof (rule np_argmin_unique)
    show "40 < length (map (\<lambda>m. \<bar>m - (- 10)\<bar>) (get_mjd_array scone_config))"
      by (simp add: len)
    show "\<forall>j<length (map (\<lambda>m. \<bar>m - (- 10)\<bar>) (get_mjd_array scone_config)). j \<noteq> 40 \<longrightarrow>
        map (\<lambda>m. \<bar>m - (- 10)\<bar>) (get_mjd_array scone_config) ! 40
          < map (\<lambda>m. \<bar>m - (- 10)\<bar>) (get_mjd_array scone_config) ! j"
    proof (intro allI impI)
      fix j assume j: "j < length (map (\<lambda>m. \<bar>m - (- 10)\<bar>) (get_mjd_array scone_config))"
        and ne: "j \<noteq> 40"
      then have j180: "j < 180" by (simp add: len)
      have "real j \<le> 39 \<or> 41 \<le> real j" using ne by (cases "j < 40") auto
      then have "\<bar>real (40::nat) * (180 / 179) - 50 - (- 10)\<bar> < \<bar>real j * (180 / 179) - 50 - (- 10)\<bar>"
        by auto
      then show "map (\<lambda>m. \<bar>m - (- 10)\<bar>) (get_mjd_array scone_config) ! 40
          < map (\<lambda>m. \<bar>m - (- 10)\<bar>) (get_mjd_array scone_config) ! j"
        using j180 len scone_mjd_nth[of 40] scone_mjd_nth[OF j180] by simp
    qed
  qed
  show "peak_end_idx scone_config = 70"
    unfolding peak_end_idx_def
  proof (rule np_argmin_unique)
    show "70 < length (map (\<lambda>m. \<bar>m - 20\<bar>) (get_mjd_array scone_config))"
      by (simp add: len)
    show "\<forall>j<length (map (\<lambda>m. \<bar>m - 20\<bar>) (get_mjd_array scone_config)). j \<noteq> 70 \<longrightarrow>
        map (\<lambda>m. \<bar>m - 20\<bar>) (get_mjd_array scone_config) ! 70
          < map (\<lambda>m. \<bar>m - 20\<bar>) (get_mjd_array scone_config) ! j"
    proof (intro allI impI)
      fix j assume j: "j < length (map (\<lambda>m. \<bar>m - 20\<bar>) (get_mjd_array scone_config))"
        and ne: "j \<noteq> 70"
      then have j180: "j < 180" by (simp add: len)
      have "real j \<le> 69 \<or> 71 \<le> real j" using ne by (cases "j < 70") auto
      then have "\<bar>real (70::nat) * (180 / 179) - 50 - 20\<bar> < \<bar>real j * (180 / 179) - 50 - 20\<bar>"
        by auto
      then show "map (\<lambda>m. \<bar>m - 20\<bar>) (get_mjd_array scone_config) ! 70
          < map (\<lambda>m. \<bar>m - 20\<bar>) (get_mjd_array scone_config) ! j"
        using j180 len scone_mjd_nth[of 70] scone_mjd_nth[OF j180] by simp
    qed
  qed
qed

text \<open>
  So the assumptions made on the configuration in the theorems of this theory hold for
  the constants of the source.
\<close>

lemma scone_config_assumptions:
  "0 < NUM_WAVELENGTH_BINS scone_config \<and> 0 < NUM_MJD_BINS scone_config \<and>
   peak_start_idx scone_config < peak_end_idx scone_config"
  using scone_window by (simp add: scone_config_def)


lemma decoded_flux_shape:
  "decoded cfg d \<Longrightarrow> has_shape cfg (flux d)"
  by (simp add: decoded_def)

lemma unravel_flat:
  "0 < T \<Longrightarrow> fst (np_unravel_index k (W, T)) * T + snd (np_unravel_index k (W, T)) = k
     \<and> snd (np_unravel_index k (W, T)) < T"
  by (simp add: np_unravel_index_def)

subsection \<open>Ties in the argmax fields\<close>

text \<open>
  C10. For every decoded record the three argmax-derived fields take the first maximal
  position in scan order, whether or not the maximum is attained more than once: the flux
  peak index is the row and column of the least row-major flat index at which the flux
  grid attains its maximum, the light-curve peak index is the least time index at which
  the light curve attains its maximum, and the spectrum peak wavelength index is the
  least wavelength index at which the peak-phase spectrum attains its maximum. The
  peak-phase window is assumed non-empty, as it is for the axes of the source; on an
  empty window every spectrum entry is NaN.
\<close>

theorem argmax_fields_take_first_maximum:
  assumes "decoded cfg d" "0 < NUM_WAVELENGTH_BINS cfg" "0 < NUM_MJD_BINS cfg"
    and "peak_start_idx cfg < peak_end_idx cfg"
  shows "\<exists>i sp. extract_summary_statistics cfg d = Inr i \<and>
    peak_flux_mjd_idx i < NUM_MJD_BINS cfg \<and>
    peak_flux_wavelength_idx i * NUM_MJD_BINS cfg + peak_flux_mjd_idx i =
      (LEAST k. k < length (concat (flux d)) \<and>
                concat (flux d) ! k = Max (set (concat (flux d)))) \<and>
    lc_peak_mjd_idx i =
      (LEAST t. t < length (light_curve cfg (flux d)) \<and>
                light_curve cfg (flux d) ! t = Max (set (light_curve cfg (flux d)))) \<and>
    peak_spectrum cfg (flux d) = map Fin sp \<and>
    spectrum_peak_wavelength_idx i = (LEAST w. w < length sp \<and> sp ! w = Max (set sp))"
proof -
  obtain i where i: "extract_summary_statistics cfg d = Inr i"
    using extract_decoded_total[OF assms(1-3)] by blast
  define F where "F = concat (flux d)"
  define lc where "lc = light_curve cfg (flux d)"
  define sp where "sp = map (\<lambda>row. sum_list (py_slice (peak_start_idx cfg) (peak_end_idx cfg) row)
                          / real (peak_end_idx cfg - peak_start_idx cfg)) (flux d)"
  have shape: "has_shape cfg (flux d)" by (rule decoded_flux_shape[OF assms(1)])
  have "length F = NUM_WAVELENGTH_BINS cfg * NUM_MJD_BINS cfg"
    using size_decoded[OF shape] by (simp add: np_size_def F_def)
  then have Fne: "F \<noteq> []" using assms(2,3) by auto
  have lcne: "lc \<noteq> []" unfolding lc_def by (rule light_curve_nonempty[OF assms(3)])
  have spne: "sp \<noteq> []" using shape assms(2) by (auto simp: sp_def has_shape_def)
  have ps: "peak_spectrum cfg (flux d) = map Fin sp"
    unfolding sp_def by (rule peak_spectrum_Fin[OF shape assms(4) assms(3)])
  have flat: "peak_flux_wavelength_idx i * NUM_MJD_BINS cfg + peak_flux_mjd_idx i = np_argmax F
      \<and> peak_flux_mjd_idx i < NUM_MJD_BINS cfg"
    using extract_Inr(2,3)[OF i] unravel_flat[OF assms(3), of "np_argmax F" "NUM_WAVELENGTH_BINS cfg"]
    by (simp add: peak_flux_idx_def F_def)
  have a: "peak_flux_wavelength_idx i * NUM_MJD_BINS cfg + peak_flux_mjd_idx i =
      (LEAST k. k < length F \<and> F ! k = Max (set F))"
    using flat np_argmax_Least[OF Fne] by simp
  have b: "lc_peak_mjd_idx i = (LEAST t. t < length lc \<and> lc ! t = Max (set lc))"
    using extract_Inr(4)[OF i] np_argmax_Least[OF lcne] by (simp add: lc_def)
  have "spectrum_peak_wavelength_idx i = np_argmax sp"
    using extract_Inr(11)[OF i] ps np_argmax_fl_Fin[OF spne] by simp
  then have c: "spectrum_peak_wavelength_idx i = (LEAST w. w < length sp \<and> sp ! w = Max (set sp))"
    using np_argmax_Least[OF spne] by simp
  show ?thesis
    using i flat a b ps c unfolding F_def lc_def by blast
qed

lemma tie_window: "peak_start_idx scenario_config = 1 \<and> peak_end_idx scenario_config = 2"
  by code_simp

theorem argmax_fields_take_first_maximum_witness:
  "decoded scenario_config tie_event \<and>
   peak_start_idx scenario_config < peak_end_idx scenario_config \<and>
   concat (flux tie_event) ! 1 = 1 \<and> concat (flux tie_event) ! 3 = 1 \<and>
   Max (set (concat (flux tie_event))) = 1 \<and>
   light_curve scenario_config (flux tie_event) = [0, 2, 0, 2, 0] \<and>
   peak_spectrum scenario_config (flux tie_event) = [Fin 1, Fin 1, Fin 0, Fin 0] \<and>
   (\<exists>i. extract_summary_statistics scenario_config tie_event = Inr i \<and>
      peak_flux_wavelength_idx i = 0 \<and> peak_flux_mjd_idx i = 1 \<and>
      lc_peak_mjd_idx i = 1 \<and> spectrum_peak_wavelength_idx i = 0 \<and>
      peak_flux_wavelength_idx i * NUM_MJD_BINS scenario_config + peak_flux_mjd_idx i =
        (LEAST k. k < length (concat (flux tie_event)) \<and>
                  concat (flux tie_event) ! k = Max (set (concat (flux tie_event)))) \<and>
      lc_peak_mjd_idx i =
        (LEAST t. t < length (light_curve scenario_config (flux tie_event)) \<and>
           light_curve scenario_config (flux tie_event) ! t
             = Max (set (light_curve scenario_config (flux tie_event)))))"
proof -
  have dec: "decoded scenario_config tie_event"
    by (simp add: decoded_def has_shape_def scenario_config_def tie_event_def)
  have W: "0 < NUM_WAVELENGTH_BINS scenario_config" by (simp add: scenario_config_def)
  have T: "0 < NUM_MJD_BINS scenario_config" by (simp add: scenario_config_def)
  have win: "peak_start_idx scenario_config < peak_end_idx scenario_config"
    using tie_window by simp
  have lc: "light_curve scenario_config (flux tie_event) = [0, 2, 0, 2, 0]"
    by code_simp
  have ps: "peak_spectrum scenario_config (flux tie_event) = [Fin 1, Fin 1, Fin 0, Fin 0]"
    by code_simp
  have F: "concat (flux tie_event) = [0, 1, 0, 1, 0, 0, 1, 0, 1, 0, 0, 0, 0, 0, 0, 0, 0, 0, 0, 0]"
    by (simp add: tie_event_def)
  have pk: "peak_flux_idx scenario_config (flux tie_event) = (0, 1)"
    by code_simp
  obtain i sp where i: "extract_summary_statistics scenario_config tie_event = Inr i"
    and a: "peak_flux_wavelength_idx i * NUM_MJD_BINS scenario_config + peak_flux_mjd_idx i =
        (LEAST k. k < length (concat (flux tie_event)) \<and>
                  concat (flux tie_event) ! k = Max (set (concat (flux tie_event))))"
    and b: "lc_peak_mjd_idx i =
        (LEAST t. t < length (light_curve scenario_config (flux tie_event)) \<and>
           light_curve scenario_config (flux tie_event) ! t
             = Max (set (light_curve scenario_config (flux tie_event))))"
    using argmax_fields_take_first_maximum[OF dec W T win] by blast
  have v: "peak_flux_wavelength_idx i = 0 \<and> peak_flux_mjd_idx i = 1 \<and>
      lc_peak_mjd_idx i = 1 \<and> spectrum_peak_wavelength_idx i = 0"
    using extract_Inr(2,3,4,11)[OF i] by (simp add: pk lc ps)
  have m: "concat (flux tie_event) ! 1 = 1 \<and> concat (flux tie_event) ! 3 = 1 \<and>
     Max (set (concat (flux tie_event))) = 1"
    by (simp add: F)
  show ?thesis using dec win m lc ps i v a b by blast
qed

lemma sorted_hd_least: "sorted xs \<Longrightarrow> x \<in> set xs \<Longrightarrow> hd xs \<le> x"
  by (cases xs) auto

lemma sorted_last_greatest: "sorted xs \<Longrightarrow> x \<in> set xs \<Longrightarrow> x \<le> last xs"
  by (induction xs) (auto split: if_splits)

lemma np_where_true_set:
  "set (np_where_true (map P xs)) = {t. t < length xs \<and> P (xs ! t)}"
  by (auto simp: np_where_true_def)

lemma np_where_true_sorted: "sorted (np_where_true msk)"
  by (simp add: np_where_true_def sorted_wrt_filter)

lemma np_any_map: "np_any (map P xs) \<longleftrightarrow> {t. t < length xs \<and> P (xs ! t)} \<noteq> {}"
proof -
  have "np_any (map P xs) \<longleftrightarrow> (\<exists>x\<in>set xs. P x)"
    unfolding np_any_def by (simp add: image_iff)
  also have "\<dots> \<longleftrightarrow> (\<exists>t<length xs. P (xs ! t))"
    by (simp add: Bex_def in_set_conv_nth) metis
  also have "\<dots> \<longleftrightarrow> {t. t < length xs \<and> P (xs ! t)} \<noteq> {}"
    by simp
  finally show ?thesis .
qed

lemma np_where_true_hd_last:
  assumes "{t. t < length xs \<and> P (xs ! t)} \<noteq> {}"
  shows "hd (np_where_true (map P xs)) = Min {t. t < length xs \<and> P (xs ! t)}"
    and "last (np_where_true (map P xs)) = Max {t. t < length xs \<and> P (xs ! t)}"
proof -
  define ws where "ws = np_where_true (map P xs)"
  define A where "A = {t. t < length xs \<and> P (xs ! t)}"
  have mem: "y \<in> set ws \<longleftrightarrow> y \<in> A" for y
    unfolding ws_def A_def np_where_true_set ..
  have srt: "sorted ws" unfolding ws_def by (rule np_where_true_sorted)
  obtain a where "a \<in> A" using assms unfolding A_def by blast
  then have "a \<in> set ws" by (simp add: mem)
  then have ne: "ws \<noteq> []" by auto
  have fin: "finite A" unfolding A_def by simp
  have "Min A = hd ws"
  proof (rule Min_eqI[OF fin])
    show "hd ws \<in> A" using hd_in_set[OF ne] by (simp add: mem)
    fix y assume "y \<in> A"
    then have "y \<in> set ws" by (simp add: mem)
    then show "hd ws \<le> y" by (rule sorted_hd_least[OF srt])
  qed
  then show "hd (np_where_true (map P xs)) = Min {t. t < length xs \<and> P (xs ! t)}"
    unfolding ws_def A_def by simp
  have "Max A = last ws"
  proof (rule Max_eqI[OF fin])
    show "last ws \<in> A" using last_in_set[OF ne] by (simp add: mem)
    fix y assume "y \<in> A"
    then have "y \<in> set ws" by (simp add: mem)
    then show "y \<le> last ws" by (rule sorted_last_greatest[OF srt])
  qed
  then show "last (np_where_true (map P xs)) = Max {t. t < length xs \<and> P (xs ! t)}"
    unfolding ws_def A_def by simp
qed

lemma half_max_times_eq:
  assumes "0 < NUM_MJD_BINS cfg"
  shows "half_max_times cfg fx =
    (let lc = light_curve cfg fx; time = get_mjd_array cfg;
         above = {t. t < length lc \<and> Max (set lc) / 2 < lc ! t}; k = np_argmax lc
     in if above = {} then (NaN, NaN, NaN)
        else (Fin (time ! k - time ! Min above),
              Fin (time ! Max above - time ! k),
              Fin (time ! Max above - time ! Min above)))"
proof -
  define lc where "lc = light_curve cfg fx"
  define h where "h = Max (set lc) / 2"
  define A where "A = {t. t < length lc \<and> h < lc ! t}"
  have hm: "half_max cfg fx = h"
    using np_max_eq_Max[OF light_curve_nonempty[OF assms], of fx]
    by (simp add: half_max_def h_def lc_def)
  have ab: "above_half cfg fx = map (\<lambda>x. h < x) lc"
    by (simp add: above_half_def hm lc_def)
  have any: "np_any (map (\<lambda>x. h < x) lc) \<longleftrightarrow> A \<noteq> {}"
    unfolding A_def by (rule np_any_map)
  show ?thesis
  proof (cases "A = {}")
    case True
    then have "half_max_times cfg fx = (NaN, NaN, NaN)"
      using any by (simp add: half_max_times_def ab Let_def)
    with True show ?thesis
      unfolding Let_def lc_def[symmetric] h_def[symmetric] A_def[symmetric] by simp
  next
    case False
    have hd: "hd (np_where_true (map (\<lambda>x. h < x) lc)) = Min A"
      and lst: "last (np_where_true (map (\<lambda>x. h < x) lc)) = Max A"
      using np_where_true_hd_last[of lc "\<lambda>x. h < x"] False unfolding A_def by blast+
    have "half_max_times cfg fx =
        (Fin (get_mjd_array cfg ! np_argmax lc - get_mjd_array cfg ! Min A),
         Fin (get_mjd_array cfg ! Max A - get_mjd_array cfg ! np_argmax lc),
         Fin (get_mjd_array cfg ! Max A - get_mjd_array cfg ! Min A))"
      using any False
      by (simp add: half_max_times_def ab Let_def hd lst peak_idx_def lc_def[symmetric])
    with False show ?thesis
      unfolding Let_def lc_def[symmetric] h_def[symmetric] A_def[symmetric] by simp
  qed
qed

lemma scenario_decoded: "decoded scenario_config scenario_event"
  by (simp add: decoded_def has_shape_def scenario_config_def scenario_event_def)

lemma scenario_dims:
  "0 < NUM_WAVELENGTH_BINS scenario_config" "0 < NUM_MJD_BINS scenario_config"
  by (simp_all add: scenario_config_def)

lemma scenario_light_curve:
  "light_curve scenario_config (flux scenario_event) = [0, 0, 0, 10, 0]"
  by code_simp

lemma scenario_half_max_times:
  "half_max_times scenario_config (flux scenario_event) = (Fin 0, Fin 0, Fin 0)"
  by code_simp

subsection \<open>Rise, decline and duration\<close>

text \<open>
  C1. For every decoded record, with \<open>half_max = max(light_curve) / 2\<close> and
  \<open>above = {t. light_curve[t] > half_max}\<close>: if \<open>above\<close> is empty, the rise time, the
  decline time and the duration are all NaN (not zero); otherwise the rise time is
  \<open>time[k] - time[min above]\<close>, the decline time is \<open>time[max above] - time[k]\<close> and the
  duration is \<open>time[max above] - time[min above]\<close>, where \<open>k\<close> is the light-curve peak
  index. The differences are reported as they are, without clamping.
\<close>

theorem rise_decline_duration:
  assumes "decoded cfg d" "0 < NUM_WAVELENGTH_BINS cfg" "0 < NUM_MJD_BINS cfg"
  shows "\<exists>i. extract_summary_statistics cfg d = Inr i \<and>
    (let lc = light_curve cfg (flux d); time = get_mjd_array cfg;
         above = {t. t < length lc \<and> Max (set lc) / 2 < lc ! t}; k = lc_peak_mjd_idx i
     in if above = {}
        then rise_time_days i = NaN \<and> decline_time_days i = NaN \<and> duration_days i = NaN
        else rise_time_days i = Fin (time ! k - time ! Min above) \<and>
             decline_time_days i = Fin (time ! Max above - time ! k) \<and>
             duration_days i = Fin (time ! Max above - time ! Min above))"
proof -
  obtain i where i: "extract_summary_statistics cfg d = Inr i"
    using extract_decoded_total[OF assms] by blast
  define A where "A = {t. t < length (light_curve cfg (flux d)) \<and>
     Max (set (light_curve cfg (flux d))) / 2 < light_curve cfg (flux d) ! t}"
  have hm: "half_max_times cfg (flux d) =
     (if A = {} then (NaN, NaN, NaN)
        else (Fin (get_mjd_array cfg ! lc_peak_mjd_idx i - get_mjd_array cfg ! Min A),
              Fin (get_mjd_array cfg ! Max A - get_mjd_array cfg ! lc_peak_mjd_idx i),
              Fin (get_mjd_array cfg ! Max A - get_mjd_array cfg ! Min A)))"
    using half_max_times_eq[OF assms(3), of "flux d"] extract_Inr(4)[OF i]
    unfolding Let_def A_def by simp
  have "if A = {}
        then rise_time_days i = NaN \<and> decline_time_days i = NaN \<and> duration_days i = NaN
        else rise_time_days i = Fin (get_mjd_array cfg ! lc_peak_mjd_idx i - get_mjd_array cfg ! Min A) \<and>
             decline_time_days i = Fin (get_mjd_array cfg ! Max A - get_mjd_array cfg ! lc_peak_mjd_idx i) \<and>
             duration_days i = Fin (get_mjd_array cfg ! Max A - get_mjd_array cfg ! Min A)"
    using extract_Inr(8,9,10)[OF i] hm by (cases "A = {}") simp_all
  then show ?thesis using i unfolding Let_def A_def by blast
qed

theorem rise_decline_duration_witness:
  "decoded scenario_config scenario_event \<and>
   (\<exists>i. extract_summary_statistics scenario_config scenario_event = Inr i \<and>
      rise_time_days i = Fin 0 \<and> decline_time_days i = Fin 0 \<and> duration_days i = Fin 0 \<and>
      (let lc = light_curve scenario_config (flux scenario_event);
           time = get_mjd_array scenario_config;
           above = {t. t < length lc \<and> Max (set lc) / 2 < lc ! t}; k = lc_peak_mjd_idx i
       in if above = {}
          then rise_time_days i = NaN \<and> decline_time_days i = NaN \<and> duration_days i = NaN
          else rise_time_days i = Fin (time ! k - time ! Min above) \<and>
               decline_time_days i = Fin (time ! Max above - time ! k) \<and>
               duration_days i = Fin (time ! Max above - time ! Min above)))"
proof -
  obtain i where i: "extract_summary_statistics scenario_config scenario_event = Inr i"
    and p: "let lc = light_curve scenario_config (flux scenario_event);
           time = get_mjd_array scenario_config;
           above = {t. t < length lc \<and> Max (set lc) / 2 < lc ! t}; k = lc_peak_mjd_idx i
       in if above = {}
          then rise_time_days i = NaN \<and> decline_time_days i = NaN \<and> duration_days i = NaN
          else rise_time_days i = Fin (time ! k - time ! Min above) \<and>
               decline_time_days i = Fin (time ! Max above - time ! k) \<and>
               duration_days i = Fin (time ! Max above - time ! Min above)"
    using rise_decline_duration[OF scenario_decoded scenario_dims] by blast
  have "rise_time_days i = Fin 0 \<and> decline_time_days i = Fin 0 \<and> duration_days i = Fin 0"
    using extract_Inr(8,9,10)[OF i] by (simp add: scenario_half_max_times)
  with scenario_decoded i p show ?thesis by blast
qed

text \<open>A grid without flux: no bin is above half of the maximum, and the three times are NaN.\<close>

lemma all_zero_flux_times_undefined:
  assumes "0 < NUM_MJD_BINS cfg" "\<forall>x\<in>set (light_curve cfg fx). x = 0"
  shows "half_max_times cfg fx = (NaN, NaN, NaN)"
proof -
  have ne: "light_curve cfg fx \<noteq> []" by (rule light_curve_nonempty[OF assms(1)])
  then have "set (light_curve cfg fx) = {0}" using assms(2) by (cases "light_curve cfg fx") auto
  then have mx: "Max (set (light_curve cfg fx)) = 0" by simp
  have "{t. t < length (light_curve cfg fx) \<and> Max (set (light_curve cfg fx)) / 2 < light_curve cfg fx ! t} = {}"
    using assms(2) nth_mem[of _ "light_curve cfg fx"] by (fastforce simp: mx)
  then show ?thesis
    using half_max_times_eq[OF assms(1), of fx] unfolding Let_def by simp
qed

subsection \<open>The single-entry scenario\<close>

text \<open>
  C5. For \<open>W = 4\<close>, \<open>T = 5\<close>, a flux grid that is zero except for \<open>flux[2,3] = 10\<close> and an
  error grid that is zero everywhere, the reducer returns a row with peak index
  \<open>(2, 3)\<close>; the light curve is \<open>[0, 0, 0, 10, 0]\<close>; the coverage fraction is \<open>1/20\<close>; every
  snr entry is 0 and the snr mean is 0; the half maximum is 5, the only bin above it is
  bin 3, and rise time, decline time and duration are all 0.
\<close>

theorem single_entry_scenario:
  "\<exists>i. extract_summary_statistics scenario_config scenario_event = Inr i \<and>
     peak_flux_wavelength_idx i = 2 \<and> peak_flux_mjd_idx i = 3 \<and>
     light_curve scenario_config (flux scenario_event) = [0, 0, 0, 10, 0] \<and>
     coverage_fraction i = 1 / 20 \<and>
     concat (snr (flux scenario_event) (flux_err scenario_event)) = replicate 20 (Fin 0) \<and>
     snr_mean i = Fin 0 \<and>
     half_max scenario_config (flux scenario_event) = 5 \<and>
     np_where_true (above_half scenario_config (flux scenario_event)) = [3] \<and>
     rise_time_days i = Fin 0 \<and> decline_time_days i = Fin 0 \<and> duration_days i = Fin 0"
proof -
  obtain i where i: "extract_summary_statistics scenario_config scenario_event = Inr i"
    using extract_decoded_total[OF scenario_decoded scenario_dims] by blast
  have pk: "peak_flux_idx scenario_config (flux scenario_event) = (2, 3)"
    by code_simp
  have cov: "real (num_nonzero (flux scenario_event)) / real (np_size (flux scenario_event)) = 1 / 20"
    by (simp add: num_nonzero_def np_size_def scenario_event_def)
  have s: "concat (snr (flux scenario_event) (flux_err scenario_event)) = replicate 20 (Fin 0)"
    by code_simp
  have sm: "snr_mean_of (flux scenario_event) (flux_err scenario_event) = Fin 0"
    by code_simp
  have h: "half_max scenario_config (flux scenario_event) = 5"
    by code_simp
  have ab: "np_where_true (above_half scenario_config (flux scenario_event)) = [3]"
    by code_simp
  have "peak_flux_wavelength_idx i = 2 \<and> peak_flux_mjd_idx i = 3 \<and>
     coverage_fraction i = 1 / 20 \<and> snr_mean i = Fin 0 \<and>
     rise_time_days i = Fin 0 \<and> decline_time_days i = Fin 0 \<and> duration_days i = Fin 0"
    using extract_Inr(2,3,8,9,10,16,20)[OF i]
    by (simp add: pk cov sm scenario_half_max_times)
  with i scenario_light_curve s h ab show ?thesis by blast
qed

subsection \<open>Facts about the decoder\<close>

lemma decode_raw_Inr:
  "decode_raw f64 bs = Inr v \<Longrightarrow> length bs = 8 * length v"
  by (auto simp: decode_raw_def split: if_splits)

lemma tf_reshape_Inr:
  assumes "tf_reshape v (W, T, C) = Inr img"
  shows "length v = W * T * C" "length img = W" "list_all (\<lambda>row. length row = T) img"
  using assms by (auto simp: tf_reshape_def list_all_iff split: if_splits)

lemma channel_shape:
  "length (channel c img) = length img"
  "list_all (\<lambda>row. length row = T) img \<Longrightarrow> list_all (\<lambda>row. length row = T) (channel c img)"
  by (simp_all add: channel_def list_all_iff)

lemma parse_tfrecord_malformed:
  assumes "malformed cfg raw"
  shows "parse_tfrecord f64 cfg raw = Inl InvalidArgumentError"
proof (cases "raw_label raw = None \<or> raw_image_raw raw = None \<or> raw_id raw = None \<or>
              raw_z raw = None \<or> raw_z_err raw = None")
  case True
  then show ?thesis
    by (auto simp: parse_tfrecord_def split: option.splits)
next
  case False
  then obtain lbl bs i z ze where f: "raw_label raw = Some lbl" "raw_image_raw raw = Some bs"
    "raw_id raw = Some i" "raw_z raw = Some z" "raw_z_err raw = Some ze" by auto
  with assms have len: "length bs \<noteq> NUM_WAVELENGTH_BINS cfg * NUM_MJD_BINS cfg * 2 * 8"
    by (simp add: malformed_def)
  show ?thesis
  proof (cases "length bs mod 8 = 0")
    case False
    then show ?thesis by (simp add: parse_tfrecord_def f decode_raw_def)
  next
    case True
    then have "length bs div 8 \<noteq> NUM_WAVELENGTH_BINS cfg * NUM_MJD_BINS cfg * 2"
      using len by auto
    then show ?thesis
      using True by (simp add: parse_tfrecord_def f decode_raw_def tf_reshape_def INPUT_SHAPE_def)
  qed
qed

lemma parse_tfrecord_wellformed:
  assumes "\<not> malformed cfg raw"
  shows "\<exists>d. parse_tfrecord f64 cfg raw = Inr d"
proof -
  from assms obtain lbl bs i z ze where f: "raw_label raw = Some lbl" "raw_image_raw raw = Some bs"
    "raw_id raw = Some i" "raw_z raw = Some z" "raw_z_err raw = Some ze"
    by (auto simp: malformed_def split: option.splits)
  with assms have len: "length bs = NUM_WAVELENGTH_BINS cfg * NUM_MJD_BINS cfg * 2 * 8"
    by (simp add: malformed_def)
  then show ?thesis
    by (simp add: parse_tfrecord_def f decode_raw_def tf_reshape_def INPUT_SHAPE_def)
qed

lemma parse_tfrecord_decoded:
  assumes "parse_tfrecord f64 cfg raw = Inr d"
  shows "decoded cfg d"
proof -
  from assms obtain v img where v: "tf_reshape v (INPUT_SHAPE cfg) = Inr img"
    and d: "flux d = channel 0 img" "flux_err d = channel 1 img"
    by (auto simp: parse_tfrecord_def split: option.splits sum.splits)
  have "length img = NUM_WAVELENGTH_BINS cfg"
    and "list_all (\<lambda>row. length row = NUM_MJD_BINS cfg) img"
    using tf_reshape_Inr(2,3)[of v "NUM_WAVELENGTH_BINS cfg" "NUM_MJD_BINS cfg" 2 img] v
    by (simp_all add: INPUT_SHAPE_def)
  then show ?thesis
    by (simp add: decoded_def has_shape_def d channel_shape)
qed

text \<open>Every grid entry is the decoding of its own eight bytes of the payload.\<close>

lemma parse_tfrecord_entries:
  assumes "parse_tfrecord f64 cfg raw = Inr d"
    and "w < NUM_WAVELENGTH_BINS cfg" "t < NUM_MJD_BINS cfg"
  shows "\<exists>bs. raw_image_raw raw = Some bs \<and>
           length bs = NUM_WAVELENGTH_BINS cfg * NUM_MJD_BINS cfg * 2 * 8 \<and>
           flux d ! w ! t = f64 (take 8 (drop (8 * ((w * NUM_MJD_BINS cfg + t) * 2)) bs)) \<and>
           flux_err d ! w ! t = f64 (take 8 (drop (8 * ((w * NUM_MJD_BINS cfg + t) * 2 + 1)) bs))"
proof -
  have nm: "\<not> malformed cfg raw"
    using parse_tfrecord_malformed[of cfg raw f64] assms(1) by auto
  then obtain lbl bs i z ze where f: "raw_label raw = Some lbl" "raw_image_raw raw = Some bs"
    "raw_id raw = Some i" "raw_z raw = Some z" "raw_z_err raw = Some ze"
    by (auto simp: malformed_def split: option.splits)
  with nm have len: "length bs = NUM_WAVELENGTH_BINS cfg * NUM_MJD_BINS cfg * 2 * 8"
    by (simp add: malformed_def)
  have idx: "(w * NUM_MJD_BINS cfg + t) * 2 + 1 < NUM_WAVELENGTH_BINS cfg * NUM_MJD_BINS cfg * 2"
  proof -
    have "w * NUM_MJD_BINS cfg + t < Suc w * NUM_MJD_BINS cfg" using assms(3) by simp
    also have "\<dots> \<le> NUM_WAVELENGTH_BINS cfg * NUM_MJD_BINS cfg"
      using assms(2) by (intro mult_le_mono1) simp
    finally show ?thesis by simp
  qed
  define v where "v = map (\<lambda>i. f64 (take 8 (drop (8 * i) bs))) [0..<length bs div 8]"
  have lv: "length v = NUM_WAVELENGTH_BINS cfg * NUM_MJD_BINS cfg * 2"
    by (simp add: v_def len)
  have dv: "decode_raw f64 bs = Inr v"
    by (simp add: decode_raw_def v_def len)
  have vk: "v ! k = f64 (take 8 (drop (8 * k) bs))" if "k < length v" for k
    using that by (simp add: v_def)
  have d: "d = \<lparr> ev_id = i, ev_label = lbl, ev_z = z, ev_z_err = ze,
       flux = channel 0 (map (\<lambda>w. map (\<lambda>t. map (\<lambda>c. v ! ((w * NUM_MJD_BINS cfg + t) * 2 + c)) [0..<2])
                 [0..<NUM_MJD_BINS cfg]) [0..<NUM_WAVELENGTH_BINS cfg]),
       flux_err = channel 1 (map (\<lambda>w. map (\<lambda>t. map (\<lambda>c. v ! ((w * NUM_MJD_BINS cfg + t) * 2 + c)) [0..<2])
                 [0..<NUM_MJD_BINS cfg]) [0..<NUM_WAVELENGTH_BINS cfg]) \<rparr>"
    using assms(1) by (simp add: parse_tfrecord_def f dv tf_reshape_def INPUT_SHAPE_def lv)
  have "flux d ! w ! t = v ! ((w * NUM_MJD_BINS cfg + t) * 2)"
    and "flux_err d ! w ! t = v ! ((w * NUM_MJD_BINS cfg + t) * 2 + 1)"
    using assms(2,3) by (simp_all add: d channel_def)
  moreover have "(w * NUM_MJD_BINS cfg + t) * 2 < length v"
    and "(w * NUM_MJD_BINS cfg + t) * 2 + 1 < length v"
    using idx lv by simp_all
  ultimately
  have "flux d ! w ! t = f64 (take 8 (drop (8 * ((w * NUM_MJD_BINS cfg + t) * 2)) bs))"
    and "flux_err d ! w ! t = f64 (take 8 (drop (8 * ((w * NUM_MJD_BINS cfg + t) * 2 + 1)) bs))"
    using vk by simp_all
  with f(2) len show ?thesis by blast
qed

subsection \<open>Facts about the driver\<close>

lemma get_mjd_array_nonempty: "0 < NUM_MJD_BINS cfg \<Longrightarrow> get_mjd_array cfg \<noteq> []"
  using length_get_mjd_array[of cfg] by auto

text \<open>A record that the reducer accepts is accepted by the spectrum projection too.\<close>

lemma reduce_record_Inr:
  assumes "reduce_record f64 cfg raw = Inr row"
  shows "\<exists>d sp. parse_tfrecord f64 cfg raw = Inr d \<and> extract_summary_statistics cfg d = Inr row \<and>
           lightcurve_of f64 cfg raw = Inr (extract_lightcurve cfg d) \<and>
           extract_spectrum cfg d = Inr sp \<and> spectrum_of f64 cfg raw = Inr sp"
proof -
  from assms obtain d where d: "parse_tfrecord f64 cfg raw = Inr d"
    and r: "extract_summary_statistics cfg d = Inr row"
    by (auto simp: reduce_record_def split: sum.splits)
  have "0 < NUM_MJD_BINS cfg"
    using decoded_dims(2)[OF parse_tfrecord_decoded[OF d] extract_Inr(1)[OF r]] .
  then have "get_mjd_array cfg \<noteq> []" by (rule get_mjd_array_nonempty)
  then obtain sp where sp: "extract_spectrum cfg d = Inr sp"
    by (simp add: extract_spectrum_def Let_def)
  show ?thesis using d r sp by (simp add: lightcurve_of_def spectrum_of_def)
qed

lemma process_record_ok:
  assumes "reduce_record f64 cfg raw = Inr row"
  shows "process_record f64 cfg fl fs raw acc =
     Inr \<lparr> summary_data = summary_data acc @ [row],
           lightcurve_data = (if fl then Some (the (lightcurve_data acc) @ [projr (lightcurve_of f64 cfg raw)])
                              else lightcurve_data acc),
           spectrum_data = (if fs then Some (the (spectrum_data acc) @ [projr (spectrum_of f64 cfg raw)])
                            else spectrum_data acc) \<rparr>"
proof -
  obtain d sp where "parse_tfrecord f64 cfg raw = Inr d" "extract_summary_statistics cfg d = Inr row"
    "lightcurve_of f64 cfg raw = Inr (extract_lightcurve cfg d)"
    "extract_spectrum cfg d = Inr sp" "spectrum_of f64 cfg raw = Inr sp"
    using reduce_record_Inr[OF assms] by blast
  then show ?thesis by (simp add: process_record_def Let_def)
qed

lemma process_record_fails:
  assumes "reduce_record f64 cfg raw = Inl e"
  shows "process_record f64 cfg fl fs raw acc = Inl e"
  using assms by (auto simp: process_record_def reduce_record_def split: sum.splits)

lemma process_loop_ok:
  assumes "\<forall>raw\<in>set ds. \<exists>row. reduce_record f64 cfg raw = Inr row"
    and "fl \<Longrightarrow> lightcurve_data acc \<noteq> None" "fs \<Longrightarrow> spectrum_data acc \<noteq> None"
  shows "process_loop f64 cfg fl fs ds acc =
     Inr \<lparr> summary_data = summary_data acc @ map (\<lambda>raw. projr (reduce_record f64 cfg raw)) ds,
           lightcurve_data = (if fl then Some (the (lightcurve_data acc)
                                 @ map (\<lambda>raw. projr (lightcurve_of f64 cfg raw)) ds)
                              else lightcurve_data acc),
           spectrum_data = (if fs then Some (the (spectrum_data acc)
                                 @ map (\<lambda>raw. projr (spectrum_of f64 cfg raw)) ds)
                            else spectrum_data acc) \<rparr>"
  using assms
proof (induction ds arbitrary: acc)
  case Nil
  then show ?case by (cases fl; cases fs) auto
next
  case (Cons raw ds)
  then obtain row where row: "reduce_record f64 cfg raw = Inr row" by auto
  have rest: "\<forall>raw\<in>set ds. \<exists>row. reduce_record f64 cfg raw = Inr row" using Cons.prems by simp
  define acc' where "acc' = \<lparr> summary_data = summary_data acc @ [row],
           lightcurve_data = (if fl then Some (the (lightcurve_data acc) @ [projr (lightcurve_of f64 cfg raw)])
                              else lightcurve_data acc),
           spectrum_data = (if fs then Some (the (spectrum_data acc) @ [projr (spectrum_of f64 cfg raw)])
                            else spectrum_data acc) \<rparr>"
  have step: "process_record f64 cfg fl fs raw acc = Inr acc'"
    unfolding acc'_def by (rule process_record_ok[OF row])
  have a: "fl \<Longrightarrow> lightcurve_data acc' \<noteq> None" and b: "fs \<Longrightarrow> spectrum_data acc' \<noteq> None"
    by (simp_all add: acc'_def)
  have "process_loop f64 cfg fl fs (raw # ds) acc = process_loop f64 cfg fl fs ds acc'"
    by (simp add: step)
  also note Cons.IH[OF rest a b]
  finally show ?case by (simp add: acc'_def row)
qed

text \<open>A record that fails anywhere in the iterated dataset makes the loop fail.\<close>

lemma process_loop_fails:
  assumes "raw \<in> set ds" "reduce_record f64 cfg raw = Inl e"
  shows "\<exists>e'. process_loop f64 cfg fl fs ds acc = Inl e'"
  using assms(1)
proof (induction ds arbitrary: acc)
  case Nil
  then show ?case by simp
next
  case (Cons r ds)
  show ?case
  proof (cases "process_record f64 cfg fl fs r acc")
    case (Inl e')
    then show ?thesis by simp
  next
    case (Inr acc')
    then have "r \<noteq> raw" using process_record_fails[OF assms(2), of fl fs acc] by auto
    then have "raw \<in> set ds" using Cons.prems by simp
    then show ?thesis using Cons.IH Inr by simp
  qed
qed

lemma process_tfrecord_ok:
  assumes "\<forall>raw\<in>set (limited limit ds). \<exists>row. reduce_record f64 cfg raw = Inr row"
  shows "process_tfrecord f64 cfg ds fl fs limit =
     Inr \<lparr> summary_csv = map (\<lambda>raw. projr (reduce_record f64 cfg raw)) (limited limit ds),
           lightcurves_csv = (if fl \<and> limited limit ds \<noteq> []
                              then Some (map (\<lambda>raw. projr (lightcurve_of f64 cfg raw)) (limited limit ds))
                              else None),
           spectra_csv = (if fs \<and> limited limit ds \<noteq> []
                          then Some (map (\<lambda>raw. projr (spectrum_of f64 cfg raw)) (limited limit ds))
                          else None) \<rparr>"
proof -
  let ?init = "\<lparr> summary_data = [], lightcurve_data = (if fl then Some [] else None),
        spectrum_data = (if fs then Some [] else None) \<rparr>"
  have "process_loop f64 cfg fl fs (limited limit ds) ?init =
     Inr \<lparr> summary_data = summary_data ?init @ map (\<lambda>raw. projr (reduce_record f64 cfg raw)) (limited limit ds),
           lightcurve_data = (if fl then Some (the (lightcurve_data ?init)
                                 @ map (\<lambda>raw. projr (lightcurve_of f64 cfg raw)) (limited limit ds))
                              else lightcurve_data ?init),
           spectrum_data = (if fs then Some (the (spectrum_data ?init)
                                 @ map (\<lambda>raw. projr (spectrum_of f64 cfg raw)) (limited limit ds))
                            else spectrum_data ?init) \<rparr>"
    by (rule process_loop_ok[OF assms]) simp_all
  then show ?thesis by (simp add: process_tfrecord_def Let_def)
qed

lemma process_tfrecord_fails:
  assumes "raw \<in> set (limited limit ds)" "reduce_record f64 cfg raw = Inl e"
  shows "\<exists>e'. process_tfrecord f64 cfg ds fl fs limit = Inl e'"
proof -
  obtain e' where "process_loop f64 cfg fl fs (limited limit ds)
      \<lparr> summary_data = [], lightcurve_data = (if fl then Some [] else None),
        spectrum_data = (if fs then Some [] else None) \<rparr> = Inl e'"
    using process_loop_fails[OF assms] by blast
  then show ?thesis by (simp add: process_tfrecord_def Let_def)
qed

lemma map_Inr_projr:
  assumes "\<forall>x\<in>set xs. \<exists>y. f x = Inr y"
  shows "map Inr (map (\<lambda>x. projr (f x)) xs) = map f xs"
  using assms by (induction xs) auto

lemma limited_no_cap: "limit = None \<or> limit = Some 0 \<Longrightarrow> limited limit ds = ds"
  by (auto simp: limited_def truthy_def)

lemma limited_cap: "0 < n \<Longrightarrow> limited (Some (int n)) ds = take n ds"
  by (simp add: limited_def truthy_def tf_take_def)

lemma good_raw_parses:
  "parse_tfrecord first_byte_f64 single_bin_config (good_raw n) =
     Inr \<lparr> ev_id = n, ev_label = 1, ev_z = 0, ev_z_err = 0, flux = [[7]], flux_err = [[2]] \<rparr>"
  by (simp add: parse_tfrecord_def good_raw_def decode_raw_def tf_reshape_def INPUT_SHAPE_def
     single_bin_config_def channel_def first_byte_f64_def)

lemma good_raw_reduces:
  "\<exists>row. reduce_record first_byte_f64 single_bin_config (good_raw n) = Inr row"
  using extract_total[of "\<lparr> ev_id = n, ev_label = 1, ev_z = 0, ev_z_err = 0,
      flux = [[7]], flux_err = [[2]] \<rparr>" single_bin_config]
  by (simp add: reduce_record_def good_raw_parses np_size_def)

lemma short_raw_malformed: "malformed single_bin_config short_raw"
  by (simp add: malformed_def short_raw_def single_bin_config_def)

lemma incomplete_raw_malformed: "malformed single_bin_config incomplete_raw"
  by (simp add: malformed_def incomplete_raw_def)

subsection \<open>The record-count cap\<close>

text \<open>
  C9. A cap of \<open>0\<close>, like no cap at all (\<^verbatim>\<open>None\<close>), leaves the source as it is: if every
  record of the source decodes and reduces, the driver returns one summary row per
  record of the source, in source order, so a cap of zero does not give zero rows.
\<close>

theorem cap_zero_is_no_cap:
  assumes "limit = None \<or> limit = Some 0"
    and "\<forall>raw\<in>set ds. \<exists>row. reduce_record f64 cfg raw = Inr row"
  shows "\<exists>out. process_tfrecord f64 cfg ds fl fs limit = Inr out \<and>
           map Inr (summary_csv out) = map (reduce_record f64 cfg) ds \<and>
           length (summary_csv out) = length ds"
proof -
  have l: "limited limit ds = ds" by (rule limited_no_cap[OF assms(1)])
  have ok: "\<forall>raw\<in>set (limited limit ds). \<exists>row. reduce_record f64 cfg raw = Inr row"
    using assms(2) l by simp
  show ?thesis
    using process_tfrecord_ok[OF ok, of fl fs] map_Inr_projr[OF assms(2)] l by simp
qed

theorem cap_zero_is_no_cap_witness:
  "(\<exists>row. reduce_record first_byte_f64 single_bin_config (good_raw 1) = Inr row) \<and>
   (\<exists>row. reduce_record first_byte_f64 single_bin_config (good_raw 2) = Inr row) \<and>
   (\<exists>out. process_tfrecord first_byte_f64 single_bin_config [good_raw 1, good_raw 2]
             False False (Some 0) = Inr out \<and>
        map Inr (summary_csv out)
          = map (reduce_record first_byte_f64 single_bin_config) [good_raw 1, good_raw 2] \<and>
        length (summary_csv out) = length [good_raw 1, good_raw 2])"
proof -
  have h: "\<forall>raw\<in>set [good_raw 1, good_raw 2].
      \<exists>row. reduce_record first_byte_f64 single_bin_config raw = Inr row"
    using good_raw_reduces by simp
  have z: "Some 0 = None \<or> Some (0::int) = Some 0" by simp
  show ?thesis
    using cap_zero_is_no_cap[OF z h, of False False] good_raw_reduces by blast
qed

text \<open>
  C7, as stated, fails for the cap \<open>N = 0\<close>: on a source of one record the driver gives
  one summary row, not zero.
\<close>

theorem cap_rows_counterexample:
  "\<not> isl (process_tfrecord first_byte_f64 single_bin_config [good_raw 1] False False (Some 0)) \<and>
   length (summary_csv (projr
     (process_tfrecord first_byte_f64 single_bin_config [good_raw 1] False False (Some 0)))) = 1 \<and>
   length [good_raw 1] > 0"
proof -
  have l: "limited (Some 0) [good_raw 1] = [good_raw 1]"
    by (simp add: limited_no_cap)
  have ok: "\<forall>raw\<in>set (limited (Some 0) [good_raw 1]).
      \<exists>row. reduce_record first_byte_f64 single_bin_config raw = Inr row"
    using good_raw_reduces by (simp add: l)
  show ?thesis
    by (simp add: process_tfrecord_ok[OF ok] l)
qed

text \<open>
  C7, amended. For every cap \<open>N \<ge> 1\<close> and every source of more than \<open>N\<close> records whose
  first \<open>N\<close> records decode and reduce, the driver returns exactly \<open>N\<close> summary rows, those
  of the first \<open>N\<close> records in source order, and, when the light-curve or the spectrum
  table is requested, exactly \<open>N\<close> rows of it, in the same order.
\<close>

theorem cap_rows:
  assumes "1 \<le> N" "N < length ds"
    and "\<forall>raw\<in>set (take N ds). \<exists>row. reduce_record f64 cfg raw = Inr row"
  shows "\<exists>out. process_tfrecord f64 cfg ds fl fs (Some (int N)) = Inr out \<and>
           length (summary_csv out) = N \<and>
           map Inr (summary_csv out) = map (reduce_record f64 cfg) (take N ds) \<and>
           (fl \<longrightarrow> (\<exists>rows. lightcurves_csv out = Some rows \<and> length rows = N \<and>
                     map Inr rows = map (lightcurve_of f64 cfg) (take N ds))) \<and>
           (fs \<longrightarrow> (\<exists>rows. spectra_csv out = Some rows \<and> length rows = N \<and>
                     map Inr rows = map (spectrum_of f64 cfg) (take N ds)))"
proof -
  have l: "limited (Some (int N)) ds = take N ds" using assms(1) by (simp add: limited_cap)
  have ok: "\<forall>raw\<in>set (limited (Some (int N)) ds). \<exists>row. reduce_record f64 cfg raw = Inr row"
    using assms(3) l by simp
  have len: "length (take N ds) = N" using assms(2) by simp
  have ne: "take N ds \<noteq> []" using assms(1) len by auto
  have lc: "\<forall>raw\<in>set (take N ds). \<exists>y. lightcurve_of f64 cfg raw = Inr y"
    using assms(3) reduce_record_Inr by blast
  have sp: "\<forall>raw\<in>set (take N ds). \<exists>y. spectrum_of f64 cfg raw = Inr y"
    using assms(3) reduce_record_Inr by blast
  show ?thesis
    using process_tfrecord_ok[OF ok, of fl fs] map_Inr_projr[OF assms(3)]
      map_Inr_projr[OF lc] map_Inr_projr[OF sp] len ne
    by (simp add: l)
qed

theorem cap_rows_witness:
  "(1::nat) \<le> 2 \<and> 2 < length [good_raw 1, good_raw 2, short_raw] \<and>
   take 2 [good_raw 1, good_raw 2, short_raw] = [good_raw 1, good_raw 2] \<and>
   (\<exists>row. reduce_record first_byte_f64 single_bin_config (good_raw 1) = Inr row) \<and>
   (\<exists>row. reduce_record first_byte_f64 single_bin_config (good_raw 2) = Inr row) \<and>
   (\<exists>out. process_tfrecord first_byte_f64 single_bin_config [good_raw 1, good_raw 2, short_raw]
             True True (Some 2) = Inr out \<and>
        length (summary_csv out) = 2 \<and>
        (\<exists>rows. lightcurves_csv out = Some rows \<and> length rows = 2) \<and>
        (\<exists>rows. spectra_csv out = Some rows \<and> length rows = 2))"
proof -
  have a: "(1::nat) \<le> 2" by simp
  have b: "2 < length [good_raw 1, good_raw 2, short_raw]" by simp
  have c: "\<forall>raw\<in>set (take 2 [good_raw 1, good_raw 2, short_raw]).
      \<exists>row. reduce_record first_byte_f64 single_bin_config raw = Inr row"
    using good_raw_reduces by (simp add: numeral_2_eq_2)
  have i: "Some (int 2) = Some 2" by simp
  have t: "take 2 [good_raw 1, good_raw 2, short_raw] = [good_raw 1, good_raw 2]"
    by (simp add: numeral_2_eq_2)
  show ?thesis
    using cap_rows[OF a b c, of True True] a b t good_raw_reduces unfolding i by blast
qed

lemma reduce_record_malformed:
  "malformed cfg raw \<Longrightarrow> reduce_record f64 cfg raw = Inl InvalidArgumentError"
  by (simp add: reduce_record_def parse_tfrecord_malformed)

subsection \<open>Malformed records\<close>

text \<open>
  C6. A record with a missing required feature, or with a payload whose length is not
  \<open>W * T * 2 * 8\<close> bytes, makes the decoder raise; nothing is truncated, padded or
  coerced, since the decoder returns a record only for a payload of exactly that length.
  If such a record is among the records the driver iterates over, the run ends in
  that error and gives no table at all: the record is not skipped, and no row is
  written for it.
\<close>

theorem malformed_record_is_fatal:
  assumes "malformed cfg raw"
  shows "parse_tfrecord f64 cfg raw = Inl InvalidArgumentError \<and>
    (\<forall>ds limit fl fs. raw \<in> set (limited limit ds) \<longrightarrow>
       (\<exists>e. process_tfrecord f64 cfg ds fl fs limit = Inl e))"
  using parse_tfrecord_malformed[OF assms] process_tfrecord_fails[OF _ reduce_record_malformed[OF assms]]
  by blast

theorem malformed_record_is_fatal_witness:
  "malformed single_bin_config short_raw \<and>
   short_raw \<in> set (limited None [good_raw 1, short_raw, good_raw 2]) \<and>
   parse_tfrecord first_byte_f64 single_bin_config short_raw = Inl InvalidArgumentError \<and>
   (\<exists>e. process_tfrecord first_byte_f64 single_bin_config [good_raw 1, short_raw, good_raw 2]
           True True None = Inl e)"
proof -
  have m: "short_raw \<in> set (limited None [good_raw 1, short_raw, good_raw 2])"
    by (simp add: limited_no_cap)
  show ?thesis
    using malformed_record_is_fatal[OF short_raw_malformed, of first_byte_f64] m short_raw_malformed
    by blast
qed

text \<open>The same for a record that lacks a feature.\<close>

lemma incomplete_record_is_fatal:
  "parse_tfrecord first_byte_f64 single_bin_config incomplete_raw = Inl InvalidArgumentError"
  by (rule parse_tfrecord_malformed[OF incomplete_raw_malformed])

text \<open>
  Conversely the decoder accepts every record that is not malformed, and what it
  returns has the configured shape, each entry decoded from its own eight bytes
  (\<open>parse_tfrecord_entries\<close>).
\<close>

lemma parse_tfrecord_Inr_iff:
  "(\<exists>d. parse_tfrecord f64 cfg raw = Inr d) \<longleftrightarrow> \<not> malformed cfg raw"
  using parse_tfrecord_malformed[of cfg raw f64] parse_tfrecord_wellformed[of cfg raw f64]
  by auto

subsection \<open>Facts about the colour bands\<close>

lemma zip_as_map_upt:
  "length xs = length ys \<Longrightarrow> zip xs ys = map (\<lambda>i. (xs ! i, ys ! i)) [0..<length xs]"
  by (rule nth_equalityI) simp_all

lemma select_rows_indices:
  assumes "length wl = length g"
  shows "select_rows (map P wl) g = map (\<lambda>w. g ! w) (filter (\<lambda>w. P (wl ! w)) [0..<length g])"
proof -
  have "zip (map P wl) g = map (\<lambda>i. (map P wl ! i, g ! i)) [0..<length g]"
    using zip_as_map_upt[of "map P wl" g] assms by simp
  then have "select_rows (map P wl) g
      = map (\<lambda>w. g ! w) (filter (\<lambda>i. map P wl ! i) [0..<length g])"
    by (simp add: select_rows_def filter_map comp_def)
  also have "filter (\<lambda>i. map P wl ! i) [0..<length g] = filter (\<lambda>w. P (wl ! w)) [0..<length g]"
    using assms by (intro filter_cong) simp_all
  finally show ?thesis .
qed

lemma map2_times_upt:
  "length xs = n \<Longrightarrow> map2 (*) xs (map f [0..<n]) = map (\<lambda>t. xs ! t * f t) [0..<n]"
  by (rule nth_equalityI) simp_all

lemma band_flux_eq:
  assumes "has_shape cfg fx"
  shows "band_flux cfg (map P (get_wavelength_array cfg)) fx =
    sum_list (map (\<lambda>t. light_curve cfg fx ! t *
                 sum_list (map (\<lambda>w. fx ! w ! t)
                   (filter (\<lambda>w. P (get_wavelength_array cfg ! w)) [0..<NUM_WAVELENGTH_BINS cfg])))
              [0..<NUM_MJD_BINS cfg])"
proof -
  have len: "length (get_wavelength_array cfg) = length fx"
    using assms by (simp add: has_shape_def length_get_wavelength_array)
  have W: "length fx = NUM_WAVELENGTH_BINS cfg" using assms by (simp add: has_shape_def)
  have "sum_axis0 (NUM_MJD_BINS cfg) (select_rows (map P (get_wavelength_array cfg)) fx) =
      map (\<lambda>t. sum_list (map (\<lambda>w. fx ! w ! t)
             (filter (\<lambda>w. P (get_wavelength_array cfg ! w)) [0..<NUM_WAVELENGTH_BINS cfg])))
          [0..<NUM_MJD_BINS cfg]"
    by (simp add: select_rows_indices[OF len] sum_axis0_def np_sum_def comp_def W)
  then show ?thesis
    by (simp add: band_flux_def np_sum_def map2_times_upt[OF length_light_curve])
qed

lemma band_any:
  "np_any (map P (get_wavelength_array cfg)) \<longleftrightarrow>
     filter (\<lambda>w. P (get_wavelength_array cfg ! w)) [0..<NUM_WAVELENGTH_BINS cfg] \<noteq> []"
proof -
  have "np_any (map P (get_wavelength_array cfg)) \<longleftrightarrow>
      (\<exists>w<NUM_WAVELENGTH_BINS cfg. P (get_wavelength_array cfg ! w))"
    using np_any_map[of P "get_wavelength_array cfg"]
    by (auto simp: length_get_wavelength_array)
  then show ?thesis by (auto simp: filter_empty_conv)
qed

lemma colour_fields_eq:
  assumes "has_shape cfg fx"
  shows "colour_fields cfg fx =
    (let wl = get_wavelength_array cfg; lc = light_curve cfg fx;
         B = filter (\<lambda>w. 3000 \<le> wl ! w \<and> wl ! w \<le> 5000) [0..<NUM_WAVELENGTH_BINS cfg];
         R = filter (\<lambda>w. 6000 \<le> wl ! w \<and> wl ! w \<le> 10000) [0..<NUM_WAVELENGTH_BINS cfg];
         total = (\<lambda>band. sum_list (map (\<lambda>t. lc ! t * sum_list (map (\<lambda>w. fx ! w ! t) band))
                                   [0..<NUM_MJD_BINS cfg]))
     in if B \<noteq> [] \<and> R \<noteq> []
        then (Fin (total B), Fin (total R),
              if 0 < total R then Fin (total B / total R) else NaN)
        else (NaN, NaN, NaN))"
  unfolding colour_fields_def blue_idx_def red_idx_def
  by (simp add: band_flux_eq[OF assms] band_any Let_def)

subsection \<open>Colour bands\<close>

text \<open>
  C4. For every decoded record: let \<open>B\<close> be the wavelength bins whose axis value lies in
  \<open>[3000, 5000]\<close> and \<open>R\<close> those in \<open>[6000, 10000]\<close>, and let the total of a band be the sum
  over time bins of the light curve times the flux summed over the band's wavelength
  bins. If both bands have a member, \<open>blue_flux\<close> and \<open>red_flux\<close> are the two totals and
  \<open>color_ratio\<close> is their quotient when the red total is positive and NaN otherwise; if
  a band has no member, all three fields are NaN.
\<close>

theorem colour_bands:
  assumes "decoded cfg d" "0 < NUM_WAVELENGTH_BINS cfg" "0 < NUM_MJD_BINS cfg"
  shows "\<exists>i. extract_summary_statistics cfg d = Inr i \<and>
    (let wl = get_wavelength_array cfg; lc = light_curve cfg (flux d);
         B = filter (\<lambda>w. 3000 \<le> wl ! w \<and> wl ! w \<le> 5000) [0..<NUM_WAVELENGTH_BINS cfg];
         R = filter (\<lambda>w. 6000 \<le> wl ! w \<and> wl ! w \<le> 10000) [0..<NUM_WAVELENGTH_BINS cfg];
         total = (\<lambda>band. sum_list (map (\<lambda>t. lc ! t * sum_list (map (\<lambda>w. flux d ! w ! t) band))
                                   [0..<NUM_MJD_BINS cfg]))
     in if B \<noteq> [] \<and> R \<noteq> []
        then blue_flux i = Fin (total B) \<and> red_flux i = Fin (total R) \<and>
             color_ratio i = (if 0 < total R then Fin (total B / total R) else NaN)
        else blue_flux i = NaN \<and> red_flux i = NaN \<and> color_ratio i = NaN)"
proof -
  obtain i where i: "extract_summary_statistics cfg d = Inr i"
    using extract_decoded_total[OF assms] by blast
  have c: "colour_fields cfg (flux d) = (blue_flux i, red_flux i, color_ratio i)"
    using extract_Inr(13,14,15)[OF i] by (simp add: prod_eq_iff)
  show ?thesis
    using i colour_fields_eq[OF decoded_flux_shape[OF assms(1)]]
    unfolding c Let_def by (auto split: if_splits)
qed

lemma scenario_colour_fields:
  "colour_fields scenario_config (flux scenario_event) = (Fin 0, Fin 100, Fin 0)"
  by code_simp

theorem colour_bands_witness:
  "decoded scenario_config scenario_event \<and>
   (\<exists>i. extract_summary_statistics scenario_config scenario_event = Inr i \<and>
      blue_flux i = Fin 0 \<and> red_flux i = Fin 100 \<and> color_ratio i = Fin 0 \<and>
      (let wl = get_wavelength_array scenario_config;
           lc = light_curve scenario_config (flux scenario_event);
           B = filter (\<lambda>w. 3000 \<le> wl ! w \<and> wl ! w \<le> 5000) [0..<NUM_WAVELENGTH_BINS scenario_config];
           R = filter (\<lambda>w. 6000 \<le> wl ! w \<and> wl ! w \<le> 10000) [0..<NUM_WAVELENGTH_BINS scenario_config];
           total = (\<lambda>band. sum_list (map (\<lambda>t. lc ! t * sum_list (map (\<lambda>w. flux scenario_event ! w ! t) band))
                                   [0..<NUM_MJD_BINS scenario_config]))
       in if B \<noteq> [] \<and> R \<noteq> []
          then blue_flux i = Fin (total B) \<and> red_flux i = Fin (total R) \<and>
               color_ratio i = (if 0 < total R then Fin (total B / total R) else NaN)
          else blue_flux i = NaN \<and> red_flux i = NaN \<and> color_ratio i = NaN))"
proof -
  obtain i where i: "extract_summary_statistics scenario_config scenario_event = Inr i"
    and p: "let wl = get_wavelength_array scenario_config;
           lc = light_curve scenario_config (flux scenario_event);
           B = filter (\<lambda>w. 3000 \<le> wl ! w \<and> wl ! w \<le> 5000) [0..<NUM_WAVELENGTH_BINS scenario_config];
           R = filter (\<lambda>w. 6000 \<le> wl ! w \<and> wl ! w \<le> 10000) [0..<NUM_WAVELENGTH_BINS scenario_config];
           total = (\<lambda>band. sum_list (map (\<lambda>t. lc ! t * sum_list (map (\<lambda>w. flux scenario_event ! w ! t) band))
                                   [0..<NUM_MJD_BINS scenario_config]))
       in if B \<noteq> [] \<and> R \<noteq> []
          then blue_flux i = Fin (total B) \<and> red_flux i = Fin (total R) \<and>
               color_ratio i = (if 0 < total R then Fin (total B / total R) else NaN)
          else blue_flux i = NaN \<and> red_flux i = NaN \<and> color_ratio i = NaN"
    using colour_bands[OF scenario_decoded scenario_dims] by blast
  have "blue_flux i = Fin 0 \<and> red_flux i = Fin 100 \<and> color_ratio i = Fin 0"
    using extract_Inr(13,14,15)[OF i] by (simp add: scenario_colour_fields)
  with scenario_decoded i p show ?thesis by blast
qed

text \<open>Axes outside both bands: the three colour fields are NaN.\<close>

lemma offband_colour_undefined:
  "colour_fields offband_config (flux scenario_event) = (NaN, NaN, NaN)"
  by code_simp

subsection \<open>Facts about the spectrum projection\<close>

lemma window_idx: "peak_start_idx window_config = 4 \<and> peak_end_idx window_config = 7"
  by code_simp

lemma np_mean_nonempty: "xs \<noteq> [] \<Longrightarrow> np_mean xs = Fin (sum_list xs / real (length xs))"
  by (simp add: np_mean_def)

lemma np_sqrt_mean_squares:
  "xs \<noteq> [] \<Longrightarrow> np_sqrt (np_mean (map (\<lambda>e. e\<^sup>2) xs))
      = Fin (sqrt (sum_list (map (\<lambda>e. e\<^sup>2) xs) / real (length xs)))"
proof -
  assume ne: "xs \<noteq> []"
  have "0 \<le> sum_list (map (\<lambda>e. e\<^sup>2) xs)" by (rule sum_list_nonneg) auto
  then have "\<not> sum_list (map (\<lambda>e. e\<^sup>2) xs) / real (length xs) < 0"
    by (simp add: not_less)
  then show ?thesis using ne by (simp add: np_mean_def)
qed

lemma length_zip3: "length (zip3 xs ys zs) = min (length xs) (min (length ys) (length zs))"
  by (simp add: zip3_def)

lemma nth_zip3:
  "i < length xs \<Longrightarrow> i < length ys \<Longrightarrow> i < length zs \<Longrightarrow>
   zip3 xs ys zs ! i = (xs ! i, ys ! i, zs ! i)"
  by (simp add: zip3_def)

lemma window_slice_nonempty:
  assumes "length row = NUM_MJD_BINS cfg" "0 < NUM_MJD_BINS cfg"
    and "peak_start_idx cfg < peak_end_idx cfg"
  shows "length (py_slice (peak_start_idx cfg) (peak_end_idx cfg) row)
           = peak_end_idx cfg - peak_start_idx cfg"
    and "py_slice (peak_start_idx cfg) (peak_end_idx cfg) row \<noteq> []"
proof -
  show l: "length (py_slice (peak_start_idx cfg) (peak_end_idx cfg) row)
           = peak_end_idx cfg - peak_start_idx cfg"
    using peak_end_idx_bound[OF assms(2)] assms(1) by (simp add: length_py_slice)
  show "py_slice (peak_start_idx cfg) (peak_end_idx cfg) row \<noteq> []"
    using l assms(3) by auto
qed

subsection \<open>The spectrum projection\<close>

text \<open>
  C8, as stated, fails: on one wavelength bin with the window of bins 4, 5, 6 and the
  errors 1, 1, 1 there, the error column of the projection is 1, the square root of
  the mean of the squares, and not the square root of their sum.
\<close>

theorem spectrum_error_counterexample:
  "\<not> isl (extract_spectrum window_config window_event) \<and>
   peak_start_idx window_config = 4 \<and> peak_end_idx window_config = 7 \<and>
   py_slice 4 7 (flux_err window_event ! 0) = [1, 1, 1] \<and>
   snd (snd (spec_columns (projr (extract_spectrum window_config window_event)) ! 0)) = Fin 1 \<and>
   Fin 1 \<noteq> Fin (sqrt (1\<^sup>2 + 1\<^sup>2 + 1\<^sup>2))"
proof -
  have m: "get_mjd_array window_config \<noteq> []"
    by (rule get_mjd_array_nonempty) (simp add: window_config_def)
  have w: "get_wavelength_array window_config = [3000]"
    by (simp add: get_wavelength_array_def np_linspace_def window_config_def)
  have s: "py_slice 4 7 (flux_err window_event ! 0) = [1, 1, 1]"
    by (simp add: py_slice_def window_event_def)
  have e: "np_sqrt (np_mean (map (\<lambda>e. e\<^sup>2) [1, 1, 1 :: real])) = Fin 1"
    by (simp add: np_mean_def)
  have x: "extract_spectrum window_config window_event =
     Inr \<lparr> spec_snid = 3, spec_columns = [(3000, np_mean (py_slice 4 7 (flux window_event ! 0)), Fin 1)] \<rparr>"
    using m s e by (simp add: extract_spectrum_def Let_def window_idx w zip3_def window_event_def)
  have "sqrt (1\<^sup>2 + 1\<^sup>2 + 1\<^sup>2) \<noteq> 1" by simp
  then show ?thesis using window_idx s by (simp add: x)
qed

text \<open>
  C8, amended. For every decoded record (the peak-phase window non-empty, as it is for
  the axes of the source) the spectrum projection is keyed by the record id and has one
  triple per wavelength bin: the wavelength, the mean of the flux over the time slice
  \<open>[peak_start_idx, peak_end_idx)\<close>, and the square root of the mean of the squared
  \<open>flux_err\<close> values over the same slice.
\<close>

theorem spectrum_projection:
  assumes "decoded cfg d" "0 < NUM_MJD_BINS cfg" "peak_start_idx cfg < peak_end_idx cfg"
  shows "\<exists>row. extract_spectrum cfg d = Inr row \<and> spec_snid row = ev_id d \<and>
    length (spec_columns row) = NUM_WAVELENGTH_BINS cfg \<and>
    (\<forall>w<NUM_WAVELENGTH_BINS cfg.
       spec_columns row ! w =
         (get_wavelength_array cfg ! w,
          Fin (sum_list (py_slice (peak_start_idx cfg) (peak_end_idx cfg) (flux d ! w))
                 / real (peak_end_idx cfg - peak_start_idx cfg)),
          Fin (sqrt (sum_list (map (\<lambda>e. e\<^sup>2)
                       (py_slice (peak_start_idx cfg) (peak_end_idx cfg) (flux_err d ! w)))
                 / real (peak_end_idx cfg - peak_start_idx cfg)))))"
proof -
  define a where "a = peak_start_idx cfg"
  define b where "b = peak_end_idx cfg"
  define row where "row = \<lparr> spec_snid = ev_id d,
     spec_columns = zip3 (get_wavelength_array cfg)
        (map (\<lambda>r. np_mean (py_slice a b r)) (flux d))
        (map (\<lambda>r. np_sqrt (np_mean (map (\<lambda>e. e\<^sup>2) (py_slice a b r)))) (flux_err d)) \<rparr>"
  have x: "extract_spectrum cfg d = Inr row"
    using get_mjd_array_nonempty[OF assms(2)]
    by (simp add: extract_spectrum_def Let_def row_def a_def b_def)
  have lf: "length (flux d) = NUM_WAVELENGTH_BINS cfg"
    and le: "length (flux_err d) = NUM_WAVELENGTH_BINS cfg"
    using assms(1) by (simp_all add: decoded_def has_shape_def)
  have len: "length (spec_columns row) = NUM_WAVELENGTH_BINS cfg"
    by (simp add: row_def length_zip3 lf le length_get_wavelength_array)
  have col: "spec_columns row ! w =
         (get_wavelength_array cfg ! w,
          Fin (sum_list (py_slice a b (flux d ! w)) / real (b - a)),
          Fin (sqrt (sum_list (map (\<lambda>e. e\<^sup>2) (py_slice a b (flux_err d ! w))) / real (b - a))))"
    if w: "w < NUM_WAVELENGTH_BINS cfg" for w
  proof -
    have rf: "length (flux d ! w) = NUM_MJD_BINS cfg"
      using assms(1) w lf by (simp add: decoded_def has_shape_def list_all_length)
    have re: "length (flux_err d ! w) = NUM_MJD_BINS cfg"
      using assms(1) w le by (simp add: decoded_def has_shape_def list_all_length)
    have f: "np_mean (py_slice a b (flux d ! w))
        = Fin (sum_list (py_slice a b (flux d ! w)) / real (b - a))"
      using window_slice_nonempty[OF rf assms(2,3)]
      by (simp add: np_mean_nonempty a_def b_def)
    have e: "np_sqrt (np_mean (map (\<lambda>e. e\<^sup>2) (py_slice a b (flux_err d ! w))))
        = Fin (sqrt (sum_list (map (\<lambda>e. e\<^sup>2) (py_slice a b (flux_err d ! w))) / real (b - a)))"
      using window_slice_nonempty[OF re assms(2,3)]
      by (simp add: np_sqrt_mean_squares a_def b_def)
    show ?thesis
      using w by (simp add: row_def nth_zip3 lf le length_get_wavelength_array f e)
  qed
  have "spec_snid row = ev_id d" by (simp add: row_def)
  with x len col show ?thesis unfolding a_def b_def by blast
qed

lemma window_decoded: "decoded window_config window_event"
  by (simp add: decoded_def has_shape_def window_config_def window_event_def)

theorem spectrum_projection_witness:
  "decoded window_config window_event \<and> 0 < NUM_MJD_BINS window_config \<and>
   peak_start_idx window_config < peak_end_idx window_config \<and>
   (\<exists>row. extract_spectrum window_config window_event = Inr row \<and>
      spec_snid row = ev_id window_event \<and>
      length (spec_columns row) = NUM_WAVELENGTH_BINS window_config \<and>
      spec_columns row ! 0 = (3000, Fin 2, Fin 1))"
proof -
  have T: "0 < NUM_MJD_BINS window_config" by (simp add: window_config_def)
  have win: "peak_start_idx window_config < peak_end_idx window_config"
    using window_idx by simp
  obtain row where x: "extract_spectrum window_config window_event = Inr row"
    and s: "spec_snid row = ev_id window_event"
    and l: "length (spec_columns row) = NUM_WAVELENGTH_BINS window_config"
    and c: "\<forall>w<NUM_WAVELENGTH_BINS window_config.
       spec_columns row ! w =
         (get_wavelength_array window_config ! w,
          Fin (sum_list (py_slice (peak_start_idx window_config) (peak_end_idx window_config)
                 (flux window_event ! w))
                 / real (peak_end_idx window_config - peak_start_idx window_config)),
          Fin (sqrt (sum_list (map (\<lambda>e. e\<^sup>2)
                       (py_slice (peak_start_idx window_config) (peak_end_idx window_config)
                          (flux_err window_event ! w)))
                 / real (peak_end_idx window_config - peak_start_idx window_config))))"
    using spectrum_projection[OF window_decoded T win] by blast
  have w: "get_wavelength_array window_config = [3000]"
    by (simp add: get_wavelength_array_def np_linspace_def window_config_def)
  have "(0::nat) < NUM_WAVELENGTH_BINS window_config" by (simp add: window_config_def)
  with c have "spec_columns row ! 0 =
         (get_wavelength_array window_config ! 0,
          Fin (sum_list (py_slice (peak_start_idx window_config) (peak_end_idx window_config)
                 (flux window_event ! 0))
                 / real (peak_end_idx window_config - peak_start_idx window_config)),
          Fin (sqrt (sum_list (map (\<lambda>e. e\<^sup>2)
                       (py_slice (peak_start_idx window_config) (peak_end_idx window_config)
                          (flux_err window_event ! 0)))
                 / real (peak_end_idx window_config - peak_start_idx window_config))))"
    by blast
  then have "spec_columns row ! 0 = (3000, Fin 2, Fin 1)"
    by (simp add: window_idx w py_slice_def window_event_def)
  with window_decoded T win x s l show ?thesis by blast
qed

subsection \<open>The reductions on arrays of finite floats\<close>

lemma fold_fl_add_Fin:
  "fold (\<lambda>x acc. fl_add acc x) (map Fin xs) (Fin a) = Fin (a + sum_list xs)"
  by (induction xs arbitrary: a) (simp_all add: add.assoc)

lemma np_sum_fl_Fin: "np_sum_fl (map Fin xs) = Fin (sum_list xs)"
  by (simp add: np_sum_fl_def fold_fl_add_Fin)

lemma np_mean_fl_Fin: "np_mean_fl (map Fin xs) = np_mean xs"
  by (simp add: np_mean_fl_def np_sum_fl_Fin np_mean_def)

lemma fl_maximum_Fin: "fl_maximum (Fin a) (Fin b) = Fin (max a b)"
  by (simp add: fl_maximum_def max_def)

lemma fold_fl_maximum_Fin:
  "fold (\<lambda>y acc. fl_maximum acc y) (map Fin xs) (Fin m) = Fin (fold max xs m)"
  by (induction xs arbitrary: m) (simp_all add: fl_maximum_Fin max.commute)

lemma np_max_fl_Fin: "xs \<noteq> [] \<Longrightarrow> np_max_fl (map Fin xs) = Fin (np_max xs)"
  by (cases xs) (simp_all add: fold_fl_maximum_Fin)

lemma fl_insort_Fin: "fl_insort (Fin x) (map Fin ys) = map Fin (insort x ys)"
  by (induction ys) simp_all

lemma fl_sort_Fin: "fl_sort (map Fin xs) = map Fin (sort xs)"
  by (induction xs) (simp_all add: fl_sort_def fl_insort_Fin sort_key_def)

lemma np_median_fl_Fin: "np_median_fl (map Fin xs) = np_median xs"
proof (cases "xs = []")
  case True
  then show ?thesis by (simp add: np_median_fl_def np_median_def)
next
  case False
  define s where "s = sort xs"
  define n where "n = length xs"
  have ls: "length s = n" by (simp add: s_def n_def)
  have n0: "0 < n" using False by (simp add: n_def)
  have nn: "NaN \<notin> set (map Fin xs)" by auto
  have mid: "n div 2 < n" using n0 by simp
  have mid1: "n div 2 - 1 < n" using n0 by simp
  have "np_median_fl (map Fin xs) =
      (if odd n then map Fin s ! (n div 2)
       else fl_div_count (fl_add (map Fin s ! (n div 2 - 1)) (map Fin s ! (n div 2))) 2)"
    using False nn by (simp add: np_median_fl_def Let_def fl_sort_Fin s_def n_def)
  also have "\<dots> = (if odd n then Fin (s ! (n div 2))
       else Fin ((s ! (n div 2 - 1) + s ! (n div 2)) / 2))"
    using mid mid1 ls by simp
  also have "\<dots> = np_median xs"
    using False by (simp add: np_median_def Let_def s_def n_def)
  finally show ?thesis .
qed

subsection \<open>Facts about the signal-to-noise grid\<close>

lemma snr_row_Fin:
  assumes "length xr = length er"
  shows "map2 (\<lambda>e q. np_where (0 < e) q (Fin 0)) er (map2 true_divide xr er)
       = map Fin (map2 (\<lambda>x e. if 0 < e then x / e else 0) xr er)"
proof (rule nth_equalityI)
  show "length (map2 (\<lambda>e q. np_where (0 < e) q (Fin 0)) er (map2 true_divide xr er))
      = length (map Fin (map2 (\<lambda>x e. if 0 < e then x / e else 0) xr er))"
    using assms by simp
next
  fix i assume "i < length (map2 (\<lambda>e q. np_where (0 < e) q (Fin 0)) er (map2 true_divide xr er))"
  then have i: "i < length xr" "i < length er" using assms by simp_all
  then show "map2 (\<lambda>e q. np_where (0 < e) q (Fin 0)) er (map2 true_divide xr er) ! i
      = map Fin (map2 (\<lambda>x e. if 0 < e then x / e else 0) xr er) ! i"
    by (simp add: np_where_def true_divide_def)
qed

lemma snr_Fin:
  assumes "has_shape cfg fx" "has_shape cfg fe"
  shows "snr fx fe = map (map Fin) (map2 (map2 (\<lambda>x e. if 0 < e then x / e else 0)) fx fe)"
proof (rule nth_equalityI)
  have lx: "length fx = NUM_WAVELENGTH_BINS cfg" and le: "length fe = NUM_WAVELENGTH_BINS cfg"
    using assms by (simp_all add: has_shape_def)
  show "length (snr fx fe)
      = length (map (map Fin) (map2 (map2 (\<lambda>x e. if 0 < e then x / e else 0)) fx fe))"
    by (simp add: snr_def quotient_def lx le)
  fix w assume "w < length (snr fx fe)"
  then have w: "w < NUM_WAVELENGTH_BINS cfg" by (simp add: snr_def quotient_def lx le)
  have "length (fx ! w) = NUM_MJD_BINS cfg" "length (fe ! w) = NUM_MJD_BINS cfg"
    using assms w lx le by (simp_all add: has_shape_def list_all_length)
  then have r: "length (fx ! w) = length (fe ! w)" by simp
  show "snr fx fe ! w
      = map (map Fin) (map2 (map2 (\<lambda>x e. if 0 < e then x / e else 0)) fx fe) ! w"
    using w lx le snr_row_Fin[OF r] by (simp add: snr_def quotient_def)
qed

lemma ratio_grid_shape:
  assumes "has_shape cfg fx" "has_shape cfg fe"
  shows "has_shape cfg (map2 (map2 (\<lambda>x e. if 0 < e then x / e else (0::real))) fx fe)"
proof -
  have lx: "length fx = NUM_WAVELENGTH_BINS cfg" and le: "length fe = NUM_WAVELENGTH_BINS cfg"
    using assms by (simp_all add: has_shape_def)
  have "length (map2 (map2 (\<lambda>x e. if 0 < e then x / e else (0::real))) fx fe ! w) = NUM_MJD_BINS cfg"
    if "w < NUM_WAVELENGTH_BINS cfg" for w
  proof -
    have "length (fx ! w) = NUM_MJD_BINS cfg" "length (fe ! w) = NUM_MJD_BINS cfg"
      using assms that lx le by (simp_all add: has_shape_def list_all_length)
    then show ?thesis using that lx le by simp
  qed
  then show ?thesis by (simp add: has_shape_def list_all_length lx le)
qed

lemma positive_Fin:
  "filter (\<lambda>s. fl_less (Fin 0) s) (map Fin xs) = map Fin (filter (\<lambda>s. 0 < s) xs)"
  by (induction xs) simp_all

lemma any_positive_Fin:
  "np_any (map (\<lambda>s. fl_less (Fin 0) s) (map Fin xs)) \<longleftrightarrow> filter (\<lambda>s. 0 < s) xs \<noteq> []"
  by (induction xs) (auto simp: np_any_def)

lemma snr_fields_eq:
  assumes "has_shape cfg fx" "has_shape cfg fe"
    and "0 < NUM_WAVELENGTH_BINS cfg" "0 < NUM_MJD_BINS cfg"
  defines "S \<equiv> map2 (map2 (\<lambda>x e. if 0 < e then x / e else 0)) fx fe"
  defines "P \<equiv> filter (\<lambda>s. 0 < s) (concat S)"
  shows "snr_mean_of fx fe = (if P = [] then Fin 0 else Fin (sum_list P / real (length P)))"
    and "snr_median_of fx fe = (if P = [] then Fin 0 else np_median P)"
    and "snr_max_of fx fe = Fin (Max (set (concat S)))"
    and "w < NUM_WAVELENGTH_BINS cfg \<Longrightarrow> t < NUM_MJD_BINS cfg \<Longrightarrow>
           snr fx fe ! w ! t = Fin (S ! w ! t)"
proof -
  have s: "snr fx fe = map (map Fin) S" unfolding S_def by (rule snr_Fin[OF assms(1,2)])
  have c: "concat (snr fx fe) = map Fin (concat S)" by (simp add: s map_concat)
  have shape: "has_shape cfg S" unfolding S_def by (rule ratio_grid_shape[OF assms(1,2)])
  have "length (concat S) = NUM_WAVELENGTH_BINS cfg * NUM_MJD_BINS cfg"
    using size_decoded[OF shape] by (simp add: np_size_def)
  then have "0 < length (concat S)" using assms(3,4) by simp
  then have ne: "concat S \<noteq> []" unfolding length_greater_0_conv .
  have any: "np_any (map (\<lambda>s. fl_less (Fin 0) s) (concat (snr fx fe))) \<longleftrightarrow> P \<noteq> []"
    unfolding c P_def by (rule any_positive_Fin)
  have pos: "snr_positive fx fe = map Fin P"
    unfolding snr_positive_def c P_def by (rule positive_Fin)
  show "snr_mean_of fx fe = (if P = [] then Fin 0 else Fin (sum_list P / real (length P)))"
    unfolding snr_mean_of_def any pos np_mean_fl_Fin by (simp add: np_mean_def)
  show "snr_median_of fx fe = (if P = [] then Fin 0 else np_median P)"
    unfolding snr_median_of_def any pos np_median_fl_Fin by simp
  show "snr_max_of fx fe = Fin (Max (set (concat S)))"
    using np_max_fl_Fin[OF ne] np_max_eq_Max[OF ne] by (simp add: snr_max_of_def c)
  show "snr fx fe ! w ! t = Fin (S ! w ! t)"
    if "w < NUM_WAVELENGTH_BINS cfg" "t < NUM_MJD_BINS cfg"
  proof -
    have "length S = NUM_WAVELENGTH_BINS cfg" "length (S ! w) = NUM_MJD_BINS cfg"
      using shape that by (simp_all add: has_shape_def list_all_length)
    then show ?thesis using that by (simp add: s)
  qed
qed

lemma peak_flux_idx_bounds:
  assumes "has_shape cfg fx" "0 < NUM_WAVELENGTH_BINS cfg" "0 < NUM_MJD_BINS cfg"
  shows "fst (peak_flux_idx cfg fx) < NUM_WAVELENGTH_BINS cfg"
    and "snd (peak_flux_idx cfg fx) < NUM_MJD_BINS cfg"
proof -
  have l: "length (concat fx) = NUM_WAVELENGTH_BINS cfg * NUM_MJD_BINS cfg"
    using size_decoded[OF assms(1)] by (simp add: np_size_def)
  then have "0 < length (concat fx)" using assms(2,3) by simp
  then have ne: "concat fx \<noteq> []" unfolding length_greater_0_conv .
  have "np_argmax (concat fx) < NUM_WAVELENGTH_BINS cfg * NUM_MJD_BINS cfg"
    using np_argmax_props(1)[OF ne] l by simp
  then show "fst (peak_flux_idx cfg fx) < NUM_WAVELENGTH_BINS cfg"
    by (simp add: peak_flux_idx_def np_unravel_index_def less_mult_imp_div_less)
  show "snd (peak_flux_idx cfg fx) < NUM_MJD_BINS cfg"
    using assms(3) by (simp add: peak_flux_idx_def np_unravel_index_def)
qed

lemma ratio_grid_nth:
  assumes "has_shape cfg fx" "has_shape cfg fe"
    and "w < NUM_WAVELENGTH_BINS cfg" "t < NUM_MJD_BINS cfg"
  shows "map2 (map2 (\<lambda>x e. if 0 < e then x / e else (0::real))) fx fe ! w ! t
       = (if 0 < fe ! w ! t then fx ! w ! t / fe ! w ! t else 0)"
    and "quotient fx fe ! w ! t = true_divide (fx ! w ! t) (fe ! w ! t)"
proof -
  have lx: "length fx = NUM_WAVELENGTH_BINS cfg" and le: "length fe = NUM_WAVELENGTH_BINS cfg"
    using assms by (simp_all add: has_shape_def)
  have r: "length (fx ! w) = NUM_MJD_BINS cfg" "length (fe ! w) = NUM_MJD_BINS cfg"
    using assms lx le by (simp_all add: has_shape_def list_all_length)
  show "map2 (map2 (\<lambda>x e. if 0 < e then x / e else (0::real))) fx fe ! w ! t
       = (if 0 < fe ! w ! t then fx ! w ! t / fe ! w ! t else 0)"
    using assms(3,4) lx le r by simp
  show "quotient fx fe ! w ! t = true_divide (fx ! w ! t) (fe ! w ! t)"
    using assms(3,4) lx le r by (simp add: quotient_def)
qed

subsection \<open>Signal to noise\<close>

text \<open>
  C2, as stated, fails in one point: the quotient is evaluated also where \<open>flux_err\<close> is
  zero. In the scenario, where \<open>flux_err\<close> is zero everywhere, the array
  \<^verbatim>\<open>flux / flux_err\<close> that the source computes holds \<open>10 / 0 = inf\<close> at \<open>(2, 3)\<close> and
  \<open>0 / 0 = NaN\<close> at \<open>(0, 0)\<close>; \<^verbatim>\<open>np.where\<close> then replaces these entries by 0.
\<close>

theorem snr_division_counterexample:
  "concat (flux_err scenario_event) = replicate 20 0 \<and>
   quotient (flux scenario_event) (flux_err scenario_event) ! 2 ! 3 = PInf \<and>
   quotient (flux scenario_event) (flux_err scenario_event) ! 0 ! 0 = NaN \<and>
   snr (flux scenario_event) (flux_err scenario_event) ! 2 ! 3 = Fin 0"
  by code_simp

text \<open>
  C2, amended. For every decoded record, \<open>snr[w,t]\<close> is \<open>flux[w,t] / flux_err[w,t]\<close> where
  \<open>flux_err[w,t] > 0\<close> and 0 elsewhere (so every entry is 0 when \<open>flux_err\<close> is zero
  everywhere), although the quotient is evaluated at every entry, zero denominators
  included, and discarded where \<open>flux_err \<le> 0\<close>; \<open>snr_mean\<close> and \<open>snr_median\<close> are the mean
  and the median of the strictly positive snr entries and are 0, not NaN, when there is
  none; \<open>snr_max\<close> is the maximum over the whole grid, zero-filled entries included;
  \<open>snr_peak\<close> is the snr entry at the flux peak index, as it is.
\<close>

theorem snr_statistics:
  assumes "decoded cfg d" "0 < NUM_WAVELENGTH_BINS cfg" "0 < NUM_MJD_BINS cfg"
  shows "\<exists>i. extract_summary_statistics cfg d = Inr i \<and>
    (let S = map2 (map2 (\<lambda>x e. if 0 < e then x / e else 0)) (flux d) (flux_err d);
         P = filter (\<lambda>s. 0 < s) (concat S)
     in (\<forall>w<NUM_WAVELENGTH_BINS cfg. \<forall>t<NUM_MJD_BINS cfg.
           snr (flux d) (flux_err d) ! w ! t =
             (if 0 < flux_err d ! w ! t then Fin (flux d ! w ! t / flux_err d ! w ! t) else Fin 0) \<and>
           quotient (flux d) (flux_err d) ! w ! t
             = true_divide (flux d ! w ! t) (flux_err d ! w ! t)) \<and>
        snr_mean i = (if P = [] then Fin 0 else Fin (sum_list P / real (length P))) \<and>
        snr_median i = (if P = [] then Fin 0 else np_median P) \<and>
        snr_max i = Fin (Max (set (concat S))) \<and>
        peak_flux_wavelength_idx i < NUM_WAVELENGTH_BINS cfg \<and>
        peak_flux_mjd_idx i < NUM_MJD_BINS cfg \<and>
        snr_peak i = snr (flux d) (flux_err d) ! peak_flux_wavelength_idx i ! peak_flux_mjd_idx i)"
proof -
  obtain i where i: "extract_summary_statistics cfg d = Inr i"
    using extract_decoded_total[OF assms] by blast
  have sx: "has_shape cfg (flux d)" and se: "has_shape cfg (flux_err d)"
    using assms(1) by (simp_all add: decoded_def)
  define S where "S = map2 (map2 (\<lambda>x e. if 0 < e then x / e else 0)) (flux d) (flux_err d)"
  define P where "P = filter (\<lambda>s. 0 < s) (concat S)"
  note f = snr_fields_eq[OF sx se assms(2,3), folded S_def, folded P_def]
  have entries: "snr (flux d) (flux_err d) ! w ! t =
             (if 0 < flux_err d ! w ! t then Fin (flux d ! w ! t / flux_err d ! w ! t) else Fin 0) \<and>
           quotient (flux d) (flux_err d) ! w ! t
             = true_divide (flux d ! w ! t) (flux_err d ! w ! t)"
    if "w < NUM_WAVELENGTH_BINS cfg" "t < NUM_MJD_BINS cfg" for w t
    using f(4)[OF that] ratio_grid_nth[OF sx se that] by (simp add: S_def)
  have mean: "snr_mean i = (if P = [] then Fin 0 else Fin (sum_list P / real (length P)))"
    using extract_Inr(16)[OF i] f(1) by simp
  have median: "snr_median i = (if P = [] then Fin 0 else np_median P)"
    using extract_Inr(17)[OF i] f(2) by simp
  have mx: "snr_max i = Fin (Max (set (concat S)))"
    using extract_Inr(18)[OF i] f(3) by simp
  have pb: "peak_flux_wavelength_idx i < NUM_WAVELENGTH_BINS cfg"
    "peak_flux_mjd_idx i < NUM_MJD_BINS cfg"
    using extract_Inr(2,3)[OF i] peak_flux_idx_bounds[OF sx assms(2,3)] by simp_all
  have pk: "snr_peak i = snr (flux d) (flux_err d) ! peak_flux_wavelength_idx i ! peak_flux_mjd_idx i"
    using extract_Inr(2,3,19)[OF i] by (simp add: snr_peak_of_def split_beta)
  show ?thesis
    using i entries mean median mx pb pk unfolding Let_def S_def P_def by blast
qed

lemma tie_decoded: "decoded scenario_config tie_event"
  by (simp add: decoded_def has_shape_def scenario_config_def tie_event_def)

lemma tie_snr_values:
  "snr_mean_of (flux tie_event) (flux_err tie_event) = Fin 1"
  "snr_median_of (flux tie_event) (flux_err tie_event) = Fin 1"
  "snr_max_of (flux tie_event) (flux_err tie_event) = Fin 1"
  "snr_peak_of scenario_config (flux tie_event) (flux_err tie_event) = Fin 1"
  by code_simp+

theorem snr_statistics_witness:
  "decoded scenario_config tie_event \<and>
   0 < NUM_WAVELENGTH_BINS scenario_config \<and> 0 < NUM_MJD_BINS scenario_config \<and>
   (\<exists>i. extract_summary_statistics scenario_config tie_event = Inr i \<and>
      snr (flux tie_event) (flux_err tie_event) ! 0 ! 1 =
        (if 0 < flux_err tie_event ! 0 ! 1
         then Fin (flux tie_event ! 0 ! 1 / flux_err tie_event ! 0 ! 1) else Fin 0) \<and>
      snr_mean i = Fin 1 \<and> snr_median i = Fin 1 \<and> snr_max i = Fin 1 \<and> snr_peak i = Fin 1 \<and>
      snr_peak i = snr (flux tie_event) (flux_err tie_event)
                     ! peak_flux_wavelength_idx i ! peak_flux_mjd_idx i)"
proof -
  obtain i where i: "extract_summary_statistics scenario_config tie_event = Inr i"
    and e: "\<forall>w<NUM_WAVELENGTH_BINS scenario_config. \<forall>t<NUM_MJD_BINS scenario_config.
           snr (flux tie_event) (flux_err tie_event) ! w ! t =
             (if 0 < flux_err tie_event ! w ! t
              then Fin (flux tie_event ! w ! t / flux_err tie_event ! w ! t) else Fin 0) \<and>
           quotient (flux tie_event) (flux_err tie_event) ! w ! t
             = true_divide (flux tie_event ! w ! t) (flux_err tie_event ! w ! t)"
    and p: "snr_peak i = snr (flux tie_event) (flux_err tie_event)
                     ! peak_flux_wavelength_idx i ! peak_flux_mjd_idx i"
    using snr_statistics[OF tie_decoded scenario_dims] unfolding Let_def by blast
  have "(0::nat) < NUM_WAVELENGTH_BINS scenario_config" "(1::nat) < NUM_MJD_BINS scenario_config"
    by (simp_all add: scenario_config_def)
  with e have e01: "snr (flux tie_event) (flux_err tie_event) ! 0 ! 1 =
        (if 0 < flux_err tie_event ! 0 ! 1
         then Fin (flux tie_event ! 0 ! 1 / flux_err tie_event ! 0 ! 1) else Fin 0)"
    by blast
  have v: "snr_mean i = Fin 1 \<and> snr_median i = Fin 1 \<and> snr_max i = Fin 1 \<and> snr_peak i = Fin 1"
    using extract_Inr(16,17,18,19)[OF i] by (simp add: tie_snr_values)
  show ?thesis using tie_decoded scenario_dims i e01 v p by blast
qed

text \<open>With no error estimate anywhere, every snr entry is 0.\<close>

lemma snr_all_zero_errors:
  assumes "decoded cfg d" "\<forall>row\<in>set (flux_err d). \<forall>e\<in>set row. e = 0"
    and "w < NUM_WAVELENGTH_BINS cfg" "t < NUM_MJD_BINS cfg"
  shows "snr (flux d) (flux_err d) ! w ! t = Fin 0"
proof -
  have sx: "has_shape cfg (flux d)" and se: "has_shape cfg (flux_err d)"
    using assms(1) by (simp_all add: decoded_def)
  have "flux_err d ! w \<in> set (flux_err d)" "length (flux_err d ! w) = NUM_MJD_BINS cfg"
    using se assms(3) by (simp_all add: has_shape_def list_all_length)
  then have "flux_err d ! w ! t = 0" using assms(2,4) nth_mem[of t "flux_err d ! w"] by auto
  moreover have "0 < NUM_WAVELENGTH_BINS cfg" "0 < NUM_MJD_BINS cfg" using assms(3,4) by simp_all
  ultimately show ?thesis
    using snr_fields_eq(4)[OF sx se _ _ assms(3,4)] ratio_grid_nth(1)[OF sx se assms(3,4)]
    by simp
qed

subsection \<open>Additions that do not round\<close>

lemma bit_length_bounds:
  "1 \<le> n \<Longrightarrow> 1 \<le> bit_length n \<and> 2 ^ nat (bit_length n - 1) \<le> n \<and> n < 2 ^ nat (bit_length n)"
proof (induction n rule: bit_length.induct)
  case (1 n)
  show ?case
  proof (cases "n = 1")
    case True
    have "bit_length 1 = 1 + bit_length 0" by (subst bit_length.simps) simp
    also have "bit_length 0 = 0" by (subst bit_length.simps) simp
    finally show ?thesis using True by simp
  next
    case False
    with "1.prems" have n2: "2 \<le> n" by simp
    then have m: "1 \<le> n div 2" by simp
    have ih: "1 \<le> bit_length (n div 2) \<and> 2 ^ nat (bit_length (n div 2) - 1) \<le> n div 2
        \<and> n div 2 < 2 ^ nat (bit_length (n div 2))"
    proof (rule "1.IH")
      show "\<not> n \<le> 0" using "1.prems" by simp
      show "1 \<le> n div 2" by (rule m)
    qed
    define b where "b = bit_length (n div 2)"
    have bl: "bit_length n = 1 + b"
      unfolding b_def using n2 by (subst bit_length.simps) simp
    have b1: "1 \<le> b" and lo: "2 ^ nat (b - 1) \<le> n div 2" and hi: "n div 2 < 2 ^ nat b"
      using ih unfolding b_def by blast+
    have nb: "nat (1 + b) = Suc (nat b)" using b1 by simp
    have nb1: "nat (1 + b - 1) = Suc (nat (b - 1))" using b1 by simp
    define P :: int where "P = 2 ^ nat (b - 1)"
    define Q :: int where "Q = 2 ^ nat b"
    have dm: "n = 2 * (n div 2) + n mod 2" "0 \<le> n mod 2" "n mod 2 < 2"
      by simp_all
    have "P \<le> n div 2" "n div 2 < Q" using lo hi by (simp_all add: P_def Q_def)
    then have "2 * P \<le> n" "n < 2 * Q" using dm by linarith+
    then have "2 ^ Suc (nat (b - 1)) \<le> n" "n < 2 ^ Suc (nat b)"
      by (simp_all add: P_def Q_def)
    moreover have "1 \<le> 1 + b" using b1 by simp
    ultimately show ?thesis
      unfolding bl nb nb1 by blast
  qed
qed

lemma round_half_even_of_int: "round_half_even (of_int k) = k"
  by (simp add: round_half_even_def)

lemma f64_exponent_of_int:
  assumes "n \<noteq> 0"
  shows "f64_exponent (of_int n) = bit_length \<bar>n\<bar> - 1"
proof -
  have "1 \<le> \<bar>of_int n :: real\<bar>" using assms by (simp flip: of_int_abs)
  moreover have "\<lfloor>\<bar>of_int n :: real\<bar>\<rfloor> = \<bar>n\<bar>" by (simp flip: of_int_abs)
  ultimately show ?thesis by (simp only: f64_exponent_def if_True)
qed

lemma f64_round_of_int:
  assumes "\<bar>n\<bar> \<le> 2 ^ 53"
  shows "f64_round (of_int n) = of_int n"
proof (cases "n = 0")
  case True
  then show ?thesis by (simp add: f64_round_def)
next
  case False
  define e where "e = bit_length \<bar>n\<bar> - 1"
  have a1: "1 \<le> \<bar>n\<bar>" using False by simp
  have e0: "0 \<le> e" and lo: "2 ^ nat e \<le> \<bar>n\<bar>"
    using bit_length_bounds[OF a1] by (simp_all add: e_def)
  have "(2::int) ^ nat e \<le> 2 ^ 53" using lo assms by simp
  then have "nat e \<le> 53" by (rule power_le_imp_le_exp[rotated]) simp
  then have e53: "e \<le> 53" by simp
  have ex: "f64_exponent (of_int n) = e" using f64_exponent_of_int[OF False] by (simp add: e_def)
  have mx: "max e (- 1022) = e" using e0 by simp
  have r: "f64_round (of_int n) =
      of_int (round_half_even (of_int n / pow2 (e - 52))) * pow2 (e - 52)"
    using False by (simp add: f64_round_def ex mx Let_def)
  show ?thesis
  proof (cases "e = 53")
    case True
    then have "2 ^ 53 \<le> \<bar>n\<bar>" using lo by simp
    then have "\<bar>n\<bar> = 2 ^ 53" using assms by simp
    then have "n = 2 ^ 53 \<or> n = - (2 ^ 53)" by (auto simp: abs_if split: if_splits)
    then obtain k where k: "n = 2 * k" by auto
    have p2: "pow2 (e - 52) = 2" using True by (simp add: pow2_def)
    have q: "of_int n / 2 = (of_int k :: real)" by (simp add: k)
    have "f64_round (of_int n) = of_int (round_half_even (of_int n / 2)) * 2"
      using r by (simp only: p2)
    also have "\<dots> = of_int k * 2"
      by (simp only: q round_half_even_of_int)
    also have "\<dots> = of_int n" by (simp add: k)
    finally show ?thesis .
  next
    case False
    then have le: "e \<le> 52" using e53 by simp
    define s where "s = nat (52 - e)"
    have p: "pow2 (e - 52) = 1 / 2 ^ s"
    proof (cases "e = 52")
      case True
      then show ?thesis by (simp add: pow2_def s_def)
    next
      case False
      then have "\<not> 0 \<le> e - 52" using le by simp
      moreover have "nat (- (e - 52)) = s" by (simp add: s_def)
      ultimately show ?thesis by (simp add: pow2_def)
    qed
    have q: "of_int n / (1 / 2 ^ s) = (of_int (n * 2 ^ s) :: real)"
      by simp
    have "f64_round (of_int n) = of_int (round_half_even (of_int n / (1 / 2 ^ s))) * (1 / 2 ^ s)"
      using r by (simp only: p)
    also have "\<dots> = of_int (n * 2 ^ s) * (1 / 2 ^ s)"
      by (simp only: q round_half_even_of_int)
    also have "\<dots> = of_int n" by simp
    finally show ?thesis .
  qed
qed

lemma f64_add_exact:
  assumes "x \<in> \<int>" "y \<in> \<int>" "\<bar>x\<bar> + \<bar>y\<bar> \<le> 2 ^ 53"
  shows "f64_add x y = x + y"
proof -
  obtain a b where ab: "x = of_int a" "y = of_int b" using assms(1,2) by (auto elim!: Ints_cases)
  have "\<bar>of_int (a + b) :: real\<bar> \<le> 2 ^ 53" using assms(3) by (simp add: ab)
  then have "(of_int \<bar>a + b\<bar> :: real) \<le> of_int (2 ^ 53)" by simp
  then have "\<bar>a + b\<bar> \<le> 2 ^ 53" by (simp only: of_int_le_iff)
  then show ?thesis using f64_round_of_int[of "a + b"] by (simp add: f64_add_def ab)
qed

lemma abs_nth_le_sum_abs: "j < length xs \<Longrightarrow> \<bar>xs ! j\<bar> \<le> sum_list (map abs (xs :: real list))"
proof (induction xs arbitrary: j)
  case Nil
  then show ?case by simp
next
  case (Cons x xs)
  have nn: "0 \<le> sum_list (map abs xs)" by (rule sum_list_nonneg) auto
  show ?case
  proof (cases j)
    case 0
    then show ?thesis using nn by simp
  next
    case (Suc i)
    then have "\<bar>xs ! i\<bar> \<le> sum_list (map abs xs)" using Cons.prems by (intro Cons.IH) simp
    then show ?thesis using Suc by simp
  qed
qed

lemma sum_abs_nonneg: "0 \<le> sum_list (map abs (xs :: real list))"
  by (rule sum_list_nonneg) auto

lemma abs_sum_list_le: "\<bar>sum_list xs\<bar> \<le> sum_list (map abs (xs :: real list))"
proof (induction xs)
  case Nil
  then show ?case by simp
next
  case (Cons x xs)
  have "\<bar>x + sum_list xs\<bar> \<le> \<bar>x\<bar> + \<bar>sum_list xs\<bar>" by (rule abs_triangle_ineq)
  then show ?case using Cons.IH by simp
qed

lemma sum_list_Ints: "set xs \<subseteq> \<int> \<Longrightarrow> sum_list (xs :: real list) \<in> \<int>"
  by (induction xs) (simp_all add: Ints_add)

lemma add_in_order_exact:
  assumes "res \<in> \<int>" "set xs \<subseteq> \<int>" "\<bar>res\<bar> + sum_list (map abs xs) \<le> 2 ^ 53"
  shows "add_in_order res xs = res + sum_list xs"
  using assms
proof (induction xs arbitrary: res)
  case Nil
  then show ?case by (simp add: add_in_order_def)
next
  case (Cons x xs)
  have nn: "0 \<le> sum_list (map abs xs)" by (rule sum_abs_nonneg)
  have x: "x \<in> \<int>" and xs: "set xs \<subseteq> \<int>" using Cons.prems(2) by simp_all
  have b: "\<bar>res\<bar> + \<bar>x\<bar> + sum_list (map abs xs) \<le> 2 ^ 53" using Cons.prems(3) by simp
  have "\<bar>res\<bar> + \<bar>x\<bar> \<le> 2 ^ 53" using b nn by linarith
  then have step: "f64_add res x = res + x" by (rule f64_add_exact[OF Cons.prems(1) x])
  have "\<bar>res + x\<bar> \<le> \<bar>res\<bar> + \<bar>x\<bar>" by (rule abs_triangle_ineq)
  then have b': "\<bar>res + x\<bar> + sum_list (map abs xs) \<le> 2 ^ 53" using b by linarith
  have "add_in_order res (x # xs) = add_in_order (res + x) xs"
    by (simp add: add_in_order_def step)
  also have "\<dots> = res + x + sum_list xs"
    by (rule Cons.IH[OF Ints_add[OF Cons.prems(1) x] xs b'])
  finally show ?case by simp
qed

lemma map2_f64_add_exact:
  assumes "length acc = length blk" "set acc \<subseteq> \<int>" "set blk \<subseteq> \<int>"
    and "sum_list (map abs acc) + sum_list (map abs blk) \<le> 2 ^ 53"
  shows "map2 f64_add acc blk = map2 (+) acc blk"
proof (rule nth_equalityI)
  show "length (map2 f64_add acc blk) = length (map2 (+) acc blk)" by simp
  fix j assume "j < length (map2 f64_add acc blk)"
  then have j: "j < length acc" "j < length blk" using assms(1) by simp_all
  have "\<bar>acc ! j\<bar> \<le> sum_list (map abs acc)" "\<bar>blk ! j\<bar> \<le> sum_list (map abs blk)"
    using j by (simp_all add: abs_nth_le_sum_abs)
  then have "\<bar>acc ! j\<bar> + \<bar>blk ! j\<bar> \<le> 2 ^ 53" using assms(4) by linarith
  moreover have "acc ! j \<in> \<int>" "blk ! j \<in> \<int>" using j assms(2,3) nth_mem by blast+
  ultimately have "f64_add (acc ! j) (blk ! j) = acc ! j + blk ! j" by (intro f64_add_exact)
  then show "map2 f64_add acc blk ! j = map2 (+) acc blk ! j" using j by simp
qed

lemma map2_plus_facts:
  assumes "length a = length (b :: real list)"
  shows "sum_list (map2 (+) a b) = sum_list a + sum_list b"
    and "sum_list (map abs (map2 (+) a b)) \<le> sum_list (map abs a) + sum_list (map abs b)"
    and "set a \<subseteq> \<int> \<Longrightarrow> set b \<subseteq> \<int> \<Longrightarrow> set (map2 (+) a b) \<subseteq> \<int>"
  using assms
proof (induction a b rule: list_induct2)
  case Nil
  { case 1 show ?case by simp }
  { case 2 show ?case by simp }
  { case 3 show ?case by simp }
next
  case (Cons x xs y ys)
  { case 1 show ?case using Cons.IH(1) by simp }
  { case 2
    have "\<bar>x + y\<bar> \<le> \<bar>x\<bar> + \<bar>y\<bar>" by (rule abs_triangle_ineq)
    then show ?case using Cons.IH(2) by simp }
  { case 3 then show ?case using Cons.IH(3) by (simp add: Ints_add) }
qed

lemma fold_blocks_exact:
  assumes "\<forall>blk\<in>set blocks. length blk = length acc \<and> set blk \<subseteq> \<int>"
    and "set acc \<subseteq> \<int>"
    and "sum_list (map abs acc) + sum_list (map abs (concat blocks)) \<le> 2 ^ 53"
  shows "length (fold (\<lambda>blk acc. map2 f64_add acc blk) blocks acc) = length acc \<and>
    set (fold (\<lambda>blk acc. map2 f64_add acc blk) blocks acc) \<subseteq> \<int> \<and>
    sum_list (fold (\<lambda>blk acc. map2 f64_add acc blk) blocks acc)
      = sum_list acc + sum_list (concat blocks) \<and>
    sum_list (map abs (fold (\<lambda>blk acc. map2 f64_add acc blk) blocks acc))
      \<le> sum_list (map abs acc) + sum_list (map abs (concat blocks))"
  using assms
proof (induction blocks arbitrary: acc)
  case Nil
  then show ?case by simp
next
  case (Cons blk blocks)
  have len: "length acc = length blk" and bi: "set blk \<subseteq> \<int>"
    using Cons.prems(1) by simp_all
  have nn: "0 \<le> sum_list (map abs (concat blocks))" by (rule sum_abs_nonneg)
  have b: "sum_list (map abs acc) + sum_list (map abs blk) + sum_list (map abs (concat blocks)) \<le> 2 ^ 53"
    using Cons.prems(3) by simp
  then have b1: "sum_list (map abs acc) + sum_list (map abs blk) \<le> 2 ^ 53" using nn by linarith
  define acc' where "acc' = map2 (+) acc blk"
  have step: "map2 f64_add acc blk = acc'"
    unfolding acc'_def by (rule map2_f64_add_exact[OF len Cons.prems(2) bi b1])
  have l': "length acc' = length acc" by (simp add: acc'_def len)
  have i': "set acc' \<subseteq> \<int>"
    unfolding acc'_def by (rule map2_plus_facts(3)[OF len Cons.prems(2) bi])
  have s': "sum_list acc' = sum_list acc + sum_list blk"
    unfolding acc'_def by (rule map2_plus_facts(1)[OF len])
  have a': "sum_list (map abs acc') \<le> sum_list (map abs acc) + sum_list (map abs blk)"
    unfolding acc'_def by (rule map2_plus_facts(2)[OF len])
  have p1: "\<forall>blk\<in>set blocks. length blk = length acc' \<and> set blk \<subseteq> \<int>"
    using Cons.prems(1) l' by simp
  have p3: "sum_list (map abs acc') + sum_list (map abs (concat blocks)) \<le> 2 ^ 53"
    using a' b by linarith
  note ih = Cons.IH[OF p1 i' p3]
  have f: "fold (\<lambda>blk acc. map2 f64_add acc blk) (blk # blocks) acc
      = fold (\<lambda>blk acc. map2 f64_add acc blk) blocks acc'"
    by (simp add: step)
  show ?case
    unfolding f using ih l' s' a' by (simp add: algebra_simps)
qed

lemma length8:
  assumes "length r = 8"
  obtains r0 r1 r2 r3 r4 r5 r6 r7 where "r = [r0, r1, r2, r3, r4, r5, r6, r7]"
proof -
  have "r = [r ! 0, r ! 1, r ! 2, r ! 3, r ! 4, r ! 5, r ! 6, r ! 7]"
    using assms by (intro nth_equalityI) (auto simp: less_Suc_eq numeral_eq_Suc)
  then show ?thesis using that by blast
qed

lemma sum8_exact:
  assumes "length r = 8" "set r \<subseteq> \<int>" "sum_list (map abs r) \<le> 2 ^ 53"
  shows "f64_add (f64_add (f64_add (r ! 0) (r ! 1)) (f64_add (r ! 2) (r ! 3)))
                 (f64_add (f64_add (r ! 4) (r ! 5)) (f64_add (r ! 6) (r ! 7))) = sum_list r"
proof -
  obtain r0 r1 r2 r3 r4 r5 r6 r7 where r: "r = [r0, r1, r2, r3, r4, r5, r6, r7]"
    using length8[OF assms(1)] by blast
  have i: "r0 \<in> \<int>" "r1 \<in> \<int>" "r2 \<in> \<int>" "r3 \<in> \<int>" "r4 \<in> \<int>" "r5 \<in> \<int>" "r6 \<in> \<int>" "r7 \<in> \<int>"
    using assms(2) by (simp_all add: r)
  have b: "\<bar>r0\<bar> + \<bar>r1\<bar> + \<bar>r2\<bar> + \<bar>r3\<bar> + \<bar>r4\<bar> + \<bar>r5\<bar> + \<bar>r6\<bar> + \<bar>r7\<bar> \<le> 2 ^ 53"
    using assms(3) by (simp add: r)
  have nn: "0 \<le> \<bar>r0\<bar>" "0 \<le> \<bar>r1\<bar>" "0 \<le> \<bar>r2\<bar>" "0 \<le> \<bar>r3\<bar>" "0 \<le> \<bar>r4\<bar>" "0 \<le> \<bar>r5\<bar>"
    "0 \<le> \<bar>r6\<bar>" "0 \<le> \<bar>r7\<bar>" by simp_all
  have t01: "\<bar>r0 + r1\<bar> \<le> \<bar>r0\<bar> + \<bar>r1\<bar>" and t23: "\<bar>r2 + r3\<bar> \<le> \<bar>r2\<bar> + \<bar>r3\<bar>"
    and t45: "\<bar>r4 + r5\<bar> \<le> \<bar>r4\<bar> + \<bar>r5\<bar>" and t67: "\<bar>r6 + r7\<bar> \<le> \<bar>r6\<bar> + \<bar>r7\<bar>"
    by (rule abs_triangle_ineq)+
  have t03: "\<bar>(r0 + r1) + (r2 + r3)\<bar> \<le> \<bar>r0 + r1\<bar> + \<bar>r2 + r3\<bar>"
    and t47: "\<bar>(r4 + r5) + (r6 + r7)\<bar> \<le> \<bar>r4 + r5\<bar> + \<bar>r6 + r7\<bar>"
    by (rule abs_triangle_ineq)+
  have a01: "f64_add r0 r1 = r0 + r1" by (rule f64_add_exact[OF i(1,2)]) (use b nn in linarith)
  have a23: "f64_add r2 r3 = r2 + r3" by (rule f64_add_exact[OF i(3,4)]) (use b nn in linarith)
  have a45: "f64_add r4 r5 = r4 + r5" by (rule f64_add_exact[OF i(5,6)]) (use b nn in linarith)
  have a67: "f64_add r6 r7 = r6 + r7" by (rule f64_add_exact[OF i(7,8)]) (use b nn in linarith)
  have a03: "f64_add (r0 + r1) (r2 + r3) = (r0 + r1) + (r2 + r3)"
    by (rule f64_add_exact[OF Ints_add[OF i(1,2)] Ints_add[OF i(3,4)]])
       (use b nn t01 t23 in linarith)
  have a47: "f64_add (r4 + r5) (r6 + r7) = (r4 + r5) + (r6 + r7)"
    by (rule f64_add_exact[OF Ints_add[OF i(5,6)] Ints_add[OF i(7,8)]])
       (use b nn t45 t67 in linarith)
  have a07: "f64_add ((r0 + r1) + (r2 + r3)) ((r4 + r5) + (r6 + r7))
      = ((r0 + r1) + (r2 + r3)) + ((r4 + r5) + (r6 + r7))"
    by (rule f64_add_exact[OF Ints_add[OF Ints_add[OF i(1,2)] Ints_add[OF i(3,4)]]
          Ints_add[OF Ints_add[OF i(5,6)] Ints_add[OF i(7,8)]]])
       (use b nn t01 t23 t45 t67 t03 t47 in linarith)
  show ?thesis
    by (simp add: r a01 a23 a45 a67 a03 a47 a07)
qed

lemma concat_blocks:
  assumes "a \<le> k" "8 * k \<le> length xs"
  shows "concat (map (\<lambda>b. take 8 (drop (8 * b) xs)) [a..<k]) = drop (8 * a) (take (8 * k) xs)"
  using assms
proof (induction k)
  case 0
  then show ?case by simp
next
  case (Suc k)
  show ?case
  proof (cases "a = Suc k")
    case True
    then show ?thesis by simp
  next
    case False
    then have ak: "a \<le> k" using Suc.prems(1) by simp
    have k8: "8 * k \<le> length xs" using Suc.prems(2) by simp
    have ih: "concat (map (\<lambda>b. take 8 (drop (8 * b) xs)) [a..<k]) = drop (8 * a) (take (8 * k) xs)"
      by (rule Suc.IH[OF ak k8])
    have "take (8 * Suc k) xs = take (8 * k) xs @ take 8 (drop (8 * k) xs)"
      using take_add[of "8 * k" 8 xs] by (simp add: add.commute)
    moreover have "8 * a \<le> length (take (8 * k) xs)" using ak k8 by simp
    ultimately have "drop (8 * a) (take (8 * Suc k) xs)
        = drop (8 * a) (take (8 * k) xs) @ take 8 (drop (8 * k) xs)"
      by simp
    then show ?thesis using ak ih by simp
  qed
qed

lemma sum_block_exact:
  assumes "8 \<le> length xs" "set xs \<subseteq> \<int>" "sum_list (map abs xs) \<le> 2 ^ 53"
  shows "sum_block xs = sum_list xs"
proof -
  define k where "k = length xs div 8"
  define hd8 where "hd8 = take 8 xs"
  define blocks where "blocks = map (\<lambda>b. take 8 (drop (8 * b) xs)) [1..<k]"
  define tl8 where "tl8 = drop (8 * k) xs"
  have k1: "1 \<le> k" using assms(1) by (simp add: k_def)
  have k8: "8 * k \<le> length xs" by (simp add: k_def)
  have cb: "concat blocks = drop 8 (take (8 * k) xs)"
    using concat_blocks[OF k1 k8] by (simp add: blocks_def)
  have "take 8 (take (8 * k) xs) = hd8" using k1 by (simp add: hd8_def min_def)
  then have "take (8 * k) xs = hd8 @ concat blocks"
    using append_take_drop_id[of 8 "take (8 * k) xs"] by (simp add: cb)
  then have split: "xs = hd8 @ concat blocks @ tl8"
    using append_take_drop_id[of "8 * k" xs] by (simp add: tl8_def)
  have sums: "sum_list xs = sum_list hd8 + sum_list (concat blocks) + sum_list tl8"
    by (subst split) (simp only: sum_list_append add.assoc)
  have abss: "sum_list (map abs xs)
      = sum_list (map abs hd8) + sum_list (map abs (concat blocks)) + sum_list (map abs tl8)"
    by (subst split) (simp only: map_append sum_list_append add.assoc)
  have nn: "0 \<le> sum_list (map abs tl8)" "0 \<le> sum_list (map abs hd8)"
    "0 \<le> sum_list (map abs (concat blocks))"
    by (rule sum_abs_nonneg)+
  have lh: "length hd8 = 8" using assms(1) by (simp add: hd8_def)
  have ih: "set hd8 \<subseteq> \<int>" using assms(2) set_take_subset[of 8 xs] by (auto simp: hd8_def)
  have it: "set tl8 \<subseteq> \<int>" using assms(2) set_drop_subset[of "8 * k" xs] by (auto simp: tl8_def)
  have blk: "\<forall>blk\<in>set blocks. length blk = length hd8 \<and> set blk \<subseteq> \<int>"
  proof
    fix blk assume "blk \<in> set blocks"
    then obtain b where b: "1 \<le> b" "b < k" and bl: "blk = take 8 (drop (8 * b) xs)"
      by (auto simp: blocks_def)
    have "8 * b + 8 \<le> length xs" using b(2) k8 by simp
    then have "length blk = 8" by (simp add: bl)
    moreover have "set blk \<subseteq> set xs"
      using set_take_subset[of 8 "drop (8 * b) xs"] set_drop_subset[of "8 * b" xs]
      by (auto simp: bl)
    ultimately show "length blk = length hd8 \<and> set blk \<subseteq> \<int>" using assms(2) lh by auto
  qed
  have b1: "sum_list (map abs hd8) + sum_list (map abs (concat blocks)) \<le> 2 ^ 53"
    using assms(3) abss nn by linarith
  define r where "r = fold (\<lambda>blk acc. map2 f64_add acc blk) blocks hd8"
  have rf: "length r = 8" "set r \<subseteq> \<int>"
    "sum_list r = sum_list hd8 + sum_list (concat blocks)"
    "sum_list (map abs r) \<le> sum_list (map abs hd8) + sum_list (map abs (concat blocks))"
    using fold_blocks_exact[OF blk ih b1] lh by (simp_all add: r_def)
  have rb: "sum_list (map abs r) \<le> 2 ^ 53" using rf(4) b1 by linarith
  define res where "res = f64_add (f64_add (f64_add (r ! 0) (r ! 1)) (f64_add (r ! 2) (r ! 3)))
                        (f64_add (f64_add (r ! 4) (r ! 5)) (f64_add (r ! 6) (r ! 7)))"
  have res: "res = sum_list r" unfolding res_def by (rule sum8_exact[OF rf(1,2) rb])
  have ri: "res \<in> \<int>" unfolding res by (rule sum_list_Ints[OF rf(2)])
  have "\<bar>res\<bar> \<le> sum_list (map abs r)" unfolding res by (rule abs_sum_list_le)
  then have tb: "\<bar>res\<bar> + sum_list (map abs tl8) \<le> 2 ^ 53"
    using rf(4) abss assms(3) by linarith
  have "sum_block xs = add_in_order res tl8"
    by (simp add: sum_block_def Let_def res_def r_def blocks_def hd8_def tl8_def k_def)
  also have "\<dots> = res + sum_list tl8" by (rule add_in_order_exact[OF ri it tb])
  also have "\<dots> = sum_list xs" by (simp add: res rf(3) sums)
  finally show ?thesis .
qed

lemma pairwise_sum_exact:
  "set xs \<subseteq> \<int> \<Longrightarrow> sum_list (map abs xs) \<le> 2 ^ 53 \<Longrightarrow> pairwise_sum xs = sum_list xs"
proof (induction xs rule: pairwise_sum.induct)
  case (1 xs)
  show ?case
  proof (cases "length xs < 8")
    case True
    have "add_in_order 0 xs = 0 + sum_list xs"
      by (rule add_in_order_exact) (use "1.prems" in simp_all)
    then show ?thesis using True by (subst pairwise_sum.simps) simp
  next
    case False
    show ?thesis
    proof (cases "length xs \<le> 128")
      case True
      have "sum_block xs = sum_list xs"
        by (rule sum_block_exact) (use False "1.prems" in simp_all)
      then show ?thesis using True False by (subst pairwise_sum.simps) simp
    next
      case big: False
      define n2 where "n2 = length xs div 2 - length xs div 2 mod 8"
      have sp: "xs = take n2 xs @ drop n2 xs" by simp
      have ab: "sum_list (map abs xs)
          = sum_list (map abs (take n2 xs)) + sum_list (map abs (drop n2 xs))"
        by (subst sp) (simp only: map_append sum_list_append)
      have su: "sum_list xs = sum_list (take n2 xs) + sum_list (drop n2 xs)"
        by (subst sp) (simp only: sum_list_append)
      have nn: "0 \<le> sum_list (map abs (take n2 xs))" "0 \<le> sum_list (map abs (drop n2 xs))"
        by (rule sum_abs_nonneg)+
      have i1: "set (take n2 xs) \<subseteq> \<int>" using "1.prems"(1) set_take_subset[of n2 xs] by auto
      have i2: "set (drop n2 xs) \<subseteq> \<int>" using "1.prems"(1) set_drop_subset[of n2 xs] by auto
      have b1: "sum_list (map abs (take n2 xs)) \<le> 2 ^ 53"
        and b2: "sum_list (map abs (drop n2 xs)) \<le> 2 ^ 53"
        using ab nn "1.prems"(2) by linarith+
      have l: "pairwise_sum (take n2 xs) = sum_list (take n2 xs)"
        unfolding n2_def by (rule "1.IH"(1)[OF False big]) (use i1 b1 in \<open>simp_all add: n2_def\<close>)
      have r: "pairwise_sum (drop n2 xs) = sum_list (drop n2 xs)"
        unfolding n2_def by (rule "1.IH"(2)[OF False big]) (use i2 b2 in \<open>simp_all add: n2_def\<close>)
      have "\<bar>sum_list (take n2 xs)\<bar> \<le> sum_list (map abs (take n2 xs))"
        "\<bar>sum_list (drop n2 xs)\<bar> \<le> sum_list (map abs (drop n2 xs))"
        by (rule abs_sum_list_le)+
      then have "\<bar>sum_list (take n2 xs)\<bar> + \<bar>sum_list (drop n2 xs)\<bar> \<le> 2 ^ 53"
        using ab "1.prems"(2) by linarith
      then have "f64_add (sum_list (take n2 xs)) (sum_list (drop n2 xs))
          = sum_list (take n2 xs) + sum_list (drop n2 xs)"
        by (rule f64_add_exact[OF sum_list_Ints[OF i1] sum_list_Ints[OF i2]])
      then have "f64_add (pairwise_sum (take n2 xs)) (pairwise_sum (drop n2 xs)) = sum_list xs"
        by (simp only: l r su)
      then show ?thesis
        using False big by (subst pairwise_sum.simps) (simp add: n2_def)
    qed
  qed
qed

lemma np_sum_f64_exact:
  "set xs \<subseteq> \<int> \<Longrightarrow> sum_list (map abs xs) \<le> 2 ^ 53 \<Longrightarrow> np_sum_f64 xs = sum_list xs"
  by (simp add: np_sum_f64_def pairwise_sum_exact)

lemma np_sum_f64_Nil: "np_sum_f64 [] = 0"
  by (subst np_sum_f64_def, subst pairwise_sum.simps) (simp add: add_in_order_def)

subsection \<open>Light-curve flux before and after the peak\<close>

lemma rounding_decoded: "decoded scenario_config rounding_event"
  by (simp add: decoded_def has_shape_def scenario_config_def rounding_event_def)

lemma rounding_light_curve:
  "light_curve scenario_config (flux rounding_event) = [1, 1, 3, 9007199254740994, 3]"
  by code_simp

lemma rounding_sums:
  "flux_before_peak_of scenario_config (flux rounding_event) = 5"
  "flux_after_peak_of scenario_config (flux rounding_event) = 9007199254740996"
  "f64_add 5 9007199254740996 = 9007199254741000"
  "np_sum_f64 [1, 1, 3, 9007199254740994, 3] = 9007199254741004"
  by code_simp+

text \<open>
  C3, as stated, fails: the three sums are float sums and round separately. For the
  light curve \<open>[1, 1, 3, 9007199254740994, 3]\<close> the peak is bin 3, \<open>flux_before_peak\<close> is 5
  and \<open>flux_after_peak\<close> is \<open>9007199254740994 + 3\<close> rounded to 9007199254740996; their
  float sum is 9007199254741000 (their exact sum 9007199254741001), while the sum of
  the whole light curve as \<^verbatim>\<open>np.sum\<close> adds it is 9007199254741004.
\<close>

theorem flux_partition_counterexample:
  "\<not> isl (extract_summary_statistics scenario_config rounding_event) \<and>
   light_curve scenario_config (flux rounding_event) = [1, 1, 3, 9007199254740994, 3] \<and>
   flux_before_peak (projr (extract_summary_statistics scenario_config rounding_event)) = 5 \<and>
   flux_after_peak (projr (extract_summary_statistics scenario_config rounding_event))
     = 9007199254740996 \<and>
   f64_add 5 9007199254740996 = 9007199254741000 \<and>
   np_sum_f64 (light_curve scenario_config (flux rounding_event)) = 9007199254741004 \<and>
   (9007199254741000 :: real) \<noteq> 9007199254741004 \<and>
   (5 + 9007199254740996 :: real) \<noteq> 9007199254741004"
proof -
  obtain i where i: "extract_summary_statistics scenario_config rounding_event = Inr i"
    using extract_decoded_total[OF rounding_decoded scenario_dims] by blast
  have "flux_before_peak i = 5" "flux_after_peak i = 9007199254740996"
    using extract_Inr(6,7)[OF i] by (simp_all add: rounding_sums)
  then show ?thesis
    by (simp add: i rounding_light_curve rounding_sums)
qed

text \<open>
  C3, amended. For every decoded record, \<open>flux_before_peak\<close> is the sum, as
  \<^verbatim>\<open>np.sum\<close> adds it in 64-bit floats, of the light-curve entries strictly before the
  light-curve peak index (0 when the peak is the first bin), and \<open>flux_after_peak\<close> is
  that sum from the peak index through the last bin; every bin is in exactly one of
  the two slices, the peak bin in the second, so the exact sums of the slices add up to
  the exact sum of the light curve. \<open>flux_before_peak + flux_after_peak\<close> equals the sum
  of the whole light curve when no addition rounds, as for integer entries whose
  absolute values add up to at most \<open>2^53\<close>; otherwise the two can differ by rounding.
\<close>

theorem flux_before_after_slices:
  assumes "decoded cfg d" "0 < NUM_WAVELENGTH_BINS cfg" "0 < NUM_MJD_BINS cfg"
  shows "\<exists>i. extract_summary_statistics cfg d = Inr i \<and>
    (let lc = light_curve cfg (flux d); k = lc_peak_mjd_idx i in
       k < length lc \<and>
       flux_before_peak i = (if k = 0 then 0 else np_sum_f64 (take k lc)) \<and>
       flux_after_peak i = np_sum_f64 (lc ! k # drop (Suc k) lc) \<and>
       take k lc @ lc ! k # drop (Suc k) lc = lc \<and>
       sum_list (take k lc) + sum_list (lc ! k # drop (Suc k) lc) = sum_list lc \<and>
       (set lc \<subseteq> \<int> \<and> sum_list (map abs lc) \<le> 2 ^ 53 \<longrightarrow>
          f64_add (flux_before_peak i) (flux_after_peak i) = np_sum_f64 lc \<and>
          flux_before_peak i + flux_after_peak i = sum_list lc))"
proof -
  obtain i where i: "extract_summary_statistics cfg d = Inr i"
    using extract_decoded_total[OF assms] by blast
  define lc where "lc = light_curve cfg (flux d)"
  define k where "k = np_argmax lc"
  have ne: "lc \<noteq> []" unfolding lc_def by (rule light_curve_nonempty[OF assms(3)])
  have k: "k < length lc" unfolding k_def by (rule np_argmax_props(1)[OF ne])
  have idx: "lc_peak_mjd_idx i = k" using extract_Inr(4)[OF i] by (simp add: k_def lc_def)
  have dr: "drop k lc = lc ! k # drop (Suc k) lc" using k by (simp add: Cons_nth_drop_Suc)
  have before: "flux_before_peak i = (if k = 0 then 0 else np_sum_f64 (take k lc))"
    using extract_Inr(6)[OF i]
    by (simp add: flux_before_peak_of_def peak_idx_def Let_def k_def lc_def)
  have after0: "flux_after_peak i = np_sum_f64 (drop k lc)"
    using extract_Inr(7)[OF i] k
    by (simp add: flux_after_peak_of_def peak_idx_def Let_def k_def lc_def)
  have after: "flux_after_peak i = np_sum_f64 (lc ! k # drop (Suc k) lc)"
    using after0 by (simp only: dr)
  have part: "take k lc @ lc ! k # drop (Suc k) lc = lc"
    using append_take_drop_id[of k lc] by (simp only: dr)
  have exact: "sum_list (take k lc) + sum_list (lc ! k # drop (Suc k) lc) = sum_list lc"
    by (subst (3) part[symmetric]) (simp only: sum_list_append)
  have small: "f64_add (flux_before_peak i) (flux_after_peak i) = np_sum_f64 lc \<and>
          flux_before_peak i + flux_after_peak i = sum_list lc"
    if ints: "set lc \<subseteq> \<int>" and bound: "sum_list (map abs lc) \<le> 2 ^ 53"
  proof -
    have ab: "sum_list (map abs lc)
        = sum_list (map abs (take k lc)) + sum_list (map abs (drop k lc))"
      by (subst append_take_drop_id[of k lc, symmetric]) (simp only: map_append sum_list_append)
    have nn: "0 \<le> sum_list (map abs (take k lc))" "0 \<le> sum_list (map abs (drop k lc))"
      by (rule sum_abs_nonneg)+
    have i1: "set (take k lc) \<subseteq> \<int>" using ints set_take_subset[of k lc] by auto
    have i2: "set (drop k lc) \<subseteq> \<int>" using ints set_drop_subset[of k lc] by auto
    have b1: "sum_list (map abs (take k lc)) \<le> 2 ^ 53"
      and b2: "sum_list (map abs (drop k lc)) \<le> 2 ^ 53"
      using ab nn bound by linarith+
    have s1: "np_sum_f64 (take k lc) = sum_list (take k lc)" by (rule np_sum_f64_exact[OF i1 b1])
    have s2: "np_sum_f64 (drop k lc) = sum_list (drop k lc)" by (rule np_sum_f64_exact[OF i2 b2])
    have s: "np_sum_f64 lc = sum_list lc" by (rule np_sum_f64_exact[OF ints bound])
    have bf: "flux_before_peak i = sum_list (take k lc)"
      using before s1 by (cases "k = 0") simp_all
    have af: "flux_after_peak i = sum_list (drop k lc)" using after0 s2 by simp
    have su: "sum_list (take k lc) + sum_list (drop k lc) = sum_list lc"
      using exact by (simp only: dr)
    have "\<bar>sum_list (take k lc)\<bar> \<le> sum_list (map abs (take k lc))"
      "\<bar>sum_list (drop k lc)\<bar> \<le> sum_list (map abs (drop k lc))"
      by (rule abs_sum_list_le)+
    then have "\<bar>sum_list (take k lc)\<bar> + \<bar>sum_list (drop k lc)\<bar> \<le> 2 ^ 53"
      using ab bound by linarith
    then have "f64_add (sum_list (take k lc)) (sum_list (drop k lc))
        = sum_list (take k lc) + sum_list (drop k lc)"
      by (rule f64_add_exact[OF sum_list_Ints[OF i1] sum_list_Ints[OF i2]])
    then show ?thesis by (simp only: bf af su s)
  qed
  show ?thesis
    using i k idx before after part exact small unfolding Let_def lc_def[symmetric] by blast
qed

theorem flux_before_after_slices_witness:
  "decoded scenario_config scenario_event \<and>
   set (light_curve scenario_config (flux scenario_event)) \<subseteq> \<int> \<and>
   sum_list (map abs (light_curve scenario_config (flux scenario_event))) \<le> 2 ^ 53 \<and>
   (\<exists>i. extract_summary_statistics scenario_config scenario_event = Inr i \<and>
      lc_peak_mjd_idx i = 3 \<and> flux_before_peak i = 0 \<and> flux_after_peak i = 10 \<and>
      f64_add (flux_before_peak i) (flux_after_peak i)
        = np_sum_f64 (light_curve scenario_config (flux scenario_event)) \<and>
      flux_before_peak i + flux_after_peak i
        = sum_list (light_curve scenario_config (flux scenario_event)))"
proof -
  have ints: "set (light_curve scenario_config (flux scenario_event)) \<subseteq> \<int>"
    by (simp add: scenario_light_curve)
  have bound: "sum_list (map abs (light_curve scenario_config (flux scenario_event))) \<le> 2 ^ 53"
    by (simp add: scenario_light_curve)
  obtain i where i: "extract_summary_statistics scenario_config scenario_event = Inr i"
    and p: "let lc = light_curve scenario_config (flux scenario_event); k = lc_peak_mjd_idx i in
       k < length lc \<and>
       flux_before_peak i = (if k = 0 then 0 else np_sum_f64 (take k lc)) \<and>
       flux_after_peak i = np_sum_f64 (lc ! k # drop (Suc k) lc) \<and>
       take k lc @ lc ! k # drop (Suc k) lc = lc \<and>
       sum_list (take k lc) + sum_list (lc ! k # drop (Suc k) lc) = sum_list lc \<and>
       (set lc \<subseteq> \<int> \<and> sum_list (map abs lc) \<le> 2 ^ 53 \<longrightarrow>
          f64_add (flux_before_peak i) (flux_after_peak i) = np_sum_f64 lc \<and>
          flux_before_peak i + flux_after_peak i = sum_list lc)"
    using flux_before_after_slices[OF scenario_decoded scenario_dims] by blast
  from p ints bound have e: "f64_add (flux_before_peak i) (flux_after_peak i)
        = np_sum_f64 (light_curve scenario_config (flux scenario_event)) \<and>
      flux_before_peak i + flux_after_peak i
        = sum_list (light_curve scenario_config (flux scenario_event))"
    unfolding Let_def by blast
  have k: "lc_peak_mjd_idx i = 3"
    using extract_Inr(4)[OF i] by (simp add: scenario_light_curve)
  have v: "flux_before_peak_of scenario_config (flux scenario_event) = 0"
    "flux_after_peak_of scenario_config (flux scenario_event) = 10"
    by code_simp+
  have "flux_before_peak i = 0 \<and> flux_after_peak i = 10"
    using extract_Inr(6,7)[OF i] by (simp add: v)
  with scenario_decoded ints bound i k e show ?thesis by blast
qed

end
